theory Spec2Isabelle
  imports Main "HOL-Library.Multiset" "HOL-Library.List_Lexorder" "HOL-Library.Char_ord"
    "HOL-Library.Product_Lexorder"
begin

section \<open>Data model\<close>

text \<open>
  The backend stores one \<open>EPGSource\<close> row per playlist (table \<open>epg_sources\<close>) and the
  programmes parsed from its XMLTV feed (table \<open>epg_programs\<close>); both interfaces are
  declared in \<open>backend/src/db/queries.ts\<close>. Timestamps are JavaScript numbers holding
  milliseconds since the epoch; as integers far below \<open>2^53\<close> they are modelled by \<open>int\<close>.
  A column or field that may be \<open>null\<close> or \<open>undefined\<close> is an \<open>option\<close>.

  Names follow the source. Where two interfaces share a field name, or a field name is a
  constant of HOL, the name carries a suffix: \<open>id_s\<close>, \<open>id_p\<close> (the \<open>id\<close> of a source and
  of a programme row), \<open>created_at_p\<close>, \<open>group_c\<close>, \<open>now_prog\<close> and \<open>next_prog\<close> (the fields
  \<open>now\<close> and \<open>next\<close> of a matcher entry), \<open>errors_x\<close> (the \<open>errors\<close> of the guide parser's
  result), \<open>epg_url_r\<close> (the \<open>epg_url\<close> of the playlist parser's result).
\<close>

record EPGSource =
  id_s :: string
  playlist_id :: string
  epg_url :: string
  last_fetched :: "int option"
  last_modified :: "string option"
  etag :: "string option"
  fetch_error :: "string option"
  created_at :: int
  updated_at :: int

text \<open>
  \<open>EPGProgram\<close> (\<open>xmltv-parser.ts\<close>) is what the guide parser produces, \<open>EPGProgramDB\<close>
  (\<open>queries.ts\<close>) a stored row: the same fields and \<open>id\<close>, \<open>epg_source_id\<close>, \<open>created_at\<close>.
  The type of the two time fields is a parameter: the parser computes them with
  \<open>Date.UTC\<close>, which can yield \<open>NaN\<close> (there the parameter is \<open>int option\<close>, \<open>None\<close> for
  \<open>NaN\<close>), while the columns \<open>start_time\<close> and \<open>end_time\<close> are \<open>INTEGER NOT NULL\<close> (there
  it is \<open>int\<close>).
\<close>

record 'n EPGProgram =
  channel_id :: string
  title :: string
  description :: "string option"
  start_time :: 'n
  end_time :: 'n
  category :: "string option"
  icon_url :: "string option"

record 'n EPGProgramDB = "'n EPGProgram" +
  id_p :: string
  epg_source_id :: string
  created_at_p :: int

text \<open>The entry of one channel in the matcher's output, \<open>{ now?: EPGProgramDB; next?: EPGProgramDB }\<close>.\<close>

record NowNext =
  now_prog :: "int EPGProgramDB option"
  next_prog :: "int EPGProgramDB option"

text \<open>\<open>Channel\<close> of the playlist parser, and the record the channel route returns for it.\<close>

record Channel =
  name :: string
  url :: string
  logo :: "string option"
  group_c :: "string option"
  tvg_id :: "string option"

record ChannelWithEPG = Channel +
  epg :: "NowNext option"

section \<open>Staleness of a guide source\<close>

text \<open>
  \<^verbatim>\<open>
  export function shouldRefreshEPG(source: EPGSource): boolean {
    if (!source.last_fetched) return true;
    const oneHourAgo = Date.now() - 60 * 60 * 1000;
    return source.last_fetched < oneHourAgo;
  }
  \<close>
  The reading of \<open>Date.now()\<close> is the first argument. \<open>!source.last_fetched\<close> holds for
  \<open>null\<close> and also for the number \<open>0\<close>.
\<close>

definition falsy_num :: "int option \<Rightarrow> bool" where
  "falsy_num v = (case v of None \<Rightarrow> True | Some n \<Rightarrow> n = 0)"

definition shouldRefreshEPG :: "int \<Rightarrow> 'a EPGSource_scheme \<Rightarrow> bool" where
  "shouldRefreshEPG now source =
     (if falsy_num (last_fetched source) then True
      else (let oneHourAgo = now - 60 * 60 * 1000
            in the (last_fetched source) < oneHourAgo))"

section \<open>Enrichment merge\<close>

text \<open>
  \<^verbatim>\<open>
  const channelsWithEPG = channels.map((ch) => ({
    ...ch,
    epg: ch.tvg_id && epgData[ch.tvg_id] ? epgData[ch.tvg_id] : undefined,
  }));
  \<close>
  \<open>epgData\<close> is the object returned by the matcher, read as the map of its own
  properties from channel ids to entries (an entry is an object and so always truthy; a
  channel id that names a property every object inherits, such as \<open>constructor\<close>, is
  outside the model). A string is truthy when it is present and not empty.
\<close>

definition truthy_str :: "string option \<Rightarrow> bool" where
  "truthy_str v = (case v of None \<Rightarrow> False | Some s \<Rightarrow> s \<noteq> [])"

definition channelsWithEPG :: "Channel list \<Rightarrow> (string \<rightharpoonup> NowNext) \<Rightarrow> ChannelWithEPG list" where
  "channelsWithEPG chs epgData =
     map (\<lambda>ch. \<lparr>name = name ch, url = url ch, logo = logo ch, group_c = group_c ch,
                 tvg_id = tvg_id ch,
                 epg = (if truthy_str (tvg_id ch) then epgData (the (tvg_id ch)) else None)\<rparr>)
       chs"

section \<open>The now/next matcher\<close>

text \<open>
  \<^verbatim>\<open>
  export async function getNowNextPrograms(db, sourceId, channelIds, now = Date.now()) {
    if (channelIds.length === 0) return {};
    const result = {};
    const query = `
      SELECT * FROM epg_programs
      WHERE epg_source_id = ?
        AND channel_id IN (${placeholders})
        AND end_time > ?
      ORDER BY channel_id, start_time
    `;
    const programs = await db.prepare(query).bind(sourceId, ...channelIds, now).all();
    for (const prog of programs.results || []) {
      if (!result[prog.channel_id]) {
        result[prog.channel_id] = {};
      }
      const entry = result[prog.channel_id];
      if (prog.start_time <= now && prog.end_time > now) {
        entry.now = prog;
      }
      else if (prog.start_time > now && !entry.next) {
        entry.next = prog;
      }
    }
    return result;
  }
  \<close>
\<close>

subsection \<open>The query\<close>

text \<open>
  The table \<open>epg_programs\<close> is the list of its rows. The query keeps the rows of the source
  whose channel is requested and that end after \<open>now\<close>, and \<open>ORDER BY\<close> puts them in
  ascending order of \<open>(channel_id, start_time)\<close> (strings compare byte by byte, as SQLite's
  default collation does). SQL leaves the order of rows with equal keys to the database,
  which decides it by the index it reads; so the query is a relation: \<open>rows\<close> is an answer
  when it holds the qualifying rows, each as often as the table does, in an order that is
  ascending in the key.
\<close>

definition selectNowNext ::
  "int EPGProgramDB list \<Rightarrow> string \<Rightarrow> string list \<Rightarrow> int \<Rightarrow> int EPGProgramDB list \<Rightarrow> bool" where
  "selectNowNext tbl sourceId channelIds now rows \<longleftrightarrow>
     mset rows =
       mset (filter (\<lambda>p. epg_source_id p = sourceId \<and> channel_id p \<in> set channelIds \<and> end_time p > now) tbl)
     \<and> sorted (map (\<lambda>p. (channel_id p, start_time p)) rows)"

subsection \<open>The objects of the loop\<close>

text \<open>
  \<open>result\<close> is an object literal, so its prototype is \<open>Object.prototype\<close>, and
  \<open>result[k]\<close> finds an own property of \<open>result\<close> or else a property of \<open>Object.prototype\<close>.
  By ECMA-262 (20.1.3 and B.2.2) \<open>Object.prototype\<close> has the accessor \<open>__proto__\<close>, whose
  getter answers the prototype of the receiver, here \<open>Object.prototype\<close> itself, and
  eleven properties that hold functions (\<open>constructor\<close> holds \<open>Object\<close>). All of these
  values are objects, hence truthy. The loop can add two more properties to
  \<open>Object.prototype\<close>: a row whose \<open>channel_id\<close> is \<open>__proto__\<close> is written to
  \<open>Object.prototype.now\<close> or \<open>Object.prototype.next\<close>, where it stays after the call.

  The objects the loop reads and writes, and of each its own properties \<open>now\<close> and
  \<open>next\<close> (\<open>None\<close>: the object has no such property of its own):
  \<^item> \<open>Entry k\<close>, the object created by \<open>result[k] = {}\<close>; \<open>result_props\<close> is the map of the
    own properties of \<open>result\<close>;
  \<^item> \<open>ObjectPrototype\<close>;
  \<^item> \<open>Builtin k\<close>, the function that \<open>Object.prototype\<close> holds under the name \<open>k\<close>;
  \<^item> \<open>HeldNow\<close> and \<open>HeldNext\<close>, the row objects that \<open>Object.prototype.now\<close> and
    \<open>Object.prototype.next\<close> refer to, reached as \<open>result['now']\<close> and \<open>result['next']\<close>.

  Reading \<open>entry.next\<close> finds the property of the object itself or else an inherited one:
  entries and rows inherit from \<open>Object.prototype\<close>, functions from \<open>Function.prototype\<close>
  and then \<open>Object.prototype\<close>. An assignment \<open>entry.now = prog\<close> creates or overwrites a
  property of the object itself. Taken from the platform: \<open>Function.prototype\<close> has no
  property \<open>now\<close> or \<open>next\<close>, a row object has its columns as own properties and no other,
  and a row object is identified with the values of its columns.
\<close>

datatype target = Entry string | ObjectPrototype | Builtin string | HeldNow | HeldNext

record heap =
  result_props :: "string \<rightharpoonup> NowNext"
  object_prototype :: NowNext
  builtin :: "string \<Rightarrow> NowNext"
  held_now :: NowNext
  held_next :: NowNext

definition empty_obj :: NowNext where
  "empty_obj = \<lparr>now_prog = None, next_prog = None\<rparr>"

definition method_names :: "string list" where
  "method_names = [''constructor'', ''hasOwnProperty'', ''isPrototypeOf'',
     ''propertyIsEnumerable'', ''toLocaleString'', ''toString'', ''valueOf'',
     ''__defineGetter__'', ''__defineSetter__'', ''__lookupGetter__'', ''__lookupSetter__'']"

text \<open>\<open>result[k]\<close>: the object found, \<open>None\<close> for \<open>undefined\<close>. An own property of
  \<open>result\<close> comes first, then what \<open>Object.prototype\<close> has under the name.\<close>

definition inherited :: "heap \<Rightarrow> string \<Rightarrow> target option" where
  "inherited h k =
     (if k = ''__proto__'' then Some ObjectPrototype
      else if k \<in> set method_names then Some (Builtin k)
      else if k = ''now'' \<and> now_prog (object_prototype h) \<noteq> None then Some HeldNow
      else if k = ''next'' \<and> next_prog (object_prototype h) \<noteq> None then Some HeldNext
      else None)"

definition lookup :: "heap \<Rightarrow> string \<Rightarrow> target option" where
  "lookup h k =
     (case result_props h k of
        Some e \<Rightarrow> Some (Entry k)
      | None \<Rightarrow> inherited h k)"

text \<open>The own properties \<open>now\<close> and \<open>next\<close> of an object, and writing them back.\<close>

fun props :: "heap \<Rightarrow> target \<Rightarrow> NowNext" where
  "props h (Entry k) = (case result_props h k of Some e \<Rightarrow> e | None \<Rightarrow> empty_obj)"
| "props h ObjectPrototype = object_prototype h"
| "props h (Builtin k) = builtin h k"
| "props h HeldNow = held_now h"
| "props h HeldNext = held_next h"

fun set_props :: "target \<Rightarrow> NowNext \<Rightarrow> heap \<Rightarrow> heap" where
  "set_props (Entry k) v h = h\<lparr>result_props := (result_props h)(k \<mapsto> v)\<rparr>"
| "set_props ObjectPrototype v h = h\<lparr>object_prototype := v\<rparr>"
| "set_props (Builtin k) v h = h\<lparr>builtin := (builtin h)(k := v)\<rparr>"
| "set_props HeldNow v h = h\<lparr>held_now := v\<rparr>"
| "set_props HeldNext v h = h\<lparr>held_next := v\<rparr>"

text \<open>\<open>!entry.next\<close> is false when the object has a \<open>next\<close> of its own or inherits one.\<close>

definition has_next :: "heap \<Rightarrow> target \<Rightarrow> bool" where
  "has_next h t \<longleftrightarrow>
     next_prog (props h t) \<noteq> None
     \<or> (t \<noteq> ObjectPrototype \<and> next_prog (object_prototype h) \<noteq> None)"

text \<open>
  \<open>entry.now = prog\<close> and \<open>entry.next = prog\<close>. When the object written is
  \<open>Object.prototype\<close>, the row object it now refers to is \<open>prog\<close>, which has no \<open>now\<close> or
  \<open>next\<close> of its own.
\<close>

definition write_now :: "target \<Rightarrow> int EPGProgramDB \<Rightarrow> heap \<Rightarrow> heap" where
  "write_now t prog h =
     (let h' = set_props t ((props h t)\<lparr>now_prog := Some prog\<rparr>) h
      in if t = ObjectPrototype then h'\<lparr>held_now := empty_obj\<rparr> else h')"

definition write_next :: "target \<Rightarrow> int EPGProgramDB \<Rightarrow> heap \<Rightarrow> heap" where
  "write_next t prog h =
     (let h' = set_props t ((props h t)\<lparr>next_prog := Some prog\<rparr>) h
      in if t = ObjectPrototype then h'\<lparr>held_next := empty_obj\<rparr> else h')"

subsection \<open>The loop\<close>

text \<open>One iteration: the entry of the row's channel is created when \<open>result[k]\<close> finds
  nothing, then \<open>now\<close> is overwritten or \<open>next\<close> is set once, on the object found.\<close>

definition nowNextStep :: "int \<Rightarrow> heap \<Rightarrow> int EPGProgramDB \<Rightarrow> heap" where
  "nowNextStep now h prog =
     (let h1 = (if lookup h (channel_id prog) = None
                then h\<lparr>result_props := (result_props h)(channel_id prog \<mapsto> empty_obj)\<rparr>
                else h);
          entry = (case lookup h1 (channel_id prog) of
                     Some t \<Rightarrow> t
                   | None \<Rightarrow> Entry (channel_id prog))
      in if start_time prog \<le> now \<and> end_time prog > now
         then write_now entry prog h1
         else if start_time prog > now \<and> \<not> has_next h1 entry
         then write_next entry prog h1
         else h1)"

fun nowNextLoop :: "int \<Rightarrow> int EPGProgramDB list \<Rightarrow> heap \<Rightarrow> heap" where
  "nowNextLoop now [] h = h"
| "nowNextLoop now (prog # progs) h = nowNextLoop now progs (nowNextStep now h prog)"

text \<open>
  The call: \<open>rows\<close> is what the database answered (\<open>programs.results || []\<close>) and \<open>h\<close> the
  built-in objects as the call finds them; \<open>result\<close> starts without properties. The heap
  returned holds \<open>result\<close>, with the entries as its own properties, and the built-in
  objects as the call leaves them.
\<close>

definition getNowNextPrograms :: "int EPGProgramDB list \<Rightarrow> string list \<Rightarrow> int \<Rightarrow> heap \<Rightarrow> heap" where
  "getNowNextPrograms rows channelIds now h =
     (if channelIds = [] then h\<lparr>result_props := Map.empty\<rparr>
      else nowNextLoop now rows (h\<lparr>result_props := Map.empty\<rparr>))"

text \<open>The built-in objects of a fresh isolate: none of them has a \<open>now\<close> or a \<open>next\<close>.\<close>

definition pristine :: heap where
  "pristine = \<lparr>result_props = Map.empty, object_prototype = empty_obj,
     builtin = (\<lambda>k. empty_obj), held_now = empty_obj, held_next = empty_obj\<rparr>"

text \<open>
  What the scan computes, in terms of the run of a channel (its rows, in the order of the
  answer): the last row airing at \<open>now\<close> and the first row starting after \<open>now\<close>.
\<close>

definition last_opt :: "'a list \<Rightarrow> 'a option" where
  "last_opt xs = (if xs = [] then None else Some (last xs))"

definition first_opt :: "'a list \<Rightarrow> 'a option" where
  "first_opt xs = (case xs of [] \<Rightarrow> None | x # _ \<Rightarrow> Some x)"

definition airing :: "int \<Rightarrow> (int, 'a) EPGProgram_scheme \<Rightarrow> bool" where
  "airing now p \<longleftrightarrow> start_time p \<le> now \<and> now < end_time p"

definition upcoming :: "int \<Rightarrow> (int, 'a) EPGProgram_scheme \<Rightarrow> bool" where
  "upcoming now p \<longleftrightarrow> now < start_time p"

definition scanned :: "int \<Rightarrow> int EPGProgramDB list \<Rightarrow> string \<Rightarrow> NowNext option" where
  "scanned now rows c =
     (let run = filter (\<lambda>p. channel_id p = c) rows
      in if run = [] then None
         else Some \<lparr>now_prog = last_opt (filter (airing now) run),
                    next_prog = first_opt (filter (upcoming now) run)\<rparr>)"

definition qualifying :: "int EPGProgramDB list \<Rightarrow> string \<Rightarrow> string list \<Rightarrow> int \<Rightarrow> string \<Rightarrow> int EPGProgramDB set" where
  "qualifying tbl sourceId channelIds now c =
     {p \<in> set tbl. epg_source_id p = sourceId \<and> channel_id p = c \<and> c \<in> set channelIds \<and> end_time p > now}"


text \<open>
  The parser module has a matcher of its own for one channel, over a list of programmes in
  memory:
  \<^verbatim>\<open>
  export function getNowNext(programs, channelId, now = Date.now()) {
    const channelPrograms = programs
      .filter((p) => p.channel_id === channelId)
      .sort((a, b) => a.start_time - b.start_time);
    let nowProgram, nextProgram;
    for (const program of channelPrograms) {
      if (program.start_time <= now && program.end_time > now) {
        nowProgram = program;
      } else if (program.start_time > now && !nextProgram) {
        nextProgram = program;
        break;
      }
    }
    return { now: nowProgram, next: nextProgram };
  }
  \<close>
  \<open>Array.prototype.sort\<close> is stable, as \<open>sort_key\<close> is. The result is the pair of \<open>now\<close> and
  \<open>next\<close>; the loop stops at the \<open>break\<close>.
\<close>

fun getNowNextLoop ::
  "int \<Rightarrow> (int, 'a) EPGProgram_scheme list \<Rightarrow>
   (int, 'a) EPGProgram_scheme option \<times> (int, 'a) EPGProgram_scheme option \<Rightarrow>
   (int, 'a) EPGProgram_scheme option \<times> (int, 'a) EPGProgram_scheme option" where
  "getNowNextLoop now [] (nowProgram, nextProgram) = (nowProgram, nextProgram)"
| "getNowNextLoop now (program # rest) (nowProgram, nextProgram) =
     (if start_time program \<le> now \<and> end_time program > now
      then getNowNextLoop now rest (Some program, nextProgram)
      else if start_time program > now \<and> nextProgram = None
      then (nowProgram, Some program)
      else getNowNextLoop now rest (nowProgram, nextProgram))"

definition channelPrograms ::
  "(int, 'a) EPGProgram_scheme list \<Rightarrow> string \<Rightarrow> (int, 'a) EPGProgram_scheme list" where
  "channelPrograms progs channelId =
     sort_key start_time (filter (\<lambda>p. channel_id p = channelId) progs)"

definition getNowNext ::
  "(int, 'a) EPGProgram_scheme list \<Rightarrow> string \<Rightarrow> int \<Rightarrow>
   (int, 'a) EPGProgram_scheme option \<times> (int, 'a) EPGProgram_scheme option" where
  "getNowNext progs channelId now =
     getNowNextLoop now (channelPrograms progs channelId) (None, None)"

section \<open>Guide timestamps\<close>

subsection \<open>Strings and numbers of the platform\<close>

text \<open>
  Strings are lists of characters; the feeds are taken to be ASCII. The functions below are
  the ones of ECMA-262 that \<open>parseXMLTVDateTime\<close> calls: \<open>trim\<close>, \<open>substring\<close>,
  \<open>parseInt(_, 10)\<close> and \<open>Date.UTC\<close>. A JavaScript number is an \<open>int option\<close> here, \<open>None\<close>
  standing for \<open>NaN\<close> (no other non-integer arises: every operand is an integer of at most
  four digits or a product of such).
\<close>

definition is_ws :: "char \<Rightarrow> bool" where
  "is_ws c \<longleftrightarrow> c \<in> {CHR '' '', CHR 0x09, CHR 0x0A, CHR 0x0B, CHR 0x0C, CHR 0x0D}"

definition is_digit :: "char \<Rightarrow> bool" where
  "is_digit c \<longleftrightarrow> CHR ''0'' \<le> c \<and> c \<le> CHR ''9''"

definition trim :: "string \<Rightarrow> string" where
  "trim s = rev (dropWhile is_ws (rev (dropWhile is_ws s)))"

text \<open>\<open>s.substring(a, b)\<close> for \<open>a \<le> b\<close>; both ends are clamped to the length of \<open>s\<close>.\<close>

definition substring :: "string \<Rightarrow> nat \<Rightarrow> nat \<Rightarrow> string" where
  "substring s a b = take (b - a) (drop a s)"

definition digit_val :: "char \<Rightarrow> int" where
  "digit_val c = int (of_char c) - 48"

definition dec :: "string \<Rightarrow> int" where
  "dec ds = foldl (\<lambda>a c. 10 * a + digit_val c) 0 ds"

text \<open>
  \<open>parseInt(s, 10)\<close>: leading white space is skipped, a sign is read, then the longest run
  of decimal digits; with no digit the result is \<open>NaN\<close>.
\<close>

definition parseInt :: "string \<Rightarrow> int option" where
  "parseInt s =
     (let s1 = dropWhile is_ws s;
          sign = (case s1 of c # _ \<Rightarrow> if c = CHR ''-'' then - 1 else 1 | [] \<Rightarrow> (1::int));
          s2 = (case s1 of c # r \<Rightarrow> if c = CHR ''-'' \<or> c = CHR ''+'' then r else s1 | [] \<Rightarrow> s1);
          ds = takeWhile is_digit s2
      in if ds = [] then None else Some (sign * dec ds))"

text \<open>
  \<open>Date.UTC\<close> (ECMA-262, 21.4.1 and 21.4.3.4): \<open>MakeDay\<close> adds the days before the year,
  the days before the month (a month outside 0..11 carries into the year) and the day of
  the month; \<open>MakeFullYear\<close> reads a year from 0 to 99 as 1900 + year; \<open>TimeClip\<close> yields
  \<open>NaN\<close> beyond 8.64e15 ms. An argument that is \<open>NaN\<close> makes the result \<open>NaN\<close>.
\<close>

definition msPerDay :: int where "msPerDay = 86400000"

definition DayFromYear :: "int \<Rightarrow> int" where
  "DayFromYear y = 365 * (y - 1970) + (y - 1969) div 4 - (y - 1901) div 100 + (y - 1601) div 400"

definition InLeapYear :: "int \<Rightarrow> bool" where
  "InLeapYear y \<longleftrightarrow> (y mod 4 = 0 \<and> y mod 100 \<noteq> 0) \<or> y mod 400 = 0"

definition DaysBeforeMonth :: "bool \<Rightarrow> int \<Rightarrow> int" where
  "DaysBeforeMonth leap mn =
     [0, 31, 59, 90, 120, 151, 181, 212, 243, 273, 304, 334] ! nat mn
       + (if leap \<and> 2 \<le> mn then 1 else 0)"

definition MakeDay :: "int \<Rightarrow> int \<Rightarrow> int \<Rightarrow> int" where
  "MakeDay year month date =
     (let ym = year + month div 12; mn = month mod 12
      in DayFromYear ym + DaysBeforeMonth (InLeapYear ym) mn + date - 1)"

definition MakeTime :: "int \<Rightarrow> int \<Rightarrow> int \<Rightarrow> int \<Rightarrow> int" where
  "MakeTime hour minute sec ms = hour * 3600000 + minute * 60000 + sec * 1000 + ms"

definition MakeDate :: "int \<Rightarrow> int \<Rightarrow> int" where
  "MakeDate day time = day * msPerDay + time"

definition MakeFullYear :: "int \<Rightarrow> int" where
  "MakeFullYear y = (if 0 \<le> y \<and> y \<le> 99 then 1900 + y else y)"

definition TimeClip :: "int \<Rightarrow> int option" where
  "TimeClip t = (if \<bar>t\<bar> > 8640000000000000 then None else Some t)"

definition Date_UTC ::
  "int option \<Rightarrow> int option \<Rightarrow> int option \<Rightarrow> int option \<Rightarrow> int option \<Rightarrow> int option \<Rightarrow> int option" where
  "Date_UTC year month day hour minute second =
     (case (year, month, day, hour, minute, second) of
        (Some y, Some m, Some dt, Some h, Some mi, Some s) \<Rightarrow>
          TimeClip (MakeDate (MakeDay (MakeFullYear y) m dt) (MakeTime h mi s 0))
      | _ \<Rightarrow> None)"

subsection \<open>parseXMLTVDateTime\<close>

text \<open>
  \<^verbatim>\<open>
  function parseXMLTVDateTime(dateStr: string): number {
    const cleanStr = dateStr.trim();
    const dateTimePart = cleanStr.substring(0, 14);
    const year = parseInt(dateTimePart.substring(0, 4), 10);
    const month = parseInt(dateTimePart.substring(4, 6), 10) - 1;
    const day = parseInt(dateTimePart.substring(6, 8), 10);
    const hour = parseInt(dateTimePart.substring(8, 10), 10);
    const minute = parseInt(dateTimePart.substring(10, 12), 10);
    const second = parseInt(dateTimePart.substring(12, 14), 10);
    const tzMatch = cleanStr.match(/([+-])(\d{2})(\d{2})$/);
    if (tzMatch) {
      const tzSign = tzMatch[1] === '+' ? 1 : -1;
      const tzHours = parseInt(tzMatch[2], 10);
      const tzMinutes = parseInt(tzMatch[3], 10);
      const tzOffsetMs = tzSign * (tzHours * 60 + tzMinutes) * 60 * 1000;
      const utcDate = Date.UTC(year, month, day, hour, minute, second);
      return utcDate - tzOffsetMs;
    }
    return Date.UTC(year, month, day, hour, minute, second);
  }
  \<close>
  The pattern ends in \<open>$\<close>, so it can only match the last five characters: a sign and
  four digits. The function has no failing path: on a string it cannot read it returns
  \<open>NaN\<close>.
\<close>

definition tzMatch :: "string \<Rightarrow> (char \<times> string \<times> string) option" where
  "tzMatch s =
     (case drop (length s - 5) s of
        [sg, a, b, c, d] \<Rightarrow>
          if (sg = CHR ''+'' \<or> sg = CHR ''-'') \<and> is_digit a \<and> is_digit b \<and> is_digit c \<and> is_digit d
          then Some (sg, [a, b], [c, d]) else None
      | _ \<Rightarrow> None)"

definition num_sub :: "int option \<Rightarrow> int option \<Rightarrow> int option" where
  "num_sub a b = (case (a, b) of (Some x, Some y) \<Rightarrow> Some (x - y) | _ \<Rightarrow> None)"

definition parseXMLTVDateTime :: "string \<Rightarrow> int option" where
  "parseXMLTVDateTime dateStr =
     (let cleanStr = trim dateStr;
          dateTimePart = substring cleanStr 0 14;
          year = parseInt (substring dateTimePart 0 4);
          month = num_sub (parseInt (substring dateTimePart 4 6)) (Some 1);
          day = parseInt (substring dateTimePart 6 8);
          hour = parseInt (substring dateTimePart 8 10);
          minute = parseInt (substring dateTimePart 10 12);
          second = parseInt (substring dateTimePart 12 14)
      in case tzMatch cleanStr of
           Some (sg, hh, mm) \<Rightarrow>
             (let tzSign = (if sg = CHR ''+'' then 1 else - 1);
                  tzHours = parseInt hh;
                  tzMinutes = parseInt mm;
                  tzOffsetMs = (case (tzHours, tzMinutes) of
                                  (Some th, Some tm) \<Rightarrow> Some (tzSign * (th * 60 + tm) * 60 * 1000)
                                | _ \<Rightarrow> None);
                  utcDate = Date_UTC year month day hour minute second
              in num_sub utcDate tzOffsetMs)
         | None \<Rightarrow> Date_UTC year month day hour minute second)"

text \<open>The six fields of a 14-digit stamp, read as a wall-clock time of UTC.\<close>

definition wall_clock_utc :: "string \<Rightarrow> int option" where
  "wall_clock_utc ds =
     Date_UTC (Some (dec (take 4 ds))) (Some (dec (take 2 (drop 4 ds)) - 1))
       (Some (dec (take 2 (drop 6 ds)))) (Some (dec (take 2 (drop 8 ds))))
       (Some (dec (take 2 (drop 10 ds)))) (Some (dec (take 2 (drop 12 ds))))"

section \<open>The guide parser\<close>

text \<open>
  \<open>parseXMLTV\<close> hands the text to the XML parser of the library \<open>fast-xml-parser\<close> and
  walks the \<open>programme\<close> elements of the object it returns. The model starts from that
  object. An element's attributes are strings (\<open>prog['@_start']\<close>); a child element is a
  string when it only has text, an object with an optional \<open>#text\<close> when it has attributes,
  and an array when it is repeated.
\<close>

datatype xval = XStr string | XObj "string option" | XArr "xval list"

record programme =
  attr_channel :: "string option"
  attr_start :: "string option"
  attr_stop :: "string option"
  el_title :: "xval option"
  el_desc :: "xval option"
  el_category :: "xval option"
  icon_src :: "string option"

datatype xml_doc = XmlThrows string | NoTv | Tv "programme list"

record 'n ParseXMLTVResult =
  programs :: "'n EPGProgram list"
  errors_x :: "string list"

text \<open>Truthiness of a child value, and the property \<open>v['#text']\<close>.\<close>

fun truthy :: "xval \<Rightarrow> bool" where
  "truthy (XStr s) = (s \<noteq> [])"
| "truthy (XObj t) = True"
| "truthy (XArr vs) = True"

fun text_of :: "xval \<Rightarrow> string option" where
  "text_of (XStr s) = None"
| "text_of (XObj t) = t"
| "text_of (XArr vs) = None"

text \<open>
  \<^verbatim>\<open>
  let title = '';
  if (prog.title) {
    if (typeof prog.title === 'string') {
      title = prog.title;
    } else if (prog.title['#text']) {
      title = prog.title['#text'];
    } else if (Array.isArray(prog.title) && prog.title[0]) {
      const firstTitle = prog.title[0];
      title = typeof firstTitle === 'string' ? firstTitle : firstTitle['#text'] || '';
    }
  }
  \<close>
\<close>

definition extractTitle :: "xval option \<Rightarrow> string" where
  "extractTitle t =
     (case t of
        None \<Rightarrow> []
      | Some (XStr s) \<Rightarrow> s
      | Some (XObj x) \<Rightarrow> (if truthy_str x then the x else [])
      | Some (XArr []) \<Rightarrow> []
      | Some (XArr (firstTitle # _)) \<Rightarrow>
          (if \<not> truthy firstTitle then []
           else case firstTitle of
                  XStr s \<Rightarrow> s
                | _ \<Rightarrow> (if truthy_str (text_of firstTitle) then the (text_of firstTitle) else [])))"

text \<open>The description is read the same way, without the final \<open>|| ''\<close>; of the categories
  the first one is taken.\<close>

definition extractDesc :: "xval option \<Rightarrow> string option" where
  "extractDesc t =
     (case t of
        None \<Rightarrow> None
      | Some (XStr s) \<Rightarrow> (if s = [] then None else Some s)
      | Some (XObj x) \<Rightarrow> (if truthy_str x then x else None)
      | Some (XArr []) \<Rightarrow> None
      | Some (XArr (firstDesc # _)) \<Rightarrow>
          (if \<not> truthy firstDesc then None
           else case firstDesc of XStr s \<Rightarrow> Some s | _ \<Rightarrow> text_of firstDesc))"

definition extractCategory :: "xval option \<Rightarrow> string option" where
  "extractCategory t =
     (case t of
        None \<Rightarrow> None
      | Some v \<Rightarrow>
          (if \<not> truthy v then None
           else let categories = (case v of XArr vs \<Rightarrow> vs | _ \<Rightarrow> [v])
                in case categories of
                     [] \<Rightarrow> None
                   | cat # _ \<Rightarrow>
                       (if \<not> truthy cat then None
                        else case cat of XStr s \<Rightarrow> Some s | _ \<Rightarrow> text_of cat)))"

text \<open>Comparisons of numbers: with \<open>NaN\<close> on either side they are false.\<close>

definition num_lt :: "int option \<Rightarrow> int option \<Rightarrow> bool" where
  "num_lt a b = (case (a, b) of (Some x, Some y) \<Rightarrow> x < y | _ \<Rightarrow> False)"

definition num_gt :: "int option \<Rightarrow> int option \<Rightarrow> bool" where
  "num_gt a b = (case (a, b) of (Some x, Some y) \<Rightarrow> x > y | _ \<Rightarrow> False)"

text \<open>
  \<^verbatim>\<open>
  for (const prog of programmes) {
    try {
      const channelId = prog['@_channel'];
      const startStr = prog['@_start'];
      const stopStr = prog['@_stop'];
      if (!channelId || !startStr || !stopStr) {
        continue;
      }
      const startTime = parseXMLTVDateTime(startStr);
      const endTime = parseXMLTVDateTime(stopStr);
      // Skip programs that have already ended or are too far in the future
      if (endTime < now || startTime > maxTime) {
        continue;
      }
      ... title, description, category, iconUrl ...
      if (!title) {
        continue;
      }
      programs.push({ channel_id: channelId, title, description,
        start_time: startTime, end_time: endTime, category, icon_url: iconUrl });
    } catch (err) {
      // Skip individual program parsing errors
      errors.push(`Failed to parse programme: ${...}`);
    }
  }
  \<close>
  One pass of the body either skips the element, pushes a programme or throws; the
  \<open>catch\<close> turns a throw into an entry of \<open>errors\<close>. No statement of the body throws on the
  values above (\<open>parseXMLTVDateTime\<close> in particular returns \<open>NaN\<close>), so \<open>parseProgramme\<close>
  never yields \<open>Threw\<close>.
\<close>

datatype 'a outcome = Skipped | Pushed 'a | Threw string

definition parseProgramme :: "int \<Rightarrow> int \<Rightarrow> programme \<Rightarrow> (int option) EPGProgram outcome" where
  "parseProgramme now maxTime prog =
     (if \<not> truthy_str (attr_channel prog) \<or> \<not> truthy_str (attr_start prog)
         \<or> \<not> truthy_str (attr_stop prog)
      then Skipped
      else let startTime = parseXMLTVDateTime (the (attr_start prog));
               endTime = parseXMLTVDateTime (the (attr_stop prog))
           in if num_lt endTime (Some now) \<or> num_gt startTime (Some maxTime) then Skipped
              else let title = extractTitle (el_title prog)
                   in if title = [] then Skipped
                      else Pushed \<lparr>channel_id = the (attr_channel prog), title = title,
                             description = extractDesc (el_desc prog),
                             start_time = startTime, end_time = endTime,
                             category = extractCategory (el_category prog),
                             icon_url = (if truthy_str (icon_src prog) then icon_src prog else None)\<rparr>)"

fun parseProgrammes ::
  "int \<Rightarrow> int \<Rightarrow> programme list \<Rightarrow> (int option) ParseXMLTVResult \<Rightarrow> (int option) ParseXMLTVResult" where
  "parseProgrammes now maxTime [] acc = acc"
| "parseProgrammes now maxTime (prog # rest) acc =
     parseProgrammes now maxTime rest
       (case parseProgramme now maxTime prog of
          Skipped \<Rightarrow> acc
        | Pushed p \<Rightarrow> acc\<lparr>programs := programs acc @ [p]\<rparr>
        | Threw msg \<Rightarrow> acc\<lparr>errors_x := errors_x acc @ [''Failed to parse programme: '' @ msg]\<rparr>)"

text \<open>\<open>parseXMLTV\<close>; its first argument is the reading of \<open>Date.now()\<close>, the second what
  \<open>parser.parse(xmlContent)\<close> gave.\<close>

definition parseXMLTV :: "int \<Rightarrow> xml_doc \<Rightarrow> (int option) ParseXMLTVResult" where
  "parseXMLTV now parsed =
     (case parsed of
        XmlThrows msg \<Rightarrow> \<lparr>programs = [], errors_x = [''Error parsing XMLTV: '' @ msg]\<rparr>
      | NoTv \<Rightarrow> \<lparr>programs = [], errors_x = [''Invalid XMLTV: missing <tv> root element'']\<rparr>
      | Tv programmes \<Rightarrow>
          (let maxTime = now + 48 * 60 * 60 * 1000
           in parseProgrammes now maxTime programmes \<lparr>programs = [], errors_x = []\<rparr>))"

section \<open>The playlist parser\<close>

subsection \<open>Attributes of a line\<close>

text \<open>
  The parser reads attributes with patterns of one shape, \<open>KEY="([^"]*)"\<close>, some of them
  with the flag \<open>i\<close>. \<open>String.prototype.match\<close> tries the pattern at every position from
  the left. At one position the pattern matches when the text \<open>KEY="\<close> stands there
  (letters compared without case under \<open>i\<close>) and a closing quote follows later; the group
  is the text up to the first closing quote.
\<close>

definition dq :: char where
  "dq = CHR 0x22"

definition upper :: "char \<Rightarrow> char" where
  "upper c = (if CHR ''a'' \<le> c \<and> c \<le> CHR ''z'' then char_of (of_char c - (32::nat)) else c)"

definition same_text :: "bool \<Rightarrow> string \<Rightarrow> string \<Rightarrow> bool" where
  "same_text ci s t = (if ci then map upper s = map upper t else s = t)"

definition stands_at :: "bool \<Rightarrow> string \<Rightarrow> string \<Rightarrow> bool" where
  "stands_at ci key s = same_text ci (take (length key + 2) s) (key @ [CHR ''='', dq])"

definition match_at :: "bool \<Rightarrow> string \<Rightarrow> string \<Rightarrow> string option" where
  "match_at ci key s =
     (if stands_at ci key s
      then (let rest = drop (length key + 2) s
            in if dq \<in> set rest then Some (takeWhile (\<lambda>c. c \<noteq> dq) rest) else None)
      else None)"

fun regex_match :: "bool \<Rightarrow> string \<Rightarrow> string \<Rightarrow> string option" where
  "regex_match ci key [] = match_at ci key []"
| "regex_match ci key (c # r) =
     (case match_at ci key (c # r) of Some v \<Rightarrow> Some v | None \<Rightarrow> regex_match ci key r)"

text \<open>The text \<open>KEY="\<close> stands somewhere on the line.\<close>

fun has_attr :: "bool \<Rightarrow> string \<Rightarrow> string \<Rightarrow> bool" where
  "has_attr ci key [] = stands_at ci key []"
| "has_attr ci key (c # r) = (stands_at ci key (c # r) \<or> has_attr ci key r)"

subsection \<open>extractEpgUrl\<close>

text \<open>
  \<^verbatim>\<open>
  function extractEpgUrl(headerLine: string): string | undefined {
    // Try url-tvg first (most common)
    const urlTvgMatch = headerLine.match(/url-tvg="([^"]*)"/i);
    if (urlTvgMatch && urlTvgMatch[1]) {
      return urlTvgMatch[1];
    }
    // Try x-tvg-url as fallback
    const xTvgUrlMatch = headerLine.match(/x-tvg-url="([^"]*)"/i);
    if (xTvgUrlMatch && xTvgUrlMatch[1]) {
      return xTvgUrlMatch[1];
    }
    return undefined;
  }
  \<close>
\<close>

definition extractEpgUrl :: "string \<Rightarrow> string option" where
  "extractEpgUrl headerLine =
     (let urlTvgMatch = regex_match True ''url-tvg'' headerLine
      in if truthy_str urlTvgMatch then urlTvgMatch
         else (let xTvgUrlMatch = regex_match True ''x-tvg-url'' headerLine
               in if truthy_str xTvgUrlMatch then xTvgUrlMatch else None))"

text \<open>
  The reading of the specification's sentence "whichever is found first is returned" by
  position on the line: the line is scanned from the left and at every position both
  spellings are tried.
\<close>

fun spec_first_on_line :: "string \<Rightarrow> string option" where
  "spec_first_on_line [] = None"
| "spec_first_on_line (c # r) =
     (case match_at True ''url-tvg'' (c # r) of
        Some v \<Rightarrow> Some v
      | None \<Rightarrow> (case match_at True ''x-tvg-url'' (c # r) of
                   Some v \<Rightarrow> Some v
                 | None \<Rightarrow> spec_first_on_line r))"

subsection \<open>parseExtinf\<close>

text \<open>
  \<^verbatim>\<open>
  function parseExtinf(line: string): Partial<Channel> {
    const channel: Partial<Channel> = {};
    const commaIndex = line.lastIndexOf(',');
    if (commaIndex !== -1) {
      channel.name = line.substring(commaIndex + 1).trim();
    }
    const tvgIdMatch = line.match(/tvg-id="([^"]*)"/i);
    if (tvgIdMatch && tvgIdMatch[1]) {
      channel.tvg_id = tvgIdMatch[1];
    }
    const logoMatch = line.match(/tvg-logo="([^"]*)"/);
    if (logoMatch) {
      channel.logo = logoMatch[1];
    }
    const groupMatch = line.match(/group-title="([^"]*)"/);
    if (groupMatch) {
      channel.group = groupMatch[1];
    }
    return channel;
  }
  \<close>
  A \<open>Partial<Channel>\<close> has every field optional; its fields carry the prefix \<open>p_\<close>.
\<close>

record PartialChannel =
  p_name :: "string option"
  p_url :: "string option"
  p_logo :: "string option"
  p_group :: "string option"
  p_tvg_id :: "string option"

definition after_last_comma :: "string \<Rightarrow> string option" where
  "after_last_comma line =
     (if CHR '','' \<in> set line then Some (rev (takeWhile (\<lambda>c. c \<noteq> CHR '','') (rev line)))
      else None)"

definition parseExtinf :: "string \<Rightarrow> PartialChannel" where
  "parseExtinf line =
     \<lparr>p_name = map_option trim (after_last_comma line),
      p_url = None,
      p_logo = regex_match False ''tvg-logo'' line,
      p_group = regex_match False ''group-title'' line,
      p_tvg_id = (let tvgIdMatch = regex_match True ''tvg-id'' line
                  in if truthy_str tvgIdMatch then tvgIdMatch else None)\<rparr>"

subsection \<open>parseM3U\<close>

text \<open>
  \<^verbatim>\<open>
  function isValidUrl(urlString: string): boolean {
    try {
      const url = new URL(urlString);
      return url.protocol === 'http:' || url.protocol === 'https:';
    } catch {
      return false;
    }
  }
  \<close>
  The URL parser belongs to the platform. It is a parameter of the model: \<open>protocol s\<close> is
  the \<open>protocol\<close> of \<open>new URL(s)\<close>, and \<open>None\<close> when the constructor throws.
\<close>

definition isValidUrl :: "(string \<Rightarrow> string option) \<Rightarrow> string \<Rightarrow> bool" where
  "isValidUrl protocol urlString =
     (case protocol urlString of
        Some p \<Rightarrow> p = ''http:'' \<or> p = ''https:''
      | None \<Rightarrow> False)"

definition startsWith :: "string \<Rightarrow> string \<Rightarrow> bool" where
  "startsWith s p = (take (length p) s = p)"

text \<open>\<open>content.split('\n')\<close>: the pieces between line feeds, at least one.\<close>

fun split_lines :: "string \<Rightarrow> string list" where
  "split_lines [] = [[]]"
| "split_lines (c # r) =
     (if c = CHR 0x0A then [] # split_lines r
      else (case split_lines r of l # ls \<Rightarrow> (c # l) # ls | [] \<Rightarrow> [[c]]))"

text \<open>Decimal digits of a line number, for the template string of the warning.\<close>

fun show_nat :: "nat \<Rightarrow> string" where
  "show_nat n = (if n < 10 then [''0123456789'' ! n]
                 else show_nat (n div 10) @ [''0123456789'' ! (n mod 10)])"

declare show_nat.simps [simp del]

record ParseResult =
  channels :: "Channel list"
  errors :: "string list"
  epg_url_r :: "string option"

text \<open>
  \<^verbatim>\<open>
  let currentChannel: Partial<Channel> | null = null;
  for (let i = 1; i < lines.length; i++) {
    const line = lines[i];
    // Skip empty lines and comments (except EXTINF)
    if (!line || (line.startsWith('#') && !line.startsWith('#EXTINF'))) {
      continue;
    }
    // Parse EXTINF line for metadata
    if (line.startsWith('#EXTINF')) {
      currentChannel = parseExtinf(line);
    }
    // Parse URL line
    else if (currentChannel && isValidUrl(line)) {
      currentChannel.url = line;
      // Add channel if it has required fields
      if (currentChannel.name && currentChannel.url) {
        channels.push(currentChannel as Channel);
      } else {
        errors.push(`Skipped channel with missing data at line ${i + 1}`);
      }
      currentChannel = null;
    }
  }
  return { channels, errors, epg_url };
  \<close>
  The loop state is \<open>currentChannel\<close>, \<open>channels\<close> and \<open>errors\<close>; \<open>scanLines\<close> takes the index
  \<open>i\<close> of the first remaining line. A line that is neither metadata nor an accepted URL
  changes nothing.
\<close>

definition toChannel :: "PartialChannel \<Rightarrow> Channel" where
  "toChannel p = \<lparr>name = the (p_name p), url = the (p_url p), logo = p_logo p,
     group_c = p_group p, tvg_id = p_tvg_id p\<rparr>"

fun scanLines ::
  "(string \<Rightarrow> string option) \<Rightarrow> nat \<Rightarrow> string list \<Rightarrow> PartialChannel option \<Rightarrow>
   Channel list \<times> string list \<Rightarrow> Channel list \<times> string list" where
  "scanLines protocol i [] currentChannel (chs, errs) = (chs, errs)"
| "scanLines protocol i (line # rest) currentChannel (chs, errs) =
     (if line = [] \<or> (startsWith line ''#'' \<and> \<not> startsWith line ''#EXTINF'')
      then scanLines protocol (i + 1) rest currentChannel (chs, errs)
      else if startsWith line ''#EXTINF''
      then scanLines protocol (i + 1) rest (Some (parseExtinf line)) (chs, errs)
      else (case currentChannel of
              Some cur \<Rightarrow>
                if isValidUrl protocol line
                then (let cur' = cur\<lparr>p_url := Some line\<rparr>
                      in if truthy_str (p_name cur') \<and> truthy_str (p_url cur')
                         then scanLines protocol (i + 1) rest None (chs @ [toChannel cur'], errs)
                         else scanLines protocol (i + 1) rest None
                                (chs, errs @ [''Skipped channel with missing data at line ''
                                                @ show_nat (i + 1)]))
                else scanLines protocol (i + 1) rest currentChannel (chs, errs)
            | None \<Rightarrow> scanLines protocol (i + 1) rest currentChannel (chs, errs)))"

text \<open>
  What \<open>parseM3U\<close> does with the text of a fetched playlist (the fetch itself, and its
  failures, come before this): \<open>content.split('\n').map(line => line.trim())\<close>, then the
  header check, \<open>extractEpgUrl\<close> and the loop from index 1.
\<close>

definition parseM3U_lines :: "(string \<Rightarrow> string option) \<Rightarrow> string list \<Rightarrow> ParseResult" where
  "parseM3U_lines protocol lines =
     (if lines = [] \<or> \<not> startsWith (hd lines) ''#EXTM3U''
      then \<lparr>channels = [], errors = [''Invalid M3U file: missing #EXTM3U header''],
             epg_url_r = None\<rparr>
      else (let epg_url = extractEpgUrl (hd lines);
                (chs, errs) = scanLines protocol 1 (tl lines) None ([], [])
            in \<lparr>channels = chs, errors = errs, epg_url_r = epg_url\<rparr>))"

definition parseM3U_content :: "(string \<Rightarrow> string option) \<Rightarrow> string \<Rightarrow> ParseResult" where
  "parseM3U_content protocol content = parseM3U_lines protocol (map trim (split_lines content))"

text \<open>The text \<open>KEY="v"\<close> of an attribute, and the channel completed by a URL line.\<close>

definition attr :: "string \<Rightarrow> string \<Rightarrow> string" where
  "attr key v = key @ [CHR ''='', dq] @ v @ [dq]"

definition channelOf :: "string \<Rightarrow> string \<Rightarrow> Channel" where
  "channelOf extinf urlLine = toChannel ((parseExtinf extinf)\<lparr>p_url := Some urlLine\<rparr>)"

subsection \<open>The lines of a playlist\<close>

text \<open>
  What a body line is to the loop. A metadata line starts with \<open>#EXTINF\<close>. A URL line is
  one that is not empty, does not start with \<open>#\<close> and is accepted by \<open>isValidUrl\<close>. Every
  other line (empty, a comment, or text that is no accepted URL) is noise: the loop passes
  over it. The warning of the loop is the template string with the line number.
\<close>

definition isMeta :: "string \<Rightarrow> bool" where
  "isMeta line \<longleftrightarrow> startsWith line ''#EXTINF''"

definition isUrlLine :: "(string \<Rightarrow> string option) \<Rightarrow> string \<Rightarrow> bool" where
  "isUrlLine protocol line \<longleftrightarrow> line \<noteq> [] \<and> \<not> startsWith line ''#'' \<and> isValidUrl protocol line"

definition isNoise :: "(string \<Rightarrow> string option) \<Rightarrow> string \<Rightarrow> bool" where
  "isNoise protocol line \<longleftrightarrow> \<not> isMeta line \<and> \<not> isUrlLine protocol line"

definition warning :: "nat \<Rightarrow> string" where
  "warning n = ''Skipped channel with missing data at line '' @ show_nat n"

text \<open>
  The metadata line that is pending when the loop reaches the body line of index \<open>j\<close>:
  going back from that line over noise, the first line met is a metadata line (and not a
  URL line, which would have used up or found no pending record). \<open>e0\<close> is the metadata
  line pending before the first body line; for a whole playlist there is none. A URL line
  completes a channel when the pending metadata line has a usable name, and draws a
  warning when it has none.
\<close>

definition metaBefore :: "(string \<Rightarrow> string option) \<Rightarrow> string option \<Rightarrow> string list \<Rightarrow> nat \<Rightarrow> string option" where
  "metaBefore protocol e0 ls j =
     (case find (\<lambda>l. isMeta l \<or> isUrlLine protocol l) (rev (take j ls)) of
        Some l \<Rightarrow> if isMeta l then Some l else None
      | None \<Rightarrow> e0)"

definition completesAt :: "(string \<Rightarrow> string option) \<Rightarrow> string option \<Rightarrow> string list \<Rightarrow> nat \<Rightarrow> bool" where
  "completesAt protocol e0 ls j \<longleftrightarrow>
     isUrlLine protocol (ls ! j) \<and>
     (case metaBefore protocol e0 ls j of
        Some e \<Rightarrow> truthy_str (p_name (parseExtinf e))
      | None \<Rightarrow> False)"

definition warnsAt :: "(string \<Rightarrow> string option) \<Rightarrow> string option \<Rightarrow> string list \<Rightarrow> nat \<Rightarrow> bool" where
  "warnsAt protocol e0 ls j \<longleftrightarrow>
     isUrlLine protocol (ls ! j) \<and>
     (case metaBefore protocol e0 ls j of
        Some e \<Rightarrow> \<not> truthy_str (p_name (parseExtinf e))
      | None \<Rightarrow> False)"

text \<open>Joining the lines of a feed with line feeds.\<close>

fun unlines :: "string list \<Rightarrow> string" where
  "unlines [] = []"
| "unlines [l] = l"
| "unlines (l # ls) = l @ [CHR 0x0A] @ unlines ls"

text \<open>
  A stand-in for the URL parser on concrete feeds: it answers for the two shapes
  \<open>http://...\<close> and \<open>https://...\<close> with a non-empty rest, as the platform does.
\<close>

definition protocol0 :: "string \<Rightarrow> string option" where
  "protocol0 s =
     (if startsWith s ''http://'' \<and> length s > 7 then Some ''http:''
      else if startsWith s ''https://'' \<and> length s > 8 then Some ''https:''
      else None)"

section \<open>The freshness cache\<close>

subsection \<open>The database\<close>

text \<open>
  The D1 database is its two tables, each the list of its rows, together with a trace of
  what was done to the outside world: the statements that write, in the order they were
  run, and the fetches of a guide feed.

  A statement can be rejected by a constraint of the schema, and then the call throws.
  The columns \<open>start_time\<close> and \<open>end_time\<close> of \<open>epg_programs\<close> are \<open>INTEGER NOT NULL\<close>, and
  a \<open>NaN\<close> bound to a statement reaches the database as \<open>NULL\<close>; the parser does produce
  programmes whose times are \<open>NaN\<close>. This is the rejection the model has. The other
  constraints cannot fail on the values of the model or are taken from the platform:
  \<open>title\<close> and \<open>channel_id\<close> of a parsed programme are strings, the identifiers handed out
  by \<open>generateUUID\<close> (\<open>crypto.randomUUID()\<close>) are taken to be fresh, the playlist of a
  source exists, and the database is reachable.
\<close>

datatype error = NotNullFailed string

datatype event =
    UpdateSourceUrl string string int
  | InsertSource EPGSource
  | UpdateSourceFetch string int "string option" "string option" "string option"
  | DeleteOldPrograms string int
  | DeletePrograms string
  | InsertBatch "int EPGProgramDB list"
  | RejectedBatch error
  | FetchXMLTV string

record db =
  epg_sources :: "EPGSource list"
  epg_programs :: "int EPGProgramDB list"
  trace :: "event list"

definition emit :: "event \<Rightarrow> db \<Rightarrow> db" where
  "emit e d = d\<lparr>trace := trace d @ [e]\<rparr>"

subsection \<open>Queries on \<open>epg_sources\<close>\<close>

text \<open>
  \<^verbatim>\<open>
  export async function getOrCreateEPGSource(db, playlistId, epgUrl): Promise<EPGSource> {
    const existing = await db
      .prepare('SELECT * FROM epg_sources WHERE playlist_id = ?').bind(playlistId)
      .first<EPGSource>();
    if (existing) {
      if (existing.epg_url !== epgUrl) {
        const now = Date.now();
        await db
          .prepare('UPDATE epg_sources SET epg_url = ?, updated_at = ?, last_fetched = NULL,
                    fetch_error = NULL WHERE id = ?')
          .bind(epgUrl, now, existing.id).run();
        return { ...existing, epg_url: epgUrl, updated_at: now, last_fetched: null,
                 fetch_error: null };
      }
      return existing;
    }
    const id = generateUUID();
    const now = Date.now();
    await db.prepare('INSERT INTO epg_sources (...) VALUES (?, ?, ?, ?, ?, ?, ?, ?, ?)')
      .bind(id, playlistId, epgUrl, null, null, null, null, now, now).run();
    return { id, playlist_id: playlistId, epg_url: epgUrl, last_fetched: null,
             last_modified: null, etag: null, fetch_error: null, created_at: now,
             updated_at: now };
  }
  \<close>
  The first two arguments are the reading of \<open>Date.now()\<close> and the result of
  \<open>generateUUID()\<close>; \<open>.first()\<close> is the first row of the table that matches.
\<close>

definition rebind :: "string \<Rightarrow> int \<Rightarrow> EPGSource \<Rightarrow> EPGSource" where
  "rebind epgUrl now s = s\<lparr>epg_url := epgUrl, updated_at := now, last_fetched := None,
     fetch_error := None\<rparr>"

definition getOrCreateEPGSource ::
  "int \<Rightarrow> string \<Rightarrow> db \<Rightarrow> string \<Rightarrow> string \<Rightarrow> EPGSource \<times> db" where
  "getOrCreateEPGSource now uuid d playlistId epgUrl =
     (case find (\<lambda>s. playlist_id s = playlistId) (epg_sources d) of
        Some existing \<Rightarrow>
          if epg_url existing \<noteq> epgUrl
          then (rebind epgUrl now existing,
                emit (UpdateSourceUrl (id_s existing) epgUrl now)
                  (d\<lparr>epg_sources :=
                       map (\<lambda>s. if id_s s = id_s existing then rebind epgUrl now s else s)
                         (epg_sources d)\<rparr>))
          else (existing, d)
      | None \<Rightarrow>
          (let new = \<lparr>id_s = uuid, playlist_id = playlistId, epg_url = epgUrl,
                       last_fetched = None, last_modified = None, etag = None,
                       fetch_error = None, created_at = now, updated_at = now\<rparr>
           in (new, emit (InsertSource new) (d\<lparr>epg_sources := epg_sources d @ [new]\<rparr>))))"

text \<open>
  \<^verbatim>\<open>
  export async function updateEPGSourceFetch(db, sourceId, lastModified, etag, fetchError) {
    const now = Date.now();
    await db
      .prepare('UPDATE epg_sources SET last_fetched = ?, last_modified = ?, etag = ?,
                fetch_error = ?, updated_at = ? WHERE id = ?')
      .bind(now, lastModified, etag, fetchError, now, sourceId).run();
  }
  \<close>
\<close>

definition stamp :: "int \<Rightarrow> string option \<Rightarrow> string option \<Rightarrow> string option \<Rightarrow> EPGSource \<Rightarrow> EPGSource" where
  "stamp now lastModified etag' fetchError s =
     s\<lparr>last_fetched := Some now, last_modified := lastModified, etag := etag',
       fetch_error := fetchError, updated_at := now\<rparr>"

definition updateEPGSourceFetch ::
  "int \<Rightarrow> db \<Rightarrow> string \<Rightarrow> string option \<Rightarrow> string option \<Rightarrow> string option \<Rightarrow> db" where
  "updateEPGSourceFetch now d sourceId lastModified etag' fetchError =
     emit (UpdateSourceFetch sourceId now lastModified etag' fetchError)
       (d\<lparr>epg_sources :=
            map (\<lambda>s. if id_s s = sourceId then stamp now lastModified etag' fetchError s else s)
              (epg_sources d)\<rparr>)"

subsection \<open>Queries on \<open>epg_programs\<close>\<close>

text \<open>
  \<^verbatim>\<open>
  export async function clearEPGPrograms(db, sourceId) {
    await db.prepare('DELETE FROM epg_programs WHERE epg_source_id = ?').bind(sourceId).run();
  }
  export async function cleanupOldPrograms(db, sourceId) {
    const oneHourAgo = Date.now() - 60 * 60 * 1000;
    await db.prepare('DELETE FROM epg_programs WHERE epg_source_id = ? AND end_time < ?')
      .bind(sourceId, oneHourAgo).run();
  }
  \<close>
\<close>

definition clearEPGPrograms :: "db \<Rightarrow> string \<Rightarrow> db" where
  "clearEPGPrograms d sourceId =
     emit (DeletePrograms sourceId)
       (d\<lparr>epg_programs := filter (\<lambda>p. \<not> (epg_source_id p = sourceId)) (epg_programs d)\<rparr>)"

definition cleanupOldPrograms :: "int \<Rightarrow> db \<Rightarrow> string \<Rightarrow> db" where
  "cleanupOldPrograms now d sourceId =
     (let oneHourAgo = now - 60 * 60 * 1000
      in emit (DeleteOldPrograms sourceId oneHourAgo)
           (d\<lparr>epg_programs :=
                filter (\<lambda>p. \<not> (epg_source_id p = sourceId \<and> end_time p < oneHourAgo))
                  (epg_programs d)\<rparr>))"

text \<open>
  \<^verbatim>\<open>
  export async function insertEPGPrograms(db, sourceId, programs) {
    if (programs.length === 0) return;
    const now = Date.now();
    // D1 has limits on batch size, so we chunk into groups of 100
    const chunkSize = 100;
    for (let i = 0; i < programs.length; i += chunkSize) {
      const chunk = programs.slice(i, i + chunkSize);
      const statements = chunk.map((prog) => {
        const id = generateUUID();
        return db.prepare('INSERT INTO epg_programs (...) VALUES (?, ?, ?, ?, ?, ?, ?, ?, ?, ?)')
          .bind(id, sourceId, prog.channel_id, prog.title, prog.description || null,
                prog.start_time, prog.end_time, prog.category || null,
                prog.icon_url || null, now);
      });
      await db.batch(statements);
    }
  }
  \<close>
  \<open>uuid k\<close> is the identifier generated for the programme of index \<open>k\<close>. \<open>v || null\<close> stores
  an absent or empty string as \<open>NULL\<close>. \<open>toRow\<close> is the list of values bound to one
  \<open>INSERT\<close>, with times that may be \<open>NaN\<close>.
\<close>

definition or_null :: "string option \<Rightarrow> string option" where
  "or_null v = (if truthy_str v then v else None)"

definition toRow :: "int \<Rightarrow> string \<Rightarrow> string \<Rightarrow> 'n EPGProgram \<Rightarrow> 'n EPGProgramDB" where
  "toRow now ident sourceId prog =
     \<lparr>channel_id = channel_id prog, title = title prog,
      description = or_null (description prog),
      start_time = start_time prog, end_time = end_time prog,
      category = or_null (category prog), icon_url = or_null (icon_url prog),
      id_p = ident, epg_source_id = sourceId, created_at_p = now\<rparr>"

text \<open>
  What the table does with the bound values of one \<open>INSERT\<close>: the row is accepted when
  both times are numbers, and rejected by the constraint of the first column that would
  hold \<open>NULL\<close>.
\<close>

definition accept :: "(int option) EPGProgramDB \<Rightarrow> error + int EPGProgramDB" where
  "accept r =
     (case start_time r of
        None \<Rightarrow> Inl (NotNullFailed ''epg_programs.start_time'')
      | Some s \<Rightarrow>
          (case end_time r of
             None \<Rightarrow> Inl (NotNullFailed ''epg_programs.end_time'')
           | Some t \<Rightarrow>
               Inr \<lparr>channel_id = channel_id r, title = title r, description = description r,
                    start_time = s, end_time = t, category = category r,
                    icon_url = icon_url r, id_p = id_p r, epg_source_id = epg_source_id r,
                    created_at_p = created_at_p r\<rparr>))"

fun acceptAll :: "(int option) EPGProgramDB list \<Rightarrow> error + int EPGProgramDB list" where
  "acceptAll [] = Inr []"
| "acceptAll (r # rs) =
     (case accept r of
        Inl err \<Rightarrow> Inl err
      | Inr x \<Rightarrow> (case acceptAll rs of Inl err \<Rightarrow> Inl err | Inr xs \<Rightarrow> Inr (x # xs)))"

text \<open>
  \<open>db.batch(statements)\<close> runs the statements as one transaction: when one of them is
  rejected nothing of the batch is written and the call throws (\<open>Inl\<close>); what earlier
  calls wrote stays.
\<close>

definition batch :: "(int option) EPGProgramDB list \<Rightarrow> db \<Rightarrow> (error + unit) \<times> db" where
  "batch statements d =
     (case acceptAll statements of
        Inl err \<Rightarrow> (Inl err, emit (RejectedBatch err) d)
      | Inr rows \<Rightarrow> (Inr (), emit (InsertBatch rows) (d\<lparr>epg_programs := epg_programs d @ rows\<rparr>)))"

function insertChunks ::
  "int \<Rightarrow> (nat \<Rightarrow> string) \<Rightarrow> string \<Rightarrow> (int option) EPGProgram list \<Rightarrow> nat \<Rightarrow> db \<Rightarrow>
   (error + unit) \<times> db" where
  "insertChunks now uuid sourceId progs i d =
     (if i < length progs
      then (let chunk = take 100 (drop i progs);
                statements = map (\<lambda>(j, prog). toRow now (uuid (i + j)) sourceId prog)
                               (zip [0..<length chunk] chunk)
            in case batch statements d of
                 (Inl err, d') \<Rightarrow> (Inl err, d')
               | (Inr u, d') \<Rightarrow> insertChunks now uuid sourceId progs (i + 100) d')
      else (Inr (), d))"
  by pat_completeness auto
termination
  by (relation "measure (\<lambda>(now, uuid, sourceId, progs, i, d). length progs - i)") auto

declare insertChunks.simps [simp del]

definition insertEPGPrograms ::
  "int \<Rightarrow> (nat \<Rightarrow> string) \<Rightarrow> db \<Rightarrow> string \<Rightarrow> (int option) EPGProgram list \<Rightarrow>
   (error + unit) \<times> db" where
  "insertEPGPrograms now uuid d sourceId progs =
     (if progs = [] then (Inr (), d) else insertChunks now uuid sourceId progs 0 d)"

subsection \<open>refreshEPGIfNeeded\<close>

text \<open>
  \<^verbatim>\<open>
  export async function refreshEPGIfNeeded(db, playlistId, epgUrl) {
    try {
      const source = await getOrCreateEPGSource(db, playlistId, epgUrl);
      if (!shouldRefreshEPG(source)) {
        return { source, refreshed: false };
      }
      const result = await fetchAndParseXMLTV(epgUrl);
      if (result.programs.length === 0 && result.errors.length > 0) {
        await updateEPGSourceFetch(db, source.id, null, null, result.errors.join('; '));
        return { source, refreshed: false, error: result.errors.join('; ') };
      }
      // Clean up old programs and insert new ones
      await cleanupOldPrograms(db, source.id);
      await clearEPGPrograms(db, source.id);
      await insertEPGPrograms(db, source.id, result.programs);
      // Update source metadata
      await updateEPGSourceFetch(db, source.id, null, null, null);
      return { source: { ...source, last_fetched: Date.now() }, refreshed: true };
    } catch (error) {
      console.error('EPG refresh error:', error);
      return { source: null, refreshed: false, error: String(error) };
    }
  }
  \<close>
  What the call meets outside is gathered in a record: the readings of \<open>Date.now()\<close>, one
  per function that reads the clock, the identifiers \<open>generateUUID()\<close> hands out,
  \<open>feed\<close>, the result of \<open>fetchAndParseXMLTV\<close> for a URL (it catches what the fetch throws
  and answers with an error list), and \<open>thrown_text\<close>, the text \<open>String(error)\<close> of an error
  thrown by the database. The fields of the returned object carry the prefix \<open>r_\<close>.

  Of the calls inside \<open>try\<close> the one that can throw in the model is \<open>insertEPGPrograms\<close>;
  then the \<open>catch\<close> answers, after both \<open>DELETE\<close>s have run and without
  \<open>updateEPGSourceFetch\<close>.
\<close>

record env =
  t_source :: int
  t_check :: int
  t_prune :: int
  t_insert :: int
  t_stamp :: int
  t_return :: int
  source_uuid :: string
  program_uuid :: "nat \<Rightarrow> string"
  feed :: "string \<Rightarrow> (int option) ParseXMLTVResult"
  thrown_text :: "error \<Rightarrow> string"

record RefreshResult =
  r_source :: "EPGSource option"
  r_refreshed :: bool
  r_error :: "string option"

fun join :: "string \<Rightarrow> string list \<Rightarrow> string" where
  "join sep [] = []"
| "join sep [x] = x"
| "join sep (x # y # ys) = x @ sep @ join sep (y # ys)"

definition refreshEPGIfNeeded :: "env \<Rightarrow> db \<Rightarrow> string \<Rightarrow> string \<Rightarrow> RefreshResult \<times> db" where
  "refreshEPGIfNeeded e d playlistId epgUrl =
     (let (source, d1) = getOrCreateEPGSource (t_source e) (source_uuid e) d playlistId epgUrl
      in if \<not> shouldRefreshEPG (t_check e) source
         then (\<lparr>r_source = Some source, r_refreshed = False, r_error = None\<rparr>, d1)
         else (let d2 = emit (FetchXMLTV epgUrl) d1;
                   result = feed e epgUrl
               in if programs result = [] \<and> errors_x result \<noteq> []
                  then (\<lparr>r_source = Some source, r_refreshed = False,
                          r_error = Some (join ''; '' (errors_x result))\<rparr>,
                        updateEPGSourceFetch (t_stamp e) d2 (id_s source) None None
                          (Some (join ''; '' (errors_x result))))
                  else (let d3 = cleanupOldPrograms (t_prune e) d2 (id_s source);
                            d4 = clearEPGPrograms d3 (id_s source)
                        in case insertEPGPrograms (t_insert e) (program_uuid e) d4 (id_s source)
                                  (programs result) of
                             (Inl err, d5) \<Rightarrow>
                               (\<lparr>r_source = None, r_refreshed = False,
                                  r_error = Some (thrown_text e err)\<rparr>, d5)
                           | (Inr u, d5) \<Rightarrow>
                               (let d6 = updateEPGSourceFetch (t_stamp e) d5 (id_s source)
                                           None None None
                                in (\<lparr>r_source = Some (source\<lparr>last_fetched := Some (t_return e)\<rparr>),
                                      r_refreshed = True, r_error = None\<rparr>, d6)))))"

text \<open>The values bound for a list of programmes, a stored row seen with times that may
  be absent, and the row of a playlist's source.\<close>

definition newRows :: "int \<Rightarrow> (nat \<Rightarrow> string) \<Rightarrow> string \<Rightarrow> 'n EPGProgram list \<Rightarrow> 'n EPGProgramDB list" where
  "newRows now uuid sourceId progs =
     map (\<lambda>k. toRow now (uuid k) sourceId (progs ! k)) [0..<length progs]"

text \<open>The values bound by the batch that starts at index \<open>i\<close>.\<close>

definition bound :: "int \<Rightarrow> (nat \<Rightarrow> string) \<Rightarrow> string \<Rightarrow> 'n EPGProgram list \<Rightarrow> nat \<Rightarrow> 'n EPGProgramDB list" where
  "bound now uuid sourceId progs i =
     map (\<lambda>k. toRow now (uuid k) sourceId (progs ! k)) [i..<min (i + 100) (length progs)]"

definition nullable :: "int EPGProgramDB \<Rightarrow> (int option) EPGProgramDB" where
  "nullable r =
     \<lparr>channel_id = channel_id r, title = title r, description = description r,
      start_time = Some (start_time r), end_time = Some (end_time r), category = category r,
      icon_url = icon_url r, id_p = id_p r, epg_source_id = epg_source_id r,
      created_at_p = created_at_p r\<rparr>"

definition sourceOf :: "db \<Rightarrow> string \<Rightarrow> EPGSource option" where
  "sourceOf d playlistId = find (\<lambda>s. playlist_id s = playlistId) (epg_sources d)"


definition isInsert :: "event \<Rightarrow> bool" where
  "isInsert ev = (case ev of InsertBatch rows \<Rightarrow> True | _ \<Rightarrow> False)"

definition isFetch :: "event \<Rightarrow> bool" where
  "isFetch ev = (case ev of FetchXMLTV u \<Rightarrow> True | _ \<Rightarrow> False)"

definition isStamp :: "event \<Rightarrow> bool" where
  "isStamp ev = (case ev of UpdateSourceFetch s t lm et fe \<Rightarrow> True | _ \<Rightarrow> False)"


section \<open>Concrete inputs\<close>

definition source0 :: EPGSource where
  "source0 = \<lparr>id_s = ''s1'', playlist_id = ''p1'', epg_url = ''http://epg.example/g.xml'',
     last_fetched = Some 1704067200000, last_modified = None, etag = None,
     fetch_error = None, created_at = 1704060000000, updated_at = 1704067200000\<rparr>"

text \<open>Programmes of channel \<open>bbc1\<close> on 2024-01-01: A 10:00-11:00, B 11:00-12:00 (scenario D
  of the specification), and two overlapping ones, L 10:00-12:00 and S 10:15-11:00.\<close>

definition progA :: "int EPGProgramDB" where
  "progA = \<lparr>channel_id = ''bbc1'', title = ''A'', description = None,
     start_time = 1704103200000, end_time = 1704106800000, category = None, icon_url = None,
     id_p = ''a'', epg_source_id = ''s1'', created_at_p = 1704100000000\<rparr>"

definition progB :: "int EPGProgramDB" where
  "progB = \<lparr>channel_id = ''bbc1'', title = ''B'', description = None,
     start_time = 1704106800000, end_time = 1704110400000, category = None, icon_url = None,
     id_p = ''b'', epg_source_id = ''s1'', created_at_p = 1704100000000\<rparr>"

definition progL :: "int EPGProgramDB" where
  "progL = \<lparr>channel_id = ''bbc1'', title = ''L'', description = None,
     start_time = 1704103200000, end_time = 1704110400000, category = None, icon_url = None,
     id_p = ''l'', epg_source_id = ''s1'', created_at_p = 1704100000000\<rparr>"

definition progS :: "int EPGProgramDB" where
  "progS = \<lparr>channel_id = ''bbc1'', title = ''S'', description = None,
     start_time = 1704104100000, end_time = 1704106800000, category = None, icon_url = None,
     id_p = ''s'', epg_source_id = ''s1'', created_at_p = 1704100000000\<rparr>"

text \<open>A programme of a channel whose id is a property name every object inherits.\<close>

definition progC :: "int EPGProgramDB" where
  "progC = \<lparr>channel_id = ''constructor'', title = ''C'', description = None,
     start_time = 1704103200000, end_time = 1704106800000, category = None, icon_url = None,
     id_p = ''c'', epg_source_id = ''s1'', created_at_p = 1704100000000\<rparr>"

definition chan_plain :: Channel where
  "chan_plain = \<lparr>name = ''Local'', url = ''http://tv.example/local'', logo = None,
     group_c = None, tvg_id = None\<rparr>"

definition chan_empty :: Channel where
  "chan_empty = \<lparr>name = ''Blank'', url = ''http://tv.example/blank'', logo = None,
     group_c = Some ''News'', tvg_id = Some []\<rparr>"

definition chan_bbc1 :: Channel where
  "chan_bbc1 = \<lparr>name = ''BBC One'', url = ''http://tv.example/bbc1'', logo = None,
     group_c = Some ''UK'', tvg_id = Some ''bbc1''\<rparr>"

definition epgData0 :: "string \<rightharpoonup> NowNext" where
  "epgData0 = [''bbc1'' \<mapsto> \<lparr>now_prog = Some progA, next_prog = Some progB\<rparr>,
               [] \<mapsto> \<lparr>now_prog = Some progL, next_prog = None\<rparr>]"

text \<open>Two programme elements of a guide feed: one whose timestamps cannot be read, one
  that is well formed.\<close>

definition prog_bad :: programme where
  "prog_bad = \<lparr>attr_channel = Some ''bbc1'', attr_start = Some ''tomorrow'',
     attr_stop = Some ''20240101xx0000 +0000'', el_title = Some (XStr ''News''),
     el_desc = None, el_category = None, icon_src = None\<rparr>"

definition prog_ok :: programme where
  "prog_ok = \<lparr>attr_channel = Some ''bbc1'', attr_start = Some ''20240101100000 +0000'',
     attr_stop = Some ''20240101110000 +0000'', el_title = Some (XObj (Some ''A'')),
     el_desc = None, el_category = Some (XArr [XStr ''c'']), icon_src = None\<rparr>"

text \<open>A header naming both guide attributes, and the playlist of scenario B: two complete
  entries and a metadata line with no URL after it.\<close>

definition header_x :: string where
  \<open>header_x = ''#EXTM3U x-tvg-url="http://b.example/x.xml" url-tvg="http://a.example/u.xml"''\<close>

definition extinfAlpha :: string where
  \<open>extinfAlpha = ''#EXTINF:-1 tvg-id="a",Alpha''\<close>

definition feedB :: string where
  \<open>feedB = unlines [''#EXTM3U'', extinfAlpha, ''http://tv.example/a'',
     ''#EXTINF:-1,Lonely'', ''#EXTINF:-1,Beta'', ''http://tv.example/b'']\<close>

text \<open>
  A database holding the source \<open>s1\<close> of playlist \<open>p1\<close>, last fetched at 00:00 on
  2024-01-01, with the stored programme A of that source and a programme of another
  source; the world of a call at 01:30 whose feed parses to two programmes, one with an
  empty description; and the world of a call whose fetch fails.
\<close>

definition url0 :: string where
  "url0 = ''http://epg.example/g.xml''"

definition progOther :: "int EPGProgramDB" where
  "progOther = \<lparr>channel_id = ''itv'', title = ''O'', description = None,
     start_time = 1704103200000, end_time = 1704106800000, category = None, icon_url = None,
     id_p = ''o'', epg_source_id = ''s2'', created_at_p = 1704100000000\<rparr>"

definition db0 :: db where
  "db0 = \<lparr>epg_sources = [source0], epg_programs = [progA, progOther], trace = []\<rparr>"

definition parsedX :: "(int option) EPGProgram" where
  "parsedX = \<lparr>channel_id = ''bbc1'', title = ''X'', description = Some [],
     start_time = Some 1704074400000, end_time = Some 1704078000000, category = Some ''News'',
     icon_url = None\<rparr>"

definition parsedY :: "(int option) EPGProgram" where
  "parsedY = \<lparr>channel_id = ''bbc1'', title = ''Y'', description = Some ''Late film'',
     start_time = Some 1704078000000, end_time = Some 1704081600000, category = None,
     icon_url = None\<rparr>"

text \<open>A stand-in for \<open>String(error)\<close> on the concrete calls.\<close>

definition d1_text :: "error \<Rightarrow> string" where
  "d1_text err = (case err of NotNullFailed col \<Rightarrow> ''NOT NULL constraint failed: '' @ col)"

definition env_ok :: env where
  "env_ok = \<lparr>t_source = 1704072600000, t_check = 1704072600001, t_prune = 1704072600900,
     t_insert = 1704072600950, t_stamp = 1704072601000, t_return = 1704072601001,
     source_uuid = ''u-src'', program_uuid = (\<lambda>k. ''u-'' @ show_nat k),
     feed = (\<lambda>u. \<lparr>programs = [parsedX, parsedY], errors_x = []\<rparr>),
     thrown_text = d1_text\<rparr>"

definition env_bad :: env where
  "env_bad = \<lparr>t_source = 1704072600000, t_check = 1704072600001, t_prune = 1704072600900,
     t_insert = 1704072600950, t_stamp = 1704072601000, t_return = 1704072601001,
     source_uuid = ''u-src'', program_uuid = (\<lambda>k. ''u-'' @ show_nat k),
     feed = (\<lambda>u. \<lparr>programs = [],
                    errors_x = [''Failed to fetch XMLTV: 503 Service Unavailable'']\<rparr>),
     thrown_text = d1_text\<rparr>"

definition env_again :: env where
  "env_again = \<lparr>t_source = 1704074400000, t_check = 1704074400001, t_prune = 1704074400900,
     t_insert = 1704074400950, t_stamp = 1704074401000, t_return = 1704074401001,
     source_uuid = ''u-src2'', program_uuid = (\<lambda>k. ''v-'' @ show_nat k),
     feed = (\<lambda>u. \<lparr>programs = [parsedX, parsedY], errors_x = []\<rparr>),
     thrown_text = d1_text\<rparr>"

text \<open>
  The world of a call at 01:30 whose feed holds the element with the unreadable
  timestamps: the parser hands over one programme, with \<open>NaN\<close> as both times, and no
  error.
\<close>

definition env_nan :: env where
  "env_nan = \<lparr>t_source = 1704072600000, t_check = 1704072600001, t_prune = 1704072600900,
     t_insert = 1704072600950, t_stamp = 1704072601000, t_return = 1704072601001,
     source_uuid = ''u-src'', program_uuid = (\<lambda>k. ''u-'' @ show_nat k),
     feed = (\<lambda>u. parseXMLTV 1704072600500 (Tv [prog_bad])),
     thrown_text = d1_text\<rparr>"





section \<open>Staleness: the one-hour window\<close>

text \<open>
  C3. A guide source is stale exactly when its \<open>last_fetched\<close> is absent or more than one
  hour older than now; a source fetched 30 minutes ago is not stale, one fetched 90 minutes
  ago is stale, one never fetched is stale. The clock is assumed to read a time later than
  one hour after the epoch: only there does the test \<open>!source.last_fetched\<close>, which also
  holds for the number 0, agree with "absent or older than one hour".
\<close>

theorem shouldRefreshEPG_stale_iff:
  assumes "60 * 60 * 1000 < now"
  shows "(shouldRefreshEPG now s \<longleftrightarrow>
           (last_fetched s = None \<or> (\<exists>t. last_fetched s = Some t \<and> t < now - 60 * 60 * 1000)))
       \<and> \<not> shouldRefreshEPG now (s\<lparr>last_fetched := Some (now - 30 * 60 * 1000)\<rparr>)
       \<and> shouldRefreshEPG now (s\<lparr>last_fetched := Some (now - 90 * 60 * 1000)\<rparr>)
       \<and> shouldRefreshEPG now (s\<lparr>last_fetched := None\<rparr>)"
  using assms by (auto simp: shouldRefreshEPG_def falsy_num_def split: option.splits)

theorem shouldRefreshEPG_stale_iff_witness:
  "60 * 60 * 1000 < (1704069000000::int)
   \<and> \<not> shouldRefreshEPG 1704069000000 source0
   \<and> shouldRefreshEPG 1704072600000 source0
   \<and> \<not> shouldRefreshEPG 1704069000000 (source0\<lparr>last_fetched := Some (1704069000000 - 30 * 60 * 1000)\<rparr>)
   \<and> shouldRefreshEPG 1704069000000 (source0\<lparr>last_fetched := Some (1704069000000 - 90 * 60 * 1000)\<rparr>)
   \<and> shouldRefreshEPG 1704069000000 (source0\<lparr>last_fetched := None\<rparr>)"
  using shouldRefreshEPG_stale_iff [of 1704069000000 source0]
        shouldRefreshEPG_stale_iff [of 1704072600000 source0]
  by (simp add: source0_def)

section \<open>Enrichment merge: channels without a guide id\<close>

text \<open>
  C9. The merge produces one output record per channel, in order; no field of a channel
  other than \<open>epg\<close> is changed (cutting \<open>epg\<close> off the output gives the input list back);
  and a channel whose \<open>tvg_id\<close> is absent or empty has no \<open>epg\<close>, whatever the map holds.
\<close>

theorem channelsWithEPG_merge:
  "length (channelsWithEPG chs epgData) = length chs
   \<and> map Channel.truncate (channelsWithEPG chs epgData) = chs
   \<and> (\<forall>i < length chs.
         tvg_id (chs ! i) = None \<or> tvg_id (chs ! i) = Some []
         \<longrightarrow> epg (channelsWithEPG chs epgData ! i) = None)"
proof (intro conjI allI impI)
  show "length (channelsWithEPG chs epgData) = length chs"
    by (simp add: channelsWithEPG_def)
  show "map Channel.truncate (channelsWithEPG chs epgData) = chs"
    by (induction chs) (simp_all add: channelsWithEPG_def Channel.truncate_def)
  fix i
  assume "i < length chs"
    and "tvg_id (chs ! i) = None \<or> tvg_id (chs ! i) = Some []"
  then show "epg (channelsWithEPG chs epgData ! i) = None"
    by (auto simp: channelsWithEPG_def truthy_str_def)
qed

theorem channelsWithEPG_merge_witness:
  "map epg (channelsWithEPG [chan_plain, chan_empty, chan_bbc1] epgData0) =
     [None, None, Some \<lparr>now_prog = Some progA, next_prog = Some progB\<rparr>]
   \<and> map Channel.truncate (channelsWithEPG [chan_plain, chan_empty, chan_bbc1] epgData0) =
     [chan_plain, chan_empty, chan_bbc1]
   \<and> epgData0 [] \<noteq> None"
proof -
  let ?out = "channelsWithEPG [chan_plain, chan_empty, chan_bbc1] epgData0"
  note m = channelsWithEPG_merge [of "[chan_plain, chan_empty, chan_bbc1]" epgData0]
  have len: "length ?out = 3" using m by simp
  have e0: "epg (?out ! 0) = None" using m by (simp add: chan_plain_def)
  have e1: "epg (?out ! 1) = None" using m by (simp add: chan_empty_def)
  have e2: "epg (?out ! 2) = Some \<lparr>now_prog = Some progA, next_prog = Some progB\<rparr>"
    by (simp add: channelsWithEPG_def chan_bbc1_def truthy_str_def epgData0_def)
  have "map epg ?out = [epg (?out ! 0), epg (?out ! 1), epg (?out ! 2)]"
    using len by (simp add: channelsWithEPG_def)
  then show ?thesis using e0 e1 e2 m by (simp add: epgData0_def)
qed

section \<open>The now/next matcher: what the scan returns\<close>

lemma nowNextLoop_snoc:
  "nowNextLoop now (rows @ [p]) h = nowNextStep now (nowNextLoop now rows h) p"
  by (induction rows arbitrary: h) auto

lemma inherited_target:
  "inherited h k = Some t \<Longrightarrow> (t = ObjectPrototype) = (k = ''__proto__'') \<and> (\<forall>c. t \<noteq> Entry c)"
  by (auto simp: inherited_def split: if_splits)

lemma props_simps [simp]:
  "object_prototype (set_props t v h) = (if t = ObjectPrototype then v else object_prototype h)"
  "result_props (set_props t v h) = (case t of Entry k \<Rightarrow> (result_props h)(k \<mapsto> v) | _ \<Rightarrow> result_props h)"
  by (cases t; simp)+

lemma step_proto:
  assumes "channel_id p \<noteq> ''__proto__''"
  shows "object_prototype (nowNextStep now h p) = object_prototype h"
proof (cases "lookup h (channel_id p)")
  case None
  then show ?thesis
    by (simp add: nowNextStep_def lookup_def write_now_def write_next_def Let_def)
next
  case (Some t)
  then have "t \<noteq> ObjectPrototype"
    using assms inherited_target [of h "channel_id p" t]
    by (auto simp: lookup_def split: option.splits)
  then show ?thesis using Some
    by (simp add: nowNextStep_def write_now_def write_next_def Let_def)
qed

lemma step_other:
  assumes "channel_id p \<noteq> c"
  shows "result_props (nowNextStep now h p) c = result_props h c"
proof (cases "lookup h (channel_id p)")
  case None
  then show ?thesis using assms
    by (simp add: nowNextStep_def lookup_def write_now_def write_next_def Let_def)
next
  case (Some t)
  then have "t = Entry (channel_id p) \<or> (\<forall>k. t \<noteq> Entry k)"
    using inherited_target [of h "channel_id p" t]
    by (auto simp: lookup_def split: option.splits)
  then show ?thesis using Some assms
    by (auto simp add: nowNextStep_def write_now_def write_next_def Let_def split: target.splits)
qed


lemma inherited_result_props [simp]:
  "inherited (h\<lparr>result_props := m\<rparr>) k = inherited h k"
  by (auto simp: inherited_def)

lemma step_same:
  assumes inh: "inherited h (channel_id p) = None"
      and nx: "next_prog (object_prototype h) = None"
  shows "result_props (nowNextStep now h p) (channel_id p) =
     (let entry = (case result_props h (channel_id p) of None \<Rightarrow> empty_obj | Some e \<Rightarrow> e)
      in if airing now p then Some (entry\<lparr>now_prog := Some p\<rparr>)
         else if upcoming now p \<and> next_prog entry = None then Some (entry\<lparr>next_prog := Some p\<rparr>)
         else Some entry)"
proof (cases "result_props h (channel_id p)")
  case None
  then show ?thesis using inh nx
    by (simp add: nowNextStep_def lookup_def write_now_def write_next_def has_next_def Let_def
          airing_def upcoming_def empty_obj_def)
next
  case (Some e)
  then show ?thesis using inh nx
    by (simp add: nowNextStep_def lookup_def write_now_def write_next_def has_next_def Let_def
          airing_def upcoming_def)
qed

lemma step_proto_mono:
  "now_prog (object_prototype h) \<noteq> None \<Longrightarrow> now_prog (object_prototype (nowNextStep now h p)) \<noteq> None"
  "next_prog (object_prototype h) \<noteq> None \<Longrightarrow> next_prog (object_prototype (nowNextStep now h p)) \<noteq> None"
  by (simp_all add: nowNextStep_def write_now_def write_next_def Let_def)

lemma inherited_mono:
  assumes "inherited h c \<noteq> None"
  shows "inherited (nowNextStep now h p) c \<noteq> None"
  using assms step_proto_mono [of h now p]
  by (auto simp: inherited_def split: if_splits)

lemma step_inherited:
  assumes inh: "inherited h c \<noteq> None" and own: "result_props h c = None"
  shows "result_props (nowNextStep now h p) c = None"
proof (cases "channel_id p = c")
  case False
  then show ?thesis using own by (simp add: step_other)
next
  case True
  from inh obtain t where t: "inherited h c = Some t" by auto
  then have l: "lookup h (channel_id p) = Some t" using own True by (simp add: lookup_def)
  have "\<forall>k. t \<noteq> Entry k" using inherited_target [OF t] by simp
  then show ?thesis using l own True
    by (auto simp add: nowNextStep_def write_now_def write_next_def Let_def split: target.splits)
qed

lemma loop_inherited:
  assumes "inherited h c \<noteq> None" and "result_props h c = None"
  shows "result_props (nowNextLoop now rows h) c = None \<and> inherited (nowNextLoop now rows h) c \<noteq> None"
proof (induction rows rule: rev_induct)
  case Nil
  show ?case using assms by simp
next
  case (snoc p rows)
  then show ?case by (simp add: nowNextLoop_snoc step_inherited inherited_mono)
qed

lemma loop_proto:
  assumes "\<forall>p\<in>set rows. channel_id p \<noteq> ''__proto__''"
  shows "object_prototype (nowNextLoop now rows h) = object_prototype h"
  using assms
proof (induction rows rule: rev_induct)
  case Nil
  show ?case by simp
next
  case (snoc p rows)
  then show ?case by (simp add: nowNextLoop_snoc step_proto)
qed

lemma first_opt_append: "first_opt (xs @ ys) = (case first_opt xs of None \<Rightarrow> first_opt ys | Some x \<Rightarrow> Some x)"
  by (cases xs) (auto simp: first_opt_def)

lemma scanned_snoc_other:
  "channel_id p \<noteq> c \<Longrightarrow> scanned now (rows @ [p]) c = scanned now rows c"
  by (simp add: scanned_def)

lemma scanned_snoc_same:
  "scanned now (rows @ [p]) (channel_id p) =
     (let entry = (case scanned now rows (channel_id p) of None \<Rightarrow> empty_obj | Some e \<Rightarrow> e)
      in if airing now p then Some (entry\<lparr>now_prog := Some p\<rparr>)
         else if upcoming now p \<and> next_prog entry = None then Some (entry\<lparr>next_prog := Some p\<rparr>)
         else Some entry)"
proof -
  define run where "run = filter (\<lambda>q. channel_id q = channel_id p) rows"
  have 1: "scanned now rows (channel_id p) =
        (if run = [] then None
         else Some \<lparr>now_prog = last_opt (filter (airing now) run),
                    next_prog = first_opt (filter (upcoming now) run)\<rparr>)"
    by (simp add: scanned_def run_def)
  have 2: "scanned now (rows @ [p]) (channel_id p) =
        Some \<lparr>now_prog = last_opt (filter (airing now) (run @ [p])),
               next_prog = first_opt (filter (upcoming now) (run @ [p]))\<rparr>"
    by (simp add: scanned_def run_def)
  show ?thesis unfolding 1 2
    by (cases "run = []")
       (auto simp: Let_def empty_obj_def last_opt_def first_opt_append first_opt_def airing_def
          upcoming_def split: option.splits list.splits)
qed

lemma inherited_cong:
  "object_prototype h = object_prototype h' \<Longrightarrow> inherited h k = inherited h' k"
  by (auto simp: inherited_def)

lemma loop_scanned:
  assumes nx: "next_prog (object_prototype h) = None"
      and np: "\<forall>p\<in>set rows. channel_id p \<noteq> ''__proto__''"
      and inh: "inherited h c = None"
      and start: "result_props h c = None"
  shows "result_props (nowNextLoop now rows h) c = scanned now rows c"
  using np
proof (induction rows rule: rev_induct)
  case Nil
  show ?case using start by (simp add: scanned_def)
next
  case (snoc p rows)
  let ?h = "nowNextLoop now rows h"
  have ih: "result_props ?h c = scanned now rows c" using snoc by simp
  have op: "object_prototype ?h = object_prototype h"
    using snoc.prems by (intro loop_proto) simp
  show ?case
  proof (cases "channel_id p = c")
    case False
    then show ?thesis using ih
      by (simp add: nowNextLoop_snoc step_other scanned_snoc_other)
  next
    case True
    have i: "inherited ?h (channel_id p) = None"
      using inh True inherited_cong [OF op] by simp
    have n: "next_prog (object_prototype ?h) = None" using nx op by simp
    have "result_props (nowNextLoop now (rows @ [p]) h) (channel_id p) =
            scanned now (rows @ [p]) (channel_id p)"
      unfolding nowNextLoop_snoc step_same [OF i n] scanned_snoc_same
      using ih True by simp
    then show ?thesis using True by simp
  qed
qed

lemma answer_set:
  assumes "selectNowNext tbl sid ids now rows"
  shows "set rows = {p \<in> set tbl. epg_source_id p = sid \<and> channel_id p \<in> set ids \<and> end_time p > now}"
proof -
  have "mset rows = mset (filter (\<lambda>p. epg_source_id p = sid \<and> channel_id p \<in> set ids \<and> end_time p > now) tbl)"
    using assms by (simp add: selectNowNext_def)
  then have "set rows = set (filter (\<lambda>p. epg_source_id p = sid \<and> channel_id p \<in> set ids \<and> end_time p > now) tbl)"
    by (rule mset_eq_setD)
  then show ?thesis by simp
qed

lemma set_run:
  assumes "selectNowNext tbl sid ids now rows"
  shows "set (filter (\<lambda>p. channel_id p = c) rows) = qualifying tbl sid ids now c"
  unfolding set_filter answer_set [OF assms] qualifying_def by blast


lemma sorted_run:
  assumes "selectNowNext tbl sid ids now rows"
  shows "sorted_wrt (\<lambda>a b. start_time a \<le> start_time b) (filter (\<lambda>p. channel_id p = c) rows)"
proof -
  have "sorted (map (\<lambda>p. (channel_id p, start_time p)) rows)"
    using assms by (simp add: selectNowNext_def)
  then have "sorted_wrt (\<lambda>a b. (channel_id a, start_time a) \<le> (channel_id b, start_time b)) rows"
    by (simp only: sorted_map)
  then have "sorted_wrt (\<lambda>a b. (channel_id a, start_time a) \<le> (channel_id b, start_time b))
               (filter (\<lambda>p. channel_id p = c) rows)"
    by (rule sorted_wrt_filter)
  then show ?thesis
  proof (rule sorted_wrt_mono_rel [rotated])
    fix a b :: "int EPGProgramDB"
    assume "a \<in> set (filter (\<lambda>p. channel_id p = c) rows)" "b \<in> set (filter (\<lambda>p. channel_id p = c) rows)"
      and "(channel_id a, start_time a) \<le> (channel_id b, start_time b)"
    then show "start_time a \<le> start_time b" by (simp add: less_eq_prod_def)
  qed
qed

lemma sorted_wrt_last:
  "sorted_wrt R xs \<Longrightarrow> x \<in> set xs \<Longrightarrow> x = last xs \<or> R x (last xs)"
  by (induction xs) (auto)

lemma last_opt_max:
  assumes "sorted_wrt (\<lambda>a b. start_time a \<le> start_time b) run"
      and "last_opt (filter P run) = Some p"
  shows "p \<in> set run \<and> P p \<and> (\<forall>q\<in>set run. P q \<longrightarrow> start_time q \<le> start_time (p :: int EPGProgramDB))"
proof -
  let ?xs = "filter P run"
  from assms(2) have ne: "?xs \<noteq> []" and p: "p = last ?xs"
    by (simp_all add: last_opt_def split: if_splits)
  have "p \<in> set ?xs" unfolding p using ne by (rule last_in_set)
  moreover have "sorted_wrt (\<lambda>a b. start_time a \<le> start_time b) ?xs"
    using assms(1) by (rule sorted_wrt_filter)
  then have "\<forall>q\<in>set ?xs. start_time q \<le> start_time p"
    using sorted_wrt_last [of _ ?xs] p by fastforce
  ultimately show ?thesis by auto
qed

lemma first_opt_min:
  assumes "sorted_wrt (\<lambda>a b. start_time a \<le> start_time b) run"
      and "first_opt (filter P run) = Some p"
  shows "p \<in> set run \<and> P p \<and> (\<forall>q\<in>set run. P q \<longrightarrow> start_time (p :: int EPGProgramDB) \<le> start_time q)"
proof -
  let ?xs = "filter P run"
  from assms(2) obtain ys where xs: "?xs = p # ys"
    by (auto simp: first_opt_def split: list.splits)
  then have "p \<in> set ?xs" by simp
  moreover have "sorted_wrt (\<lambda>a b. start_time a \<le> start_time b) ?xs"
    using assms(1) by (rule sorted_wrt_filter)
  then have "\<forall>q\<in>set ?xs. start_time p \<le> start_time q"
    unfolding xs by auto
  ultimately show ?thesis by auto
qed

lemma last_opt_None: "last_opt (filter P xs) = None \<longleftrightarrow> (\<forall>q\<in>set xs. \<not> P q)"
  by (auto simp: last_opt_def filter_empty_conv)

lemma first_opt_None: "first_opt (filter P xs) = None \<longleftrightarrow> (\<forall>q\<in>set xs. \<not> P q)"
proof -
  have "first_opt (filter P xs) = None \<longleftrightarrow> filter P xs = []"
    by (cases "filter P xs") (simp_all add: first_opt_def)
  then show ?thesis by (simp add: filter_empty_conv)
qed


lemma last_opt_Cons: "last_opt (x # xs) = Some (case last_opt xs of None \<Rightarrow> x | Some y \<Rightarrow> y)"
  by (simp add: last_opt_def)

lemma getNowNextLoop_scan:
  "sorted (map start_time ps) \<Longrightarrow>
   getNowNextLoop now ps (n, None) =
     (case last_opt (filter (airing now) ps) of None \<Rightarrow> n | Some p \<Rightarrow> Some p,
      first_opt (filter (upcoming now) ps))"
proof (induction ps arbitrary: n)
  case Nil
  show ?case by (simp add: last_opt_def first_opt_def)
next
  case (Cons p ps)
  then have srt: "sorted (map start_time ps)" and le: "\<forall>q\<in>set ps. start_time p \<le> start_time q"
    by simp_all
  show ?case
  proof (cases "airing now p")
    case True
    then show ?thesis using Cons.IH [OF srt, of "Some p"]
      by (simp add: airing_def upcoming_def last_opt_Cons split: option.splits)
  next
    case False
    show ?thesis
    proof (cases "upcoming now p")
      case True
      then have "\<forall>q\<in>set ps. \<not> airing now q" using le by (auto simp: airing_def upcoming_def)
      then have e: "filter (airing now) ps = []" by (simp add: filter_empty_conv)
      have c: "\<not> (start_time p \<le> now \<and> end_time p > now)" "start_time p > now"
        using True False by (auto simp: airing_def upcoming_def)
      show ?thesis using True False
        by (simp add: c e last_opt_def first_opt_def)
    next
      case notup: False
      then show ?thesis using False Cons.IH [OF srt, of n]
        by (simp add: airing_def upcoming_def)
    qed
  qed
qed

lemma getNowNext_scan:
  "getNowNext progs c now =
     (last_opt (filter (airing now) (channelPrograms progs c)),
      first_opt (filter (upcoming now) (channelPrograms progs c)))"
proof -
  have "sorted (map start_time (channelPrograms progs c))"
    by (simp add: channelPrograms_def)
  then show ?thesis
    unfolding getNowNext_def by (simp add: getNowNextLoop_scan split: option.splits)
qed

text \<open>
  C4, as the code has it. A channel id that \<open>result\<close> inherits as a property name when
  the call starts (\<open>__proto__\<close>, \<open>constructor\<close>, \<open>toString\<close> and the like) never becomes an
  entry of the output, whatever rows are stored for it. For every other channel \<open>c\<close>,
  every table, source, list of requested channels without \<open>__proto__\<close>, time \<open>now\<close> and
  answer \<open>rows\<close> of the database to the query, when \<open>Object.prototype\<close> has no property
  \<open>next\<close> at the call: \<open>Object.prototype\<close> is left as it was; the entry of \<open>c\<close> is what the
  scan of the answer gives, that is, \<open>now\<close> is the last row of the channel's run
  (ascending \<open>start_time\<close>, restricted to \<open>end_time > now\<close>) with
  \<open>start_time \<le> now < end_time\<close> and \<open>next\<close> the first row with \<open>start_time > now\<close>; the
  channel is absent from the output exactly when it has no qualifying programme; \<open>now\<close>
  has the greatest start among the qualifying programmes airing at \<open>now\<close> and \<open>next\<close> the
  least start among those starting after \<open>now\<close>. The matcher of the parser module answers
  the same way on the channel's programmes sorted by \<open>start_time\<close>.
\<close>

theorem getNowNextPrograms_resolves:
  fixes tbl rows :: "int EPGProgramDB list" and sid :: string and ids :: "string list"
    and now :: int and c :: string and h :: heap
    and progs :: "(int, 'a) EPGProgram_scheme list"
  defines "H \<equiv> getNowNextPrograms rows ids now h"
      and "R \<equiv> result_props (getNowNextPrograms rows ids now h) c"
      and "run \<equiv> filter (\<lambda>p. channel_id p = c) rows"
      and "Q \<equiv> qualifying tbl sid ids now c"
  shows "(inherited h c \<noteq> None \<longrightarrow> R = None)
       \<and> (selectNowNext tbl sid ids now rows \<and> ''__proto__'' \<notin> set ids
            \<and> next_prog (object_prototype h) = None \<and> inherited h c = None \<longrightarrow>
            object_prototype H = object_prototype h
          \<and> R = (if run = [] then None
                 else Some \<lparr>now_prog = last_opt (filter (airing now) run),
                            next_prog = first_opt (filter (upcoming now) run)\<rparr>)
          \<and> (R = None \<longleftrightarrow> Q = {})
          \<and> (\<forall>e. R = Some e \<longrightarrow>
               (case now_prog e of
                  None \<Rightarrow> \<forall>q\<in>Q. \<not> airing now q
                | Some p \<Rightarrow> p \<in> Q \<and> airing now p \<and> (\<forall>q\<in>Q. airing now q \<longrightarrow> start_time q \<le> start_time p)) \<and>
               (case next_prog e of
                  None \<Rightarrow> \<forall>q\<in>Q. \<not> upcoming now q
                | Some p \<Rightarrow> p \<in> Q \<and> upcoming now p \<and> (\<forall>q\<in>Q. upcoming now q \<longrightarrow> start_time p \<le> start_time q))))
       \<and> getNowNext progs c now =
           (last_opt (filter (airing now) (channelPrograms progs c)),
            first_opt (filter (upcoming now) (channelPrograms progs c)))"
proof -
  have first: "R = None" if "inherited h c \<noteq> None"
    using that loop_inherited [of "h\<lparr>result_props := Map.empty\<rparr>" c now rows]
    by (simp add: R_def getNowNextPrograms_def)
  have second: "object_prototype H = object_prototype h
          \<and> R = (if run = [] then None
                 else Some \<lparr>now_prog = last_opt (filter (airing now) run),
                            next_prog = first_opt (filter (upcoming now) run)\<rparr>)
          \<and> (R = None \<longleftrightarrow> Q = {})
          \<and> (\<forall>e. R = Some e \<longrightarrow>
               (case now_prog e of
                  None \<Rightarrow> \<forall>q\<in>Q. \<not> airing now q
                | Some p \<Rightarrow> p \<in> Q \<and> airing now p \<and> (\<forall>q\<in>Q. airing now q \<longrightarrow> start_time q \<le> start_time p)) \<and>
               (case next_prog e of
                  None \<Rightarrow> \<forall>q\<in>Q. \<not> upcoming now q
                | Some p \<Rightarrow> p \<in> Q \<and> upcoming now p \<and> (\<forall>q\<in>Q. upcoming now q \<longrightarrow> start_time p \<le> start_time q)))"
    if hyp: "selectNowNext tbl sid ids now rows \<and> ''__proto__'' \<notin> set ids
            \<and> next_prog (object_prototype h) = None \<and> inherited h c = None"
  proof -
    from hyp have ans: "selectNowNext tbl sid ids now rows" by simp
    have np: "\<forall>p\<in>set rows. channel_id p \<noteq> ''__proto__''"
      using answer_set [OF ans] hyp by auto
    have e: "ids = [] \<Longrightarrow> rows = []"
      using answer_set [OF ans] by auto
    have opH: "object_prototype H = object_prototype h"
      using loop_proto [OF np, of now "h\<lparr>result_props := Map.empty\<rparr>"]
      by (simp add: H_def getNowNextPrograms_def)
    have ls: "result_props (nowNextLoop now rows (h\<lparr>result_props := Map.empty\<rparr>)) c =
                scanned now rows c"
      using hyp by (intro loop_scanned np) simp_all
    have "R = scanned now rows c"
    proof (cases "ids = []")
      case True
      then show ?thesis using e by (simp add: R_def getNowNextPrograms_def scanned_def)
    next
      case False
      then show ?thesis using ls by (simp add: R_def getNowNextPrograms_def)
    qed
    then have Rrun: "R = (if run = [] then None
         else Some \<lparr>now_prog = last_opt (filter (airing now) run),
                    next_prog = first_opt (filter (upcoming now) run)\<rparr>)"
      by (simp add: scanned_def run_def)
    have Q: "set run = Q" unfolding run_def Q_def using ans by (rule set_run)
    have srt: "sorted_wrt (\<lambda>a b. start_time a \<le> start_time b) run"
      unfolding run_def using ans by (rule sorted_run)
    have absent: "R = None \<longleftrightarrow> Q = {}"
      using Q by (auto simp: Rrun)
    have opt: "(case now_prog e of
               None \<Rightarrow> \<forall>q\<in>Q. \<not> airing now q
             | Some p \<Rightarrow> p \<in> Q \<and> airing now p \<and> (\<forall>q\<in>Q. airing now q \<longrightarrow> start_time q \<le> start_time p)) \<and>
            (case next_prog e of
               None \<Rightarrow> \<forall>q\<in>Q. \<not> upcoming now q
             | Some p \<Rightarrow> p \<in> Q \<and> upcoming now p \<and> (\<forall>q\<in>Q. upcoming now q \<longrightarrow> start_time p \<le> start_time q))"
      if "R = Some e" for e
    proof -
      from that have n: "now_prog e = last_opt (filter (airing now) run)"
        and x: "next_prog e = first_opt (filter (upcoming now) run)"
        by (auto simp: Rrun split: if_splits)
      have 1: "(case now_prog e of
               None \<Rightarrow> \<forall>q\<in>Q. \<not> airing now q
             | Some p \<Rightarrow> p \<in> Q \<and> airing now p \<and> (\<forall>q\<in>Q. airing now q \<longrightarrow> start_time q \<le> start_time p))"
        using last_opt_max [OF srt, of "airing now"] last_opt_None [of "airing now" run]
        unfolding n Q by (cases "last_opt (filter (airing now) run)") auto
      have 2: "(case next_prog e of
               None \<Rightarrow> \<forall>q\<in>Q. \<not> upcoming now q
             | Some p \<Rightarrow> p \<in> Q \<and> upcoming now p \<and> (\<forall>q\<in>Q. upcoming now q \<longrightarrow> start_time p \<le> start_time q))"
        using first_opt_min [OF srt, of "upcoming now"] first_opt_None [of "upcoming now" run]
        unfolding x Q by (cases "first_opt (filter (upcoming now) run)") auto
      show ?thesis using 1 2 by (rule conjI)
    qed
    show ?thesis
    proof (intro conjI allI impI)
      show "object_prototype H = object_prototype h" by (rule opH)
      show "R = (if run = [] then None
                 else Some \<lparr>now_prog = last_opt (filter (airing now) run),
                            next_prog = first_opt (filter (upcoming now) run)\<rparr>)"
        by (rule Rrun)
      show "(R = None) = (Q = {})" by (rule absent)
    next
      fix e assume "R = Some e"
      then show "case now_prog e of
               None \<Rightarrow> \<forall>q\<in>Q. \<not> airing now q
             | Some p \<Rightarrow> p \<in> Q \<and> airing now p \<and> (\<forall>q\<in>Q. airing now q \<longrightarrow> start_time q \<le> start_time p)"
        using opt by simp
    next
      fix e assume "R = Some e"
      then show "case next_prog e of
               None \<Rightarrow> \<forall>q\<in>Q. \<not> upcoming now q
             | Some p \<Rightarrow> p \<in> Q \<and> upcoming now p \<and> (\<forall>q\<in>Q. upcoming now q \<longrightarrow> start_time p \<le> start_time q)"
        using opt by simp
    qed
  qed
  show ?thesis
  proof (intro conjI)
    show "inherited h c \<noteq> None \<longrightarrow> R = None" using first by (rule impI)
    show "getNowNext progs c now =
           (last_opt (filter (airing now) (channelPrograms progs c)),
            first_opt (filter (upcoming now) (channelPrograms progs c)))"
      by (rule getNowNext_scan)
  next
    show "selectNowNext tbl sid ids now rows \<and> ''__proto__'' \<notin> set ids
            \<and> next_prog (object_prototype h) = None \<and> inherited h c = None \<longrightarrow>
            object_prototype H = object_prototype h
          \<and> R = (if run = [] then None
                 else Some \<lparr>now_prog = last_opt (filter (airing now) run),
                            next_prog = first_opt (filter (upcoming now) run)\<rparr>)
          \<and> (R = None \<longleftrightarrow> Q = {})
          \<and> (\<forall>e. R = Some e \<longrightarrow>
               (case now_prog e of
                  None \<Rightarrow> \<forall>q\<in>Q. \<not> airing now q
                | Some p \<Rightarrow> p \<in> Q \<and> airing now p \<and> (\<forall>q\<in>Q. airing now q \<longrightarrow> start_time q \<le> start_time p)) \<and>
               (case next_prog e of
                  None \<Rightarrow> \<forall>q\<in>Q. \<not> upcoming now q
                | Some p \<Rightarrow> p \<in> Q \<and> upcoming now p \<and> (\<forall>q\<in>Q. upcoming now q \<longrightarrow> start_time p \<le> start_time q)))"
      using second by (rule impI)
  qed
qed


lemmas matcher_defs = getNowNextPrograms_def nowNextStep_def lookup_def inherited_def
  method_names_def write_now_def write_next_def has_next_def pristine_def empty_obj_def Let_def

theorem getNowNextPrograms_resolves_witness:
  "selectNowNext [progB, progA] ''s1'' [''bbc1''] 1704105000000 [progA, progB]
   \<and> ''__proto__'' \<notin> set [''bbc1'']
   \<and> next_prog (object_prototype pristine) = None
   \<and> inherited pristine ''bbc1'' = None
   \<and> result_props (getNowNextPrograms [progA, progB] [''bbc1''] 1704105000000 pristine) ''bbc1'' =
       Some \<lparr>now_prog = Some progA, next_prog = Some progB\<rparr>
   \<and> result_props (getNowNextPrograms [progA, progB] [''bbc1''] 1704105000000 pristine) ''itv'' = None
   \<and> inherited pristine ''constructor'' \<noteq> None
   \<and> result_props (getNowNextPrograms [progC] [''constructor''] 1704105000000 pristine) ''constructor'' = None
   \<and> progA \<in> qualifying [progB, progA] ''s1'' [''bbc1''] 1704105000000 ''bbc1''"
proof -
  have ans: "selectNowNext [progB, progA] ''s1'' [''bbc1''] 1704105000000 [progA, progB]"
    by (simp add: selectNowNext_def progA_def progB_def)
  have h: "''__proto__'' \<notin> set [''bbc1'']" "next_prog (object_prototype pristine) = None"
    "inherited pristine ''bbc1'' = None" "inherited pristine ''itv'' = None"
    "inherited pristine ''constructor'' \<noteq> None"
    by (simp_all add: pristine_def empty_obj_def inherited_def method_names_def)
  have q: "progA \<in> qualifying [progB, progA] ''s1'' [''bbc1''] 1704105000000 ''bbc1''"
    by (simp add: qualifying_def progA_def)
  have runA: "filter (\<lambda>p. channel_id p = ''bbc1'') [progA, progB] = [progA, progB]"
    "filter (\<lambda>p. channel_id p = ''itv'') [progA, progB] = []"
    "filter (airing 1704105000000) [progA, progB] = [progA]"
    "filter (upcoming 1704105000000) [progA, progB] = [progB]"
    by (simp_all add: progA_def progB_def airing_def upcoming_def)
  note a = getNowNextPrograms_resolves [where h = pristine and c = "''bbc1''" and rows = "[progA, progB]"
      and ids = "[''bbc1'']" and now = 1704105000000 and tbl = "[progB, progA]" and sid = "''s1''"
      and progs = "[]::int EPGProgram list"]
  note b = getNowNextPrograms_resolves [where h = pristine and c = "''itv''" and rows = "[progA, progB]"
      and ids = "[''bbc1'']" and now = 1704105000000 and tbl = "[progB, progA]" and sid = "''s1''"
      and progs = "[]::int EPGProgram list"]
  note c = getNowNextPrograms_resolves [where h = pristine and c = "''constructor''" and rows = "[progC]"
      and ids = "[''constructor'']" and now = 1704105000000 and tbl = "[progC]" and sid = "''s1''"
      and progs = "[]::int EPGProgram list"]
  have preA: "selectNowNext [progB, progA] ''s1'' [''bbc1''] 1704105000000 [progA, progB]
      \<and> ''__proto__'' \<notin> set [''bbc1''] \<and> next_prog (object_prototype pristine) = None
      \<and> inherited pristine ''bbc1'' = None"
    and preB: "selectNowNext [progB, progA] ''s1'' [''bbc1''] 1704105000000 [progA, progB]
      \<and> ''__proto__'' \<notin> set [''bbc1''] \<and> next_prog (object_prototype pristine) = None
      \<and> inherited pristine ''itv'' = None"
    using ans h by simp_all
  have 1: "result_props (getNowNextPrograms [progA, progB] [''bbc1''] 1704105000000 pristine) ''bbc1'' =
       Some \<lparr>now_prog = Some progA, next_prog = Some progB\<rparr>"
    using a [THEN conjunct2, THEN conjunct1, THEN mp, OF preA, THEN conjunct2, THEN conjunct1]
    unfolding runA by (simp add: last_opt_def first_opt_def)
  have 2: "result_props (getNowNextPrograms [progA, progB] [''bbc1''] 1704105000000 pristine) ''itv'' = None"
    using b [THEN conjunct2, THEN conjunct1, THEN mp, OF preB, THEN conjunct2, THEN conjunct1]
    unfolding runA by simp
  have 3: "result_props (getNowNextPrograms [progC] [''constructor''] 1704105000000 pristine) ''constructor'' = None"
    using c [THEN conjunct1] h by simp
  show ?thesis using ans h q 1 2 3 by simp
qed


text \<open>
  C4 as the specification words it fails where two programmes of a channel overlap: with
  L 10:00-12:00 and S 10:15-11:00 stored and \<open>now\<close> = 10:30, the only answer of the
  database is L, S; the first row of the run with \<open>start_time \<le> now < end_time\<close> is L,
  and the matcher answers S. It also fails for a channel whose id is \<open>constructor\<close>: its
  programme qualifies and airs at \<open>now\<close>, and the output has no entry for the channel.
\<close>

theorem getNowNextPrograms_first_counterexample:
  "selectNowNext [progL, progS] ''s1'' [''bbc1''] 1704105000000 [progL, progS]
   \<and> \<not> selectNowNext [progL, progS] ''s1'' [''bbc1''] 1704105000000 [progS, progL]
   \<and> find (airing 1704105000000) [progL, progS] = Some progL
   \<and> result_props (getNowNextPrograms [progL, progS] [''bbc1''] 1704105000000 pristine) ''bbc1'' =
       Some \<lparr>now_prog = Some progS, next_prog = None\<rparr>
   \<and> getNowNext [progL, progS] ''bbc1'' 1704105000000 = (Some progS, None)
   \<and> progS \<noteq> progL
   \<and> selectNowNext [progC] ''s1'' [''constructor''] 1704105000000 [progC]
   \<and> progC \<in> qualifying [progC] ''s1'' [''constructor''] 1704105000000 ''constructor''
   \<and> airing 1704105000000 progC
   \<and> result_props (getNowNextPrograms [progC] [''constructor''] 1704105000000 pristine)
         ''constructor'' = None"
  by (simp add: selectNowNext_def matcher_defs airing_def qualifying_def
        getNowNext_def channelPrograms_def progL_def progS_def progC_def)

section \<open>Guide timestamps: from wall-clock fields to a UTC instant\<close>

lemma digit_not_ws: "is_digit c \<Longrightarrow> \<not> is_ws c"
  by (auto simp: is_digit_def is_ws_def)

lemma digit_not_sign: "is_digit c \<Longrightarrow> c \<noteq> CHR ''-'' \<and> c \<noteq> CHR ''+''"
  by (auto simp: is_digit_def)

lemma parseInt_digits:
  assumes "ds \<noteq> []" "\<forall>c\<in>set ds. is_digit c"
  shows "parseInt ds = Some (dec ds)"
proof -
  obtain c r where ds: "ds = c # r" using assms(1) by (cases ds) auto
  have c: "is_digit c" using assms(2) ds by simp
  have tw: "takeWhile is_digit ds = ds" using assms(2) by (simp add: takeWhile_eq_all_conv)
  show ?thesis using digit_not_ws [OF c] digit_not_sign [OF c] tw assms(1)
    by (simp add: parseInt_def ds)
qed

lemma trim_ws:
  assumes "\<forall>c\<in>set w1. is_ws c" "\<forall>c\<in>set w2. is_ws c" "x \<noteq> []"
      and "\<not> is_ws (hd x)" "\<not> is_ws (last x)"
  shows "trim (w1 @ x @ w2) = x"
proof -
  have 1: "dropWhile is_ws (w1 @ x @ w2) = x @ w2"
    using assms(1,3,4) by (cases x) (simp_all add: dropWhile_append)
  have "rev (x @ w2) = rev w2 @ rev x" by simp
  moreover have "dropWhile is_ws (rev w2 @ rev x) = rev x"
    using assms(2,3,5) by (cases "rev x") (simp_all add: dropWhile_append hd_rev)
  ultimately show ?thesis by (simp add: trim_def 1)
qed

lemma fields_of_stamp:
  assumes "length ds = 14" "\<forall>c\<in>set ds. is_digit c"
  shows "parseInt (substring (substring (ds @ rest) 0 14) 0 4) = Some (dec (take 4 ds))"
    and "parseInt (substring (substring (ds @ rest) 0 14) 4 6) = Some (dec (take 2 (drop 4 ds)))"
    and "parseInt (substring (substring (ds @ rest) 0 14) 6 8) = Some (dec (take 2 (drop 6 ds)))"
    and "parseInt (substring (substring (ds @ rest) 0 14) 8 10) = Some (dec (take 2 (drop 8 ds)))"
    and "parseInt (substring (substring (ds @ rest) 0 14) 10 12) = Some (dec (take 2 (drop 10 ds)))"
    and "parseInt (substring (substring (ds @ rest) 0 14) 12 14) = Some (dec (take 2 (drop 12 ds)))"
proof -
  have part: "substring (ds @ rest) 0 14 = ds" using assms(1) by (simp add: substring_def)
  have dg: "\<forall>c\<in>set (take n (drop k ds)). is_digit c" for n k
    using assms(2) by (meson in_set_dropD in_set_takeD)
  have ne: "take n (drop k ds) \<noteq> []" if "0 < n" "k < 14" for n k
    using assms(1) that by simp
  show "parseInt (substring (substring (ds @ rest) 0 14) 0 4) = Some (dec (take 4 ds))"
    using parseInt_digits [OF ne [of 4 0] dg [of 4 0]] unfolding part by (simp add: substring_def)
  show "parseInt (substring (substring (ds @ rest) 0 14) 4 6) = Some (dec (take 2 (drop 4 ds)))"
    using parseInt_digits [OF ne [of 2 4] dg [of 2 4]] unfolding part by (simp add: substring_def)
  show "parseInt (substring (substring (ds @ rest) 0 14) 6 8) = Some (dec (take 2 (drop 6 ds)))"
    using parseInt_digits [OF ne [of 2 6] dg [of 2 6]] unfolding part by (simp add: substring_def)
  show "parseInt (substring (substring (ds @ rest) 0 14) 8 10) = Some (dec (take 2 (drop 8 ds)))"
    using parseInt_digits [OF ne [of 2 8] dg [of 2 8]] unfolding part by (simp add: substring_def)
  show "parseInt (substring (substring (ds @ rest) 0 14) 10 12) = Some (dec (take 2 (drop 10 ds)))"
    using parseInt_digits [OF ne [of 2 10] dg [of 2 10]] unfolding part by (simp add: substring_def)
  show "parseInt (substring (substring (ds @ rest) 0 14) 12 14) = Some (dec (take 2 (drop 12 ds)))"
    using parseInt_digits [OF ne [of 2 12] dg [of 2 12]] unfolding part by (simp add: substring_def)
qed

lemma len5: "length xs = 5 \<Longrightarrow> \<exists>p q r s t. xs = [p, q, r, s, t]"
  by (auto simp: eval_nat_numeral length_Suc_conv)

lemma tzMatch_digits:
  assumes "length ds = 14" "\<forall>c\<in>set ds. is_digit c"
  shows "tzMatch ds = None"
proof -
  have len: "length (drop 9 ds) = 5" using assms(1) by simp
  obtain p q r s t where d: "drop 9 ds = [p, q, r, s, t]"
    using len5 [OF len] by blast
  have "p \<in> set (drop 9 ds)" by (simp add: d)
  then have "is_digit p" using assms(2) by (meson in_set_dropD)
  then show ?thesis using assms(1) d digit_not_sign [of p] by (simp add: tzMatch_def)
qed

lemma tzMatch_suffix:
  assumes "sg = CHR ''+'' \<or> sg = CHR ''-''" "is_digit a" "is_digit b" "is_digit c" "is_digit d"
  shows "tzMatch (pre @ [sg, a, b, c, d]) = Some (sg, [a, b], [c, d])"
  using assms by (simp add: tzMatch_def)

lemma parse_plain:
  assumes "length ds = 14" "\<forall>c\<in>set ds. is_digit c"
      and "\<forall>c\<in>set w1. is_ws c" "\<forall>c\<in>set w2. is_ws c"
  shows "parseXMLTVDateTime (w1 @ ds @ w2) = wall_clock_utc ds"
proof -
  have ne: "ds \<noteq> []" using assms(1) by auto
  have "hd ds \<in> set ds" "last ds \<in> set ds" using ne by simp_all
  then have "\<not> is_ws (hd ds)" "\<not> is_ws (last ds)" using assms(2) digit_not_ws by blast+
  then have t: "trim (w1 @ ds @ w2) = ds" using trim_ws assms(3,4) ne by blast
  show ?thesis
    using fields_of_stamp [OF assms(1,2), of "[]"] tzMatch_digits [OF assms(1,2)]
    by (simp add: parseXMLTVDateTime_def t wall_clock_utc_def num_sub_def)
qed

lemma parse_zoned:
  assumes "length ds = 14" "\<forall>c\<in>set ds. is_digit c"
      and "\<forall>c\<in>set w1. is_ws c" "\<forall>c\<in>set w2. is_ws c"
      and "sg = CHR ''+'' \<or> sg = CHR ''-''" "is_digit a" "is_digit b" "is_digit c" "is_digit d"
  shows "parseXMLTVDateTime (w1 @ (ds @ mid @ [sg, a, b, c, d]) @ w2) =
           num_sub (wall_clock_utc ds)
             (Some ((if sg = CHR ''+'' then 1 else - 1) * (dec [a, b] * 60 + dec [c, d]) * 60 * 1000))"
proof -
  let ?x = "ds @ mid @ [sg, a, b, c, d]"
  have ne: "ds \<noteq> []" using assms(1) by auto
  then have "hd ?x = hd ds" by simp
  moreover have "hd ds \<in> set ds" using ne by simp
  ultimately have h: "\<not> is_ws (hd ?x)" using assms(2) digit_not_ws by metis
  have l: "\<not> is_ws (last ?x)" using assms(9) digit_not_ws by simp
  have t: "trim (w1 @ ?x @ w2) = ?x" using trim_ws [OF assms(3,4) _ h l] by simp
  have tz: "tzMatch ?x = Some (sg, [a, b], [c, d])"
    using tzMatch_suffix [OF assms(5-9), of "ds @ mid"] by simp
  have hh: "parseInt [a, b] = Some (dec [a, b])" using parseInt_digits [of "[a, b]"] assms(6,7) by simp
  have mm: "parseInt [c, d] = Some (dec [c, d])" using parseInt_digits [of "[c, d]"] assms(8,9) by simp
  show ?thesis
    unfolding parseXMLTVDateTime_def t Let_def tz
    by (simp add: fields_of_stamp [OF assms(1,2), of "mid @ [sg, a, b, c, d]"] hh mm
          wall_clock_utc_def num_sub_def cong: option.case_cong)
qed

lemmas date_defs = Date_UTC_def TimeClip_def MakeDate_def MakeDay_def MakeTime_def MakeFullYear_def
  DayFromYear_def InLeapYear_def DaysBeforeMonth_def msPerDay_def

lemmas stamp_defs = parseXMLTVDateTime_def trim_def is_ws_def substring_def parseInt_def
  is_digit_def tzMatch_def dec_def digit_val_def num_sub_def

text \<open>
  C5. A stamp of 14 digits, with white space around it or not, parses to the instant that
  \<open>Date.UTC\<close> gives for its six fields read by position (year, month, day, hour, minute,
  second; \<open>wall_clock_utc\<close>); when the string ends in a sign and four digits \<open>hhmm\<close>, the signed
  offset \<open>\<plusminus>(hh * 60 + mm)\<close> minutes is subtracted from that instant. So
  \<open>20240101120000 +0200\<close> is 2024-01-01T10:00:00Z and \<open>20240101120000\<close> is
  2024-01-01T12:00:00Z, that is 1704103200000 and 1704110400000 ms after the epoch.
\<close>

theorem parseXMLTVDateTime_instant:
  assumes "length ds = 14" and "\<forall>c\<in>set ds. is_digit c"
      and "\<forall>c\<in>set w1. is_ws c" and "\<forall>c\<in>set w2. is_ws c"
      and "sg = CHR ''+'' \<or> sg = CHR ''-''"
      and "is_digit a" and "is_digit b" and "is_digit c" and "is_digit d"
  shows "parseXMLTVDateTime (w1 @ ds @ w2) = wall_clock_utc ds
       \<and> parseXMLTVDateTime (w1 @ (ds @ mid @ [sg, a, b, c, d]) @ w2) =
           num_sub (wall_clock_utc ds)
             (Some ((if sg = CHR ''+'' then 1 else - 1) * (dec [a, b] * 60 + dec [c, d]) * 60 * 1000))
       \<and> parseXMLTVDateTime ''20240101120000 +0200'' = Some 1704103200000
       \<and> Date_UTC (Some 2024) (Some 0) (Some 1) (Some 10) (Some 0) (Some 0) = Some 1704103200000
       \<and> parseXMLTVDateTime ''20240101120000'' = Some 1704110400000
       \<and> Date_UTC (Some 2024) (Some 0) (Some 1) (Some 12) (Some 0) (Some 0) = Some 1704110400000"
proof -
  have 1: "parseXMLTVDateTime ''20240101120000 +0200'' = Some 1704103200000"
    by (simp add: stamp_defs date_defs)
  have 2: "Date_UTC (Some 2024) (Some 0) (Some 1) (Some 10) (Some 0) (Some 0) = Some 1704103200000"
    by (simp add: date_defs)
  have 3: "parseXMLTVDateTime ''20240101120000'' = Some 1704110400000"
    by (simp add: stamp_defs date_defs)
  have 4: "Date_UTC (Some 2024) (Some 0) (Some 1) (Some 12) (Some 0) (Some 0) = Some 1704110400000"
    by (simp add: date_defs)
  show ?thesis
    using parse_plain [OF assms(1-4)] parse_zoned [OF assms] 1 2 3 4 by simp
qed

theorem parseXMLTVDateTime_instant_witness:
  "parseXMLTVDateTime ''  20240229235959 -0530 '' =
     num_sub (wall_clock_utc ''20240229235959'') (Some (- (5 * 60 + 30) * 60 * 1000))
   \<and> wall_clock_utc ''20240229235959'' = Some 1709251199000
   \<and> parseXMLTVDateTime ''  20240229235959 -0530 '' = Some 1709270999000
   \<and> parseXMLTVDateTime ''20240229235959'' = Some 1709251199000"
proof -
  have w: "wall_clock_utc ''20240229235959'' = Some 1709251199000"
    by (simp add: wall_clock_utc_def dec_def digit_val_def date_defs)
  have "parseXMLTVDateTime (''  '' @ (''20240229235959'' @ '' '' @ [CHR ''-'', CHR ''0'', CHR ''5'', CHR ''3'', CHR ''0'']) @ '' '') =
          num_sub (wall_clock_utc ''20240229235959'')
            (Some ((if CHR ''-'' = CHR ''+'' then 1 else - 1) * (dec ''05'' * 60 + dec ''30'') * 60 * 1000))
        \<and> parseXMLTVDateTime ([] @ ''20240229235959'' @ []) = wall_clock_utc ''20240229235959''"
    using parseXMLTVDateTime_instant [of "''20240229235959''" "''  ''" "'' ''" "CHR ''-''"
        "CHR ''0''" "CHR ''5''" "CHR ''3''" "CHR ''0''" "'' ''"]
          parseXMLTVDateTime_instant [of "''20240229235959''" "[]" "[]" "CHR ''-''"
        "CHR ''0''" "CHR ''5''" "CHR ''3''" "CHR ''0''" "'' ''"]
    by (simp add: is_digit_def is_ws_def)
  then show ?thesis using w by (simp add: dec_def digit_val_def num_sub_def)
qed

section \<open>The guide parser: an element whose timestamps cannot be read\<close>

lemma parseProgrammes_errors:
  "errors_x (parseProgrammes now maxTime progs acc) = errors_x acc"
proof (induction progs arbitrary: acc)
  case Nil
  show ?case by simp
next
  case (Cons prog progs)
  have "parseProgramme now maxTime prog \<noteq> Threw msg" for msg
    by (simp add: parseProgramme_def Let_def)
  then show ?case using Cons
    by (cases "parseProgramme now maxTime prog") auto
qed

text \<open>
  C6 does not hold of the code. The loop of \<open>parseXMLTV\<close> never adds to \<open>errors\<close>, whatever
  the elements are; and an element with a channel, a title and two timestamps that
  \<open>parseXMLTVDateTime\<close> cannot read (it returns \<open>NaN\<close>, for which both tests of the window
  filter are false) is pushed to the output, with \<open>NaN\<close> as its start and end time.
\<close>

theorem parseXMLTV_unparseable_time:
  assumes "attr_channel prog = Some ch" and "ch \<noteq> []"
      and "attr_start prog = Some s" and "s \<noteq> []"
      and "attr_stop prog = Some t" and "t \<noteq> []"
      and "parseXMLTVDateTime s = None" and "parseXMLTVDateTime t = None"
      and "extractTitle (el_title prog) \<noteq> []"
  shows "errors_x (parseXMLTV now (Tv programmes)) = []
       \<and> parseXMLTV now (Tv [prog]) =
           \<lparr>programs = [\<lparr>channel_id = ch, title = extractTitle (el_title prog),
                          description = extractDesc (el_desc prog),
                          start_time = None, end_time = None,
                          category = extractCategory (el_category prog),
                          icon_url = (if truthy_str (icon_src prog) then icon_src prog else None)\<rparr>],
              errors_x = []\<rparr>"
  using assms
  by (simp add: parseXMLTV_def parseProgrammes_errors parseProgramme_def truthy_str_def
        num_lt_def num_gt_def Let_def)

theorem parseXMLTV_unparseable_time_witness:
  "parseXMLTVDateTime ''tomorrow'' = None
   \<and> parseXMLTVDateTime ''20240101xx0000 +0000'' = None
   \<and> parseXMLTV 1704100000000 (Tv [prog_bad]) =
       \<lparr>programs = [\<lparr>channel_id = ''bbc1'', title = ''News'', description = None,
                      start_time = None, end_time = None, category = None, icon_url = None\<rparr>],
          errors_x = []\<rparr>
   \<and> errors_x (parseXMLTV 1704100000000 (Tv [prog_bad, prog_ok])) = []"
proof -
  have s: "parseXMLTVDateTime ''tomorrow'' = None"
    by (simp add: stamp_defs date_defs)
  have t: "parseXMLTVDateTime ''20240101xx0000 +0000'' = None"
    by (simp add: stamp_defs date_defs)
  show ?thesis
    using parseXMLTV_unparseable_time [of prog_bad "''bbc1''" "''tomorrow''"
        "''20240101xx0000 +0000''" 1704100000000 "[prog_bad, prog_ok]"] s t
    by (simp add: prog_bad_def extractTitle_def extractDesc_def extractCategory_def truthy_str_def)
qed

section \<open>The playlist header: which guide address is returned\<close>

lemma regex_match_absent: "\<not> has_attr ci key s \<Longrightarrow> regex_match ci key s = None"
  by (induction s) (auto simp: match_at_def)

lemma regex_match_hit: "match_at ci key s = Some v \<Longrightarrow> regex_match ci key s = Some v"
  by (cases s) auto

lemma match_at_here:
  assumes "dq \<notin> set v"
  shows "match_at ci key (key @ [CHR ''='', dq] @ v @ dq # c) = Some v"
proof -
  have "takeWhile (\<lambda>c. c \<noteq> dq) (v @ dq # c) = v"
    using assms by (induction v) auto
  then show ?thesis by (simp add: match_at_def stands_at_def same_text_def)
qed

lemma stands_at_longer:
  "length key + 2 \<le> length s \<Longrightarrow> stands_at ci key (s @ t) = stands_at ci key s"
  by (simp add: stands_at_def)

lemma regex_match_first:
  assumes "dq \<notin> set v" "\<not> has_attr ci key (a @ key @ [CHR ''=''])"
  shows "regex_match ci key (a @ attr key v @ c) = Some v"
  using assms(2)
proof (induction a)
  case Nil
  show ?case using match_at_here [OF assms(1), of ci key c]
    by (simp add: attr_def regex_match_hit)
next
  case (Cons x a)
  have "\<not> stands_at ci key ((x # a @ key @ [CHR ''='']) @ dq # v @ dq # c)"
    using Cons.prems by (subst stands_at_longer) simp_all
  then have "match_at ci key (x # a @ attr key v @ c) = None"
    by (simp add: match_at_def attr_def)
  then show ?case using Cons by simp
qed

lemmas attr_defs = match_at_def stands_at_def same_text_def upper_def dq_def truthy_str_def

text \<open>
  C8, as the code has it. For every header line: when \<open>url-tvg="u"\<close> with a non-empty \<open>u\<close>
  is the first \<open>url-tvg\<close> attribute of the line, \<open>u\<close> is returned, whatever stands before
  it (an \<open>x-tvg-url\<close> attribute included) or after it; when \<open>url-tvg\<close> does not occur and
  \<open>x-tvg-url="u"\<close> with a non-empty \<open>u\<close> is the first \<open>x-tvg-url\<close> attribute, \<open>u\<close> is returned;
  when neither attribute occurs the result is absent.
\<close>

theorem extractEpgUrl_priority:
  assumes "u \<noteq> []" and "dq \<notin> set u"
  shows "(\<not> has_attr True ''url-tvg'' (a @ ''url-tvg='')
            \<longrightarrow> extractEpgUrl (a @ attr ''url-tvg'' u @ c) = Some u)
       \<and> (\<not> has_attr True ''url-tvg'' (a @ attr ''x-tvg-url'' u @ c)
            \<and> \<not> has_attr True ''x-tvg-url'' (a @ ''x-tvg-url='')
            \<longrightarrow> extractEpgUrl (a @ attr ''x-tvg-url'' u @ c) = Some u)
       \<and> (\<not> has_attr True ''url-tvg'' h \<and> \<not> has_attr True ''x-tvg-url'' h
            \<longrightarrow> extractEpgUrl h = None)"
proof (intro conjI impI)
  assume "\<not> has_attr True ''url-tvg'' (a @ ''url-tvg='')"
  then have "regex_match True ''url-tvg'' (a @ attr ''url-tvg'' u @ c) = Some u"
    using regex_match_first [OF assms(2), of True "''url-tvg''" a c] by simp
  then show "extractEpgUrl (a @ attr ''url-tvg'' u @ c) = Some u"
    using assms(1) by (simp add: extractEpgUrl_def truthy_str_def)
next
  assume h: "\<not> has_attr True ''url-tvg'' (a @ attr ''x-tvg-url'' u @ c)
            \<and> \<not> has_attr True ''x-tvg-url'' (a @ ''x-tvg-url='')"
  then have 1: "regex_match True ''url-tvg'' (a @ attr ''x-tvg-url'' u @ c) = None"
    by (simp add: regex_match_absent)
  have 2: "regex_match True ''x-tvg-url'' (a @ attr ''x-tvg-url'' u @ c) = Some u"
    using h regex_match_first [OF assms(2), of True "''x-tvg-url''" a c] by simp
  show "extractEpgUrl (a @ attr ''x-tvg-url'' u @ c) = Some u"
    using assms(1) by (simp add: extractEpgUrl_def 1 2 truthy_str_def)
next
  assume "\<not> has_attr True ''url-tvg'' h \<and> \<not> has_attr True ''x-tvg-url'' h"
  then show "extractEpgUrl h = None"
    by (simp add: extractEpgUrl_def regex_match_absent truthy_str_def)
qed

theorem extractEpgUrl_priority_witness:
  "extractEpgUrl header_x = Some ''http://a.example/u.xml''
   \<and> extractEpgUrl (''#EXTM3U '' @ attr ''x-tvg-url'' ''http://b.example/x.xml'') =
       Some ''http://b.example/x.xml''
   \<and> extractEpgUrl ''#EXTM3U'' = None"
proof -
  have hx: "header_x = (''#EXTM3U '' @ attr ''x-tvg-url'' ''http://b.example/x.xml'' @ '' '')
              @ attr ''url-tvg'' ''http://a.example/u.xml'' @ []"
    by (simp add: header_x_def attr_def dq_def)
  have 1: "\<not> has_attr True ''url-tvg''
             ((''#EXTM3U '' @ attr ''x-tvg-url'' ''http://b.example/x.xml'' @ '' '') @ ''url-tvg='')"
    by (simp add: attr_def stands_at_def same_text_def upper_def dq_def)
  have 2: "\<not> has_attr True ''url-tvg''
             (''#EXTM3U '' @ attr ''x-tvg-url'' ''http://b.example/x.xml'' @ [])"
    by (simp add: attr_def stands_at_def same_text_def upper_def dq_def)
  have 3: "\<not> has_attr True ''x-tvg-url'' (''#EXTM3U '' @ ''x-tvg-url='')"
    by (simp add: stands_at_def same_text_def upper_def dq_def)
  have 4: "\<not> has_attr True ''url-tvg'' ''#EXTM3U'' \<and> \<not> has_attr True ''x-tvg-url'' ''#EXTM3U''"
    by (simp add: stands_at_def same_text_def upper_def dq_def)
  have a: "extractEpgUrl header_x = Some ''http://a.example/u.xml''"
    unfolding hx
    using extractEpgUrl_priority [of "''http://a.example/u.xml''"
        "''#EXTM3U '' @ attr ''x-tvg-url'' ''http://b.example/x.xml'' @ '' ''" "[]"] 1
    by (simp add: dq_def)
  have b: "extractEpgUrl (''#EXTM3U '' @ attr ''x-tvg-url'' ''http://b.example/x.xml'' @ []) =
             Some ''http://b.example/x.xml''"
    using extractEpgUrl_priority [of "''http://b.example/x.xml''" "''#EXTM3U ''" "[]"] 2 3
    by (simp add: dq_def)
  have c: "extractEpgUrl ''#EXTM3U'' = None"
    using extractEpgUrl_priority [of "''x''" "[]" "[]" "''#EXTM3U''"] 4
    by (simp add: dq_def)
  show ?thesis using a b c by simp
qed

text \<open>
  C8 as the specification words it fails on a header that names \<open>x-tvg-url\<close> before
  \<open>url-tvg\<close>: the attribute that occurs first on the line is \<open>x-tvg-url\<close>, and the value of
  \<open>url-tvg\<close> is returned.
\<close>

theorem extractEpgUrl_first_counterexample:
  "extractEpgUrl header_x = Some ''http://a.example/u.xml''
   \<and> spec_first_on_line header_x = Some ''http://b.example/x.xml''
   \<and> extractEpgUrl header_x \<noteq> spec_first_on_line header_x"
  by (simp add: header_x_def extractEpgUrl_def attr_defs)
section \<open>The playlist parser: entries that are dropped\<close>

lemma startsWith_iff: "startsWith s p \<longleftrightarrow> (\<exists>r. s = p @ r)"
proof
  assume "startsWith s p"
  then have "s = p @ drop (length p) s"
    by (metis append_take_drop_id startsWith_def)
  then show "\<exists>r. s = p @ r" ..
next
  assume "\<exists>r. s = p @ r"
  then show "startsWith s p" by (auto simp: startsWith_def)
qed

lemma meta_not_blank:
  assumes "startsWith e ''#EXTINF''"
  shows "e \<noteq> []" and "startsWith e ''#''"
proof -
  from assms obtain r where e: "e = ''#EXTINF'' @ r" by (auto simp: startsWith_iff)
  show "e \<noteq> []" by (simp add: e)
  show "startsWith e ''#''" by (simp add: e startsWith_def)
qed

lemma url_not_meta: "\<not> startsWith u ''#'' \<Longrightarrow> \<not> startsWith u ''#EXTINF''"
  using meta_not_blank(2) by blast

lemma scan_meta:
  "startsWith e ''#EXTINF'' \<Longrightarrow>
   scanLines P i (e # rest) cur acc = scanLines P (i + 1) rest (Some (parseExtinf e)) acc"
  using meta_not_blank [of e] by (cases acc) simp

lemma scan_url_named:
  assumes "u \<noteq> []" "\<not> startsWith u ''#''" "isValidUrl P u" "truthy_str (p_name cur)"
  shows "scanLines P i (u # rest) (Some cur) (chs, errs) =
           scanLines P (i + 1) rest None (chs @ [toChannel (cur\<lparr>p_url := Some u\<rparr>)], errs)"
  using assms url_not_meta [of u] by (simp add: truthy_str_def)

lemma scan_url_nameless:
  assumes "u \<noteq> []" "\<not> startsWith u ''#''" "isValidUrl P u" "\<not> truthy_str (p_name cur)"
  shows "scanLines P i (u # rest) (Some cur) (chs, errs) =
           scanLines P (i + 1) rest None
             (chs, errs @ [''Skipped channel with missing data at line '' @ show_nat (i + 1)])"
  using assms url_not_meta [of u] by simp

lemma scan_url_stray:
  assumes "u \<noteq> []" "\<not> startsWith u ''#''"
  shows "scanLines P i (u # rest) None acc = scanLines P (i + 1) rest None acc"
  using assms url_not_meta [of u] by (cases acc) simp


lemma scan_noise1:
  assumes "isNoise P l"
  shows "scanLines P i (l # rest) cur acc = scanLines P (i + 1) rest cur acc"
proof (cases acc)
  case (Pair chs errs)
  show ?thesis
  proof (cases "l = [] \<or> (startsWith l ''#'' \<and> \<not> startsWith l ''#EXTINF'')")
    case True
    then show ?thesis by (simp add: Pair)
  next
    case False
    then have "\<not> isValidUrl P l" "\<not> startsWith l ''#EXTINF''"
      using assms by (auto simp: isNoise_def isMeta_def isUrlLine_def)
    then show ?thesis using False by (simp add: Pair split: option.splits)
  qed
qed

lemma scan_noise:
  assumes "list_all (isNoise P) n"
  shows "scanLines P i (n @ rest) cur acc = scanLines P (i + length n) rest cur acc"
  using assms
proof (induction n arbitrary: i)
  case Nil
  show ?case by simp
next
  case (Cons l n)
  then show ?case by (simp add: scan_noise1 del: scanLines.simps(2))
qed


lemma find_snoc:
  "find P (xs @ [y]) = (case find P xs of Some x \<Rightarrow> Some x | None \<Rightarrow> if P y then Some y else None)"
  by (induction xs) auto

lemma metaBefore_0: "metaBefore P e0 ls 0 = e0"
  by (simp add: metaBefore_def)

lemma metaBefore_Suc:
  "metaBefore P e0 (l # rest) (Suc j) =
     metaBefore P (if isMeta l then Some l else if isUrlLine P l then None else e0) rest j"
  by (simp add: metaBefore_def find_snoc split: option.splits)

lemma meta_not_url: "isMeta l \<Longrightarrow> \<not> isUrlLine P l"
  using meta_not_blank(2) [of l] by (simp add: isMeta_def isUrlLine_def)

lemma scan_step:
  "scanLines P i (l # rest) (map_option parseExtinf e0) (chs, errs) =
     scanLines P (i + 1) rest
       (map_option parseExtinf (if isMeta l then Some l else if isUrlLine P l then None else e0))
       (chs @ (if completesAt P e0 (l # rest) 0 then [channelOf (the e0) l] else []),
        errs @ (if warnsAt P e0 (l # rest) 0 then [warning (i + 1)] else []))"
proof (cases "isMeta l")
  case True
  then show ?thesis
    using scan_meta [of l P i rest] meta_not_url [OF True, of P]
    by (simp add: isMeta_def completesAt_def warnsAt_def del: scanLines.simps(2))
next
  case notmeta: False
  show ?thesis
  proof (cases "isUrlLine P l")
    case False
    then have "isNoise P l" using notmeta by (simp add: isNoise_def)
    then show ?thesis using scan_noise1 [of P l i rest] False notmeta
      by (simp add: completesAt_def warnsAt_def del: scanLines.simps(2))
  next
    case True
    then have u: "l \<noteq> []" "\<not> startsWith l ''#''" "isValidUrl P l"
      by (simp_all add: isUrlLine_def)
    show ?thesis
    proof (cases e0)
      case None
      then show ?thesis using scan_url_stray [OF u(1,2), of P i rest] True notmeta
        by (simp add: completesAt_def warnsAt_def metaBefore_0 del: scanLines.simps(2))
    next
      case (Some e)
      show ?thesis
      proof (cases "truthy_str (p_name (parseExtinf e))")
        case named: True
        then show ?thesis using scan_url_named [OF u named, of i rest chs errs] True notmeta Some
          by (simp add: completesAt_def warnsAt_def metaBefore_0 channelOf_def
                del: scanLines.simps(2))
      next
        case nameless: False
        then show ?thesis using scan_url_nameless [OF u nameless, of i rest chs errs] True notmeta Some
          by (simp add: completesAt_def warnsAt_def metaBefore_0 warning_def
                del: scanLines.simps(2))
      qed
    qed
  qed
qed

lemma shift_filter:
  "filter Q [0..<Suc n] = (if Q 0 then [0] else []) @ map Suc (filter (\<lambda>j. Q (Suc j)) [0..<n])"
proof -
  have "[0..<Suc n] = 0 # [Suc 0..<Suc n]"
    by (rule upt_conv_Cons) simp
  also have "[Suc 0..<Suc n] = map Suc [0..<n]"
    by (simp only: map_Suc_upt)
  finally have "[0..<Suc n] = 0 # map Suc [0..<n]" .
  then show ?thesis by (simp only: filter.simps filter_map comp_def) simp
qed

lemma completesAt_Suc:
  "completesAt P e0 (l # rest) (Suc j) =
     completesAt P (if isMeta l then Some l else if isUrlLine P l then None else e0) rest j"
  "warnsAt P e0 (l # rest) (Suc j) =
     warnsAt P (if isMeta l then Some l else if isUrlLine P l then None else e0) rest j"
  by (simp_all only: completesAt_def warnsAt_def metaBefore_Suc nth_Cons_Suc)

lemma scanLines_all:
  "scanLines P i ls (map_option parseExtinf e0) (chs, errs) =
     (chs @ map (\<lambda>j. channelOf (the (metaBefore P e0 ls j)) (ls ! j))
              (filter (completesAt P e0 ls) [0..<length ls]),
      errs @ map (\<lambda>j. warning (i + j + 1)) (filter (warnsAt P e0 ls) [0..<length ls]))"
proof (induction ls arbitrary: i e0 chs errs)
  case Nil
  show ?case by simp
next
  case (Cons l rest)
  let ?e = "if isMeta l then Some l else if isUrlLine P l then None else e0"
  have c: "map (\<lambda>j. channelOf (the (metaBefore P e0 (l # rest) j)) ((l # rest) ! j))
             (filter (completesAt P e0 (l # rest)) [0..<length (l # rest)]) =
           (if completesAt P e0 (l # rest) 0 then [channelOf (the e0) l] else []) @
           map (\<lambda>j. channelOf (the (metaBefore P ?e rest j)) (rest ! j))
             (filter (completesAt P ?e rest) [0..<length rest])"
    by (simp add: shift_filter completesAt_Suc metaBefore_Suc metaBefore_0 comp_def
          del: upt_Suc)
  have w: "map (\<lambda>j. warning (i + j + 1)) (filter (warnsAt P e0 (l # rest)) [0..<length (l # rest)]) =
           (if warnsAt P e0 (l # rest) 0 then [warning (i + 1)] else []) @
           map (\<lambda>j. warning (i + 1 + j + 1)) (filter (warnsAt P ?e rest) [0..<length rest])"
    by (simp add: shift_filter completesAt_Suc comp_def del: upt_Suc)
  show ?case
    unfolding scan_step c w Cons.IH by simp
qed


lemma scan_noise_end:
  assumes "list_all (isNoise P) n"
  shows "scanLines P i n cur acc = acc"
  using scan_noise [OF assms, of i "[]" cur acc] by (cases acc) simp

text \<open>
  C7, as the code has it. For every playlist with a valid header: \<open>errors\<close> holds one
  warning for each accepted URL line whose pending metadata line has no usable name, in
  the order of these lines and each naming the number of its URL line in the feed (every
  line counts, the header being line 1), and nothing else; \<open>channels\<close> holds one channel
  for each accepted URL line whose pending metadata line has a usable name, made of that
  metadata line and the URL. So for every feed made of two well-formed entries (a metadata
  line with a usable name, then an accepted URL line) and a further metadata line that no
  URL line follows, wherever that line stands and whatever noise (empty lines, comments,
  text that is no accepted URL) stands between the lines: exactly the two channels are
  returned and \<open>errors\<close> is empty. A URL line that no metadata line precedes is dropped
  without a warning as well. When the further metadata line has no usable name and an
  accepted URL line follows it, that entry is dropped with the warning for the line of the
  URL, and parsing goes on.
\<close>

theorem parseM3U_lone_metadata:
  assumes hdr: "startsWith h ''#EXTM3U''"
  shows "errors (parseM3U_lines P (h # ls)) =
           map (\<lambda>j. warning (j + 2)) (filter (warnsAt P None ls) [0..<length ls])
       \<and> channels (parseM3U_lines P (h # ls)) =
           map (\<lambda>j. channelOf (the (metaBefore P None ls j)) (ls ! j))
             (filter (completesAt P None ls) [0..<length ls])
       \<and> epg_url_r (parseM3U_lines P (h # ls)) = extractEpgUrl h
       \<and> (isMeta e1 \<and> isMeta e2 \<and> isMeta e3
            \<and> truthy_str (p_name (parseExtinf e1)) \<and> truthy_str (p_name (parseExtinf e2))
            \<and> isUrlLine P u1 \<and> isUrlLine P u2
            \<and> list_all (isNoise P) (n0 @ n1 @ n2 @ n3 @ n4 @ n5) \<longrightarrow>
            parseM3U_lines P (h # n0 @ [e3] @ n1 @ [e1] @ n2 @ [u1] @ n3 @ [e2] @ n4 @ [u2] @ n5) =
              \<lparr>channels = [channelOf e1 u1, channelOf e2 u2], errors = [],
                 epg_url_r = extractEpgUrl h\<rparr>
          \<and> parseM3U_lines P (h # n0 @ [e1] @ n1 @ [u1] @ n2 @ [e3] @ n3 @ [e2] @ n4 @ [u2] @ n5) =
              \<lparr>channels = [channelOf e1 u1, channelOf e2 u2], errors = [],
                 epg_url_r = extractEpgUrl h\<rparr>
          \<and> parseM3U_lines P (h # n0 @ [e1] @ n1 @ [u1] @ n2 @ [e2] @ n3 @ [u2] @ n4 @ [e3] @ n5) =
              \<lparr>channels = [channelOf e1 u1, channelOf e2 u2], errors = [],
                 epg_url_r = extractEpgUrl h\<rparr>
          \<and> parseM3U_lines P (h # n0 @ [u1] @ n1 @ [e2] @ n2 @ [u2] @ n3) =
              \<lparr>channels = [channelOf e2 u2], errors = [], epg_url_r = extractEpgUrl h\<rparr>
          \<and> (\<not> truthy_str (p_name (parseExtinf e3)) \<longrightarrow>
               parseM3U_lines P (h # n0 @ [e3] @ n1 @ [u1] @ n2 @ [e2] @ n3 @ [u2] @ n4) =
                 \<lparr>channels = [channelOf e2 u2],
                    errors = [warning (length n0 + length n1 + 3)],
                    epg_url_r = extractEpgUrl h\<rparr>))"
proof -
  have scan: "parseM3U_lines P (h # ls) =
      \<lparr>channels = fst (scanLines P 1 ls None ([], [])),
         errors = snd (scanLines P 1 ls None ([], [])), epg_url_r = extractEpgUrl h\<rparr>" for ls
    using hdr by (simp add: parseM3U_lines_def split: prod.splits)
  have all: "scanLines P 1 ls None ([], []) =
      (map (\<lambda>j. channelOf (the (metaBefore P None ls j)) (ls ! j))
             (filter (completesAt P None ls) [0..<length ls]),
       map (\<lambda>j. warning (j + 2)) (filter (warnsAt P None ls) [0..<length ls]))"
    using scanLines_all [of P 1 ls None "[]" "[]"] by (simp add: add.commute)
  have layouts:
    "scanLines P 1 (n0 @ [e3] @ n1 @ [e1] @ n2 @ [u1] @ n3 @ [e2] @ n4 @ [u2] @ n5) None ([], []) =
       ([channelOf e1 u1, channelOf e2 u2], [])
     \<and> scanLines P 1 (n0 @ [e1] @ n1 @ [u1] @ n2 @ [e3] @ n3 @ [e2] @ n4 @ [u2] @ n5) None ([], []) =
       ([channelOf e1 u1, channelOf e2 u2], [])
     \<and> scanLines P 1 (n0 @ [e1] @ n1 @ [u1] @ n2 @ [e2] @ n3 @ [u2] @ n4 @ [e3] @ n5) None ([], []) =
       ([channelOf e1 u1, channelOf e2 u2], [])
     \<and> scanLines P 1 (n0 @ [u1] @ n1 @ [e2] @ n2 @ [u2] @ n3) None ([], []) =
       ([channelOf e2 u2], [])
     \<and> (\<not> truthy_str (p_name (parseExtinf e3)) \<longrightarrow>
          scanLines P 1 (n0 @ [e3] @ n1 @ [u1] @ n2 @ [e2] @ n3 @ [u2] @ n4) None ([], []) =
            ([channelOf e2 u2], [warning (length n0 + length n1 + 3)]))"
    if hyp: "isMeta e1 \<and> isMeta e2 \<and> isMeta e3
            \<and> truthy_str (p_name (parseExtinf e1)) \<and> truthy_str (p_name (parseExtinf e2))
            \<and> isUrlLine P u1 \<and> isUrlLine P u2
            \<and> list_all (isNoise P) (n0 @ n1 @ n2 @ n3 @ n4 @ n5)"
  proof -
    from hyp have m: "startsWith e1 ''#EXTINF''" "startsWith e2 ''#EXTINF''" "startsWith e3 ''#EXTINF''"
      and nm: "truthy_str (p_name (parseExtinf e1))" "truthy_str (p_name (parseExtinf e2))"
      and u1: "u1 \<noteq> []" "\<not> startsWith u1 ''#''" "isValidUrl P u1"
      and u2: "u2 \<noteq> []" "\<not> startsWith u2 ''#''" "isValidUrl P u2"
      and nz: "list_all (isNoise P) n0" "list_all (isNoise P) n1" "list_all (isNoise P) n2"
        "list_all (isNoise P) n3" "list_all (isNoise P) n4" "list_all (isNoise P) n5"
      by (simp_all add: isMeta_def isUrlLine_def)
    note steps = scan_meta [OF m(1)] scan_meta [OF m(2)] scan_meta [OF m(3)]
      scan_url_named [OF u1 nm(1)] scan_url_named [OF u2 nm(2)]
      scan_url_stray [OF u1(1,2)] scan_url_stray [OF u2(1,2)]
      scan_noise [OF nz(1)] scan_noise [OF nz(2)] scan_noise [OF nz(3)]
      scan_noise [OF nz(4)] scan_noise [OF nz(5)] scan_noise [OF nz(6)]
      scan_noise_end [OF nz(1)] scan_noise_end [OF nz(2)] scan_noise_end [OF nz(3)]
      scan_noise_end [OF nz(4)] scan_noise_end [OF nz(5)] scan_noise_end [OF nz(6)]
    have a: "scanLines P 1 (n0 @ [e3] @ n1 @ [e1] @ n2 @ [u1] @ n3 @ [e2] @ n4 @ [u2] @ n5) None ([], []) =
       ([channelOf e1 u1, channelOf e2 u2], [])"
      by (simp add: steps channelOf_def del: scanLines.simps(2))
    have b: "scanLines P 1 (n0 @ [e1] @ n1 @ [u1] @ n2 @ [e3] @ n3 @ [e2] @ n4 @ [u2] @ n5) None ([], []) =
       ([channelOf e1 u1, channelOf e2 u2], [])"
      by (simp add: steps channelOf_def del: scanLines.simps(2))
    have c: "scanLines P 1 (n0 @ [e1] @ n1 @ [u1] @ n2 @ [e2] @ n3 @ [u2] @ n4 @ [e3] @ n5) None ([], []) =
       ([channelOf e1 u1, channelOf e2 u2], [])"
      by (simp add: steps channelOf_def del: scanLines.simps(2))
    have d: "scanLines P 1 (n0 @ [u1] @ n1 @ [e2] @ n2 @ [u2] @ n3) None ([], []) =
       ([channelOf e2 u2], [])"
      by (simp add: steps channelOf_def del: scanLines.simps(2))
    have e: "scanLines P 1 (n0 @ [e3] @ n1 @ [u1] @ n2 @ [e2] @ n3 @ [u2] @ n4) None ([], []) =
            ([channelOf e2 u2], [warning (length n0 + length n1 + 3)])"
      if "\<not> truthy_str (p_name (parseExtinf e3))"
    proof -
      have idx: "length n0 + length n1 + 3 = Suc (Suc (Suc (length n0 + length n1)))" by simp
      show ?thesis unfolding idx
        by (simp add: steps scan_url_nameless [OF u1 that] channelOf_def warning_def
             del: scanLines.simps(2))
    qed
    show ?thesis using a b c d e by simp
  qed
  show ?thesis
    unfolding scan all using layouts by simp
qed

lemma feedB_lines:
  "map trim (split_lines feedB) =
     [''#EXTM3U'', extinfAlpha, ''http://tv.example/a'',
      ''#EXTINF:-1,Lonely'', ''#EXTINF:-1,Beta'', ''http://tv.example/b'']"
proof -
  have "map trim (split_lines feedB) =
     [''#EXTM3U'', ''#EXTINF:-1 tvg-id='' @ [dq] @ ''a'' @ [dq] @ '',Alpha'', ''http://tv.example/a'',
      ''#EXTINF:-1,Lonely'', ''#EXTINF:-1,Beta'', ''http://tv.example/b'']"
    by (simp add: feedB_def extinfAlpha_def trim_def is_ws_def dq_def)
  then show ?thesis by (simp add: extinfAlpha_def dq_def)
qed

lemmas m3u_defs = startsWith_def isValidUrl_def protocol0_def parseExtinf_def
  after_last_comma_def trim_def is_ws_def truthy_str_def dq_def

lemma extinfAlpha_facts:
  "startsWith extinfAlpha ''#EXTINF''"
  "truthy_str (p_name (parseExtinf extinfAlpha))"
  "channelOf extinfAlpha ''http://tv.example/a'' =
     \<lparr>name = ''Alpha'', url = ''http://tv.example/a'', logo = None, group_c = None,
        tvg_id = Some ''a''\<rparr>"
  by (simp_all add: extinfAlpha_def channelOf_def toChannel_def parseExtinf_def
        after_last_comma_def trim_def is_ws_def startsWith_def attr_defs)

lemma extinfBeta_facts:
  "startsWith ''#EXTINF:-1,Beta'' ''#EXTINF''"
  "truthy_str (p_name (parseExtinf ''#EXTINF:-1,Beta''))"
  "channelOf ''#EXTINF:-1,Beta'' ''http://tv.example/b'' =
     \<lparr>name = ''Beta'', url = ''http://tv.example/b'', logo = None, group_c = None,
        tvg_id = None\<rparr>"
  by (simp_all add: channelOf_def toChannel_def parseExtinf_def
        after_last_comma_def trim_def is_ws_def startsWith_def attr_defs)

lemma url_facts:
  "\<not> startsWith ''http://tv.example/a'' ''#''" "isValidUrl protocol0 ''http://tv.example/a''"
  "\<not> startsWith ''http://tv.example/b'' ''#''" "isValidUrl protocol0 ''http://tv.example/b''"
  by (simp_all add: startsWith_def isValidUrl_def protocol0_def)


theorem parseM3U_lone_metadata_witness:
  "parseM3U_content protocol0 feedB =
     \<lparr>channels = [\<lparr>name = ''Alpha'', url = ''http://tv.example/a'', logo = None, group_c = None,
                    tvg_id = Some ''a''\<rparr>,
                  \<lparr>name = ''Beta'', url = ''http://tv.example/b'', logo = None, group_c = None,
                    tvg_id = None\<rparr>],
        errors = [], epg_url_r = None\<rparr>
   \<and> parseM3U_lines protocol0 [''#EXTM3U'', [], ''#EXTINF:-1'', ''# note'', ''http://tv.example/a'',
        ''#EXTINF:-1,Beta'', ''junk'', ''http://tv.example/b''] =
     \<lparr>channels = [\<lparr>name = ''Beta'', url = ''http://tv.example/b'', logo = None, group_c = None,
                    tvg_id = None\<rparr>],
        errors = [''Skipped channel with missing data at line 5''], epg_url_r = None\<rparr>"
proof -
  have h: "startsWith ''#EXTM3U'' ''#EXTM3U''" "extractEpgUrl ''#EXTM3U'' = None"
    by (simp_all add: startsWith_def extractEpgUrl_def attr_defs)
  have lone: "isMeta ''#EXTINF:-1,Lonely''"
    by (simp add: isMeta_def startsWith_def)
  have nameless: "isMeta ''#EXTINF:-1''"
    "\<not> truthy_str (p_name (parseExtinf ''#EXTINF:-1''))"
    by (simp_all add: isMeta_def startsWith_def parseExtinf_def after_last_comma_def truthy_str_def)
  have metas: "isMeta extinfAlpha" "isMeta ''#EXTINF:-1,Beta''"
    using extinfAlpha_facts(1) extinfBeta_facts(1) by (simp_all add: isMeta_def)
  have urls: "isUrlLine protocol0 ''http://tv.example/a''" "isUrlLine protocol0 ''http://tv.example/b''"
    using url_facts by (simp_all add: isUrlLine_def)
  have noise: "list_all (isNoise protocol0) [[], ''# note'', ''junk'']"
    by (simp add: isNoise_def isMeta_def isUrlLine_def startsWith_def isValidUrl_def protocol0_def)
  note t1 = parseM3U_lone_metadata [OF h(1), of protocol0 "[]" extinfAlpha "''#EXTINF:-1,Beta''"
      "''#EXTINF:-1,Lonely''" "''http://tv.example/a''" "''http://tv.example/b''"
      "[]" "[]" "[]" "[]" "[]" "[]"]
  note t2 = parseM3U_lone_metadata [OF h(1), of protocol0 "[]" extinfAlpha "''#EXTINF:-1,Beta''"
      "''#EXTINF:-1''" "''http://tv.example/a''" "''http://tv.example/b''"
      "[[]]" "[''# note'']" "[]" "[''junk'']" "[]" "[]"]
  have 1: "parseM3U_lines protocol0 [''#EXTM3U'', extinfAlpha, ''http://tv.example/a'',
             ''#EXTINF:-1,Lonely'', ''#EXTINF:-1,Beta'', ''http://tv.example/b''] =
           \<lparr>channels = [channelOf extinfAlpha ''http://tv.example/a'',
                         channelOf ''#EXTINF:-1,Beta'' ''http://tv.example/b''],
              errors = [], epg_url_r = extractEpgUrl ''#EXTM3U''\<rparr>"
    using t1 metas lone urls extinfAlpha_facts(2) extinfBeta_facts(2) by simp
  have 2: "parseM3U_lines protocol0 [''#EXTM3U'', [], ''#EXTINF:-1'', ''# note'', ''http://tv.example/a'',
        ''#EXTINF:-1,Beta'', ''junk'', ''http://tv.example/b''] =
           \<lparr>channels = [channelOf ''#EXTINF:-1,Beta'' ''http://tv.example/b''],
              errors = [warning 5],
              epg_url_r = extractEpgUrl ''#EXTM3U''\<rparr>"
    using t2 metas nameless urls noise extinfAlpha_facts(2) extinfBeta_facts(2) by simp
  have w: "warning 5 = ''Skipped channel with missing data at line 5''"
    by (simp add: warning_def show_nat.simps)
  show ?thesis
    unfolding parseM3U_content_def feedB_lines 1 2 extinfAlpha_facts(3) extinfBeta_facts(3) h(2) w
    by simp
qed

text \<open>
  C7 as the specification words it fails on the feed of scenario B itself: the metadata
  line \<open>Lonely\<close> has no URL line after it, two channels are returned, and \<open>errors\<close> has no
  entry where the specification expects one.
\<close>

theorem parseM3U_scenarioB_counterexample:
  "length (channels (parseM3U_content protocol0 feedB)) = 2
   \<and> length (errors (parseM3U_content protocol0 feedB)) = 0
   \<and> length (errors (parseM3U_content protocol0 feedB)) \<noteq> 1"
  unfolding parseM3U_content_def feedB_lines
  by (simp add: parseM3U_lines_def extinfAlpha_def m3u_defs)

section \<open>The freshness cache: what a refresh does\<close>

lemma emit_simps [simp]:
  "epg_sources (emit ev d) = epg_sources d"
  "epg_programs (emit ev d) = epg_programs d"
  "trace (emit ev d) = trace d @ [ev]"
  by (simp_all add: emit_def)

lemma accept_nullable: "accept r = Inr x \<Longrightarrow> nullable x = r"
  by (auto simp: accept_def nullable_def split: option.splits)

lemma accept_Inl: "accept r = Inl err \<Longrightarrow> start_time r = None \<or> end_time r = None"
  by (auto simp: accept_def split: option.splits)

lemma accept_Inr_nullable [simp]: "accept (nullable x) = Inr x"
  by (simp add: accept_def nullable_def)

lemma acceptAll_Inr: "acceptAll rs = Inr xs \<Longrightarrow> map nullable xs = rs"
  by (induction rs arbitrary: xs) (auto simp: accept_nullable split: sum.splits)

lemma acceptAll_Inl:
  "acceptAll rs = Inl err \<Longrightarrow> \<exists>r\<in>set rs. start_time r = None \<or> end_time r = None"
  by (induction rs) (auto dest: accept_Inl split: sum.splits)


lemma chunk_rows:
  assumes "i < length ps"
  shows "map2 (\<lambda>j. f (i + j)) [0..<min (length ps - i) 100] (take 100 (drop i ps))
         = map (\<lambda>k. f k (ps ! k)) [i..<min (i + 100) (length ps)]"
  using assms by (auto simp: list_eq_iff_nth_eq min_def)

lemma upt_split: "i \<le> m \<Longrightarrow> m \<le> n \<Longrightarrow> [i..<n] = [i..<m] @ [m..<n]"
  by (metis le_Suc_ex upt_add_eq_append)

lemma insertChunks_step:
  assumes "i < length ps"
  shows "insertChunks now uuid sid ps i d =
           (case acceptAll (bound now uuid sid ps i) of
              Inl err \<Rightarrow> (Inl err, emit (RejectedBatch err) d)
            | Inr rows \<Rightarrow> insertChunks now uuid sid ps (i + 100)
                           (emit (InsertBatch rows) (d\<lparr>epg_programs := epg_programs d @ rows\<rparr>)))"
proof -
  have cr: "map2 (\<lambda>j. toRow now (uuid (i + j)) sid) [0..<min (length ps - i) 100]
                (take 100 (drop i ps)) = bound now uuid sid ps i"
    unfolding bound_def using chunk_rows [OF assms, of "\<lambda>k. toRow now (uuid k) sid"] by simp
  show ?thesis
    using assms
    by (subst insertChunks.simps) (simp add: Let_def cr batch_def split: sum.splits)
qed

lemma insertChunks_done:
  "\<not> i < length ps \<Longrightarrow> insertChunks now uuid sid ps i d = (Inr (), d)"
  by (subst insertChunks.simps) simp


lemma bound_bad:
  assumes "acceptAll (bound now uuid sid ps i) = Inl err"
  shows "\<exists>k<length ps. start_time (ps ! k) = None \<or> end_time (ps ! k) = None"
proof -
  from acceptAll_Inl [OF assms] obtain r where
    r: "r \<in> set (bound now uuid sid ps i)" "start_time r = None \<or> end_time r = None"
    by blast
  then obtain k where "k < length ps" "r = toRow now (uuid k) sid (ps ! k)"
    by (auto simp: bound_def)
  then show ?thesis using r(2) by (auto simp: toRow_def)
qed

lemma insertChunks_result:
  assumes "insertChunks now uuid sid ps i d = (res, d')"
  shows "epg_sources d' = epg_sources d \<and>
         (\<exists>rows ins. epg_programs d' = epg_programs d @ rows \<and> list_all isInsert ins \<and>
            (case res of
               Inr u \<Rightarrow> map nullable rows = map (\<lambda>k. toRow now (uuid k) sid (ps ! k)) [i..<length ps]
                         \<and> trace d' = trace d @ ins
             | Inl err \<Rightarrow> trace d' = trace d @ ins @ [RejectedBatch err]
                         \<and> (\<exists>k<length ps. start_time (ps ! k) = None \<or> end_time (ps ! k) = None)))"
  using assms
proof (induction "length ps - i" arbitrary: i d rule: less_induct)
  case less
  show ?case
  proof (cases "i < length ps")
    case False
    then have "res = Inr ()" "d' = d"
      using less.prems insertChunks_done [of i ps now uuid sid d] by simp_all
    moreover have "[i..<length ps] = []" using False by simp
    ultimately have "epg_programs d' = epg_programs d @ [] \<and> list_all isInsert [] \<and>
        (case res of
           Inr u \<Rightarrow> map nullable [] = map (\<lambda>k. toRow now (uuid k) sid (ps ! k)) [i..<length ps]
                     \<and> trace d' = trace d @ []
         | Inl err \<Rightarrow> trace d' = trace d @ [] @ [RejectedBatch err]
                     \<and> (\<exists>k<length ps. start_time (ps ! k) = None \<or> end_time (ps ! k) = None))"
      by simp
    then show ?thesis using \<open>d' = d\<close> by blast
  next
    case True
    note step = insertChunks_step [OF True, of now uuid sid d]
    show ?thesis
    proof (cases "acceptAll (bound now uuid sid ps i)")
      case (Inl err)
      then have r: "res = Inl err" "d' = emit (RejectedBatch err) d"
        using less.prems step by simp_all
      have "epg_programs d' = epg_programs d @ [] \<and> list_all isInsert [] \<and>
        (case res of
           Inr u \<Rightarrow> map nullable [] = map (\<lambda>k. toRow now (uuid k) sid (ps ! k)) [i..<length ps]
                     \<and> trace d' = trace d @ []
         | Inl err \<Rightarrow> trace d' = trace d @ [] @ [RejectedBatch err]
                     \<and> (\<exists>k<length ps. start_time (ps ! k) = None \<or> end_time (ps ! k) = None))"
        using r bound_bad [OF Inl] by simp
      moreover have "epg_sources d' = epg_sources d" using r by simp
      ultimately show ?thesis by blast
    next
      case (Inr rows1)
      let ?m = "min (i + 100) (length ps)"
      let ?dm = "emit (InsertBatch rows1) (d\<lparr>epg_programs := epg_programs d @ rows1\<rparr>)"
      have rec: "insertChunks now uuid sid ps (i + 100) ?dm = (res, d')"
        using less.prems step Inr by simp
      have "length ps - (i + 100) < length ps - i" using True by simp
      from less.hyps [OF this rec] obtain rows2 ins2 where
        src: "epg_sources d' = epg_sources ?dm"
        and pr: "epg_programs d' = epg_programs ?dm @ rows2"
        and ins: "list_all isInsert ins2"
        and cs: "(case res of
               Inr u \<Rightarrow> map nullable rows2 = map (\<lambda>k. toRow now (uuid k) sid (ps ! k)) [i + 100..<length ps]
                         \<and> trace d' = trace ?dm @ ins2
             | Inl err \<Rightarrow> trace d' = trace ?dm @ ins2 @ [RejectedBatch err]
                         \<and> (\<exists>k<length ps. start_time (ps ! k) = None \<or> end_time (ps ! k) = None))"
        by blast
      have n1: "map nullable rows1 = map (\<lambda>k. toRow now (uuid k) sid (ps ! k)) [i..<?m]"
        using acceptAll_Inr [OF Inr] by (simp add: bound_def)
      have sp: "[i..<length ps] = [i..<?m] @ [?m..<length ps]"
        using True by (intro upt_split) auto
      have rest: "[i + 100..<length ps] = [?m..<length ps]"
        by (auto simp: min_def)
      have "epg_programs d' = epg_programs d @ (rows1 @ rows2) \<and>
            list_all isInsert (InsertBatch rows1 # ins2) \<and>
            (case res of
               Inr u \<Rightarrow> map nullable (rows1 @ rows2) =
                           map (\<lambda>k. toRow now (uuid k) sid (ps ! k)) [i..<length ps]
                         \<and> trace d' = trace d @ (InsertBatch rows1 # ins2)
             | Inl err \<Rightarrow> trace d' = trace d @ (InsertBatch rows1 # ins2) @ [RejectedBatch err]
                         \<and> (\<exists>k<length ps. start_time (ps ! k) = None \<or> end_time (ps ! k) = None))"
        using pr ins cs n1 by (cases res) (simp_all add: isInsert_def sp rest)
      moreover have "epg_sources d' = epg_sources d" using src by simp
      ultimately show ?thesis by blast
    qed
  qed
qed


lemma insertEPGPrograms_result:
  assumes "insertEPGPrograms now uuid d sid ps = (res, d')"
  shows "epg_sources d' = epg_sources d \<and>
         (\<exists>rows ins. epg_programs d' = epg_programs d @ rows \<and> list_all isInsert ins \<and>
            (case res of
               Inr u \<Rightarrow> map nullable rows = newRows now uuid sid ps \<and> trace d' = trace d @ ins
             | Inl err \<Rightarrow> trace d' = trace d @ ins @ [RejectedBatch err]
                         \<and> (\<exists>k<length ps. start_time (ps ! k) = None \<or> end_time (ps ! k) = None)))"
proof (cases "ps = []")
  case True
  then have "res = Inr ()" "d' = d" using assms by (simp_all add: insertEPGPrograms_def)
  then have "epg_programs d' = epg_programs d @ [] \<and> list_all isInsert [] \<and>
            (case res of
               Inr u \<Rightarrow> map nullable [] = newRows now uuid sid ps \<and> trace d' = trace d @ []
             | Inl err \<Rightarrow> trace d' = trace d @ [] @ [RejectedBatch err]
                         \<and> (\<exists>k<length ps. start_time (ps ! k) = None \<or> end_time (ps ! k) = None))"
    using True by (simp add: newRows_def)
  then show ?thesis using \<open>d' = d\<close> by blast
next
  case False
  then have "insertChunks now uuid sid ps 0 d = (res, d')"
    using assms by (simp add: insertEPGPrograms_def)
  from insertChunks_result [OF this] show ?thesis unfolding newRows_def .
qed

lemma insertEPGPrograms_total:
  assumes "\<forall>p\<in>set ps. start_time p \<noteq> None \<and> end_time p \<noteq> None"
  shows "\<exists>d'. insertEPGPrograms now uuid d sid ps = (Inr (), d')"
proof -
  obtain res d' where r: "insertEPGPrograms now uuid d sid ps = (res, d')"
    by (cases "insertEPGPrograms now uuid d sid ps")
  have "res = Inr ()"
  proof (cases res)
    case (Inl err)
    then have "\<exists>k<length ps. start_time (ps ! k) = None \<or> end_time (ps ! k) = None"
      using insertEPGPrograms_result [OF r] by auto
    then show ?thesis using assms by (auto simp: all_set_conv_all_nth)
  next
    case (Inr u)
    then show ?thesis by simp
  qed
  then show ?thesis using r by blast
qed



lemma find_map_inv:
  "(\<And>x. P (f x) = P x) \<Longrightarrow> find P (map f xs) = map_option f (find P xs)"
  by (induction xs) auto

lemma find_Some_P: "find P xs = Some x \<Longrightarrow> P x"
  by (induction xs) (auto split: if_splits)

lemma getOrCreate_facts:
  assumes "getOrCreateEPGSource now uuid d pid gurl = (src, d1)"
  shows "sourceOf d1 pid = Some src"
    and "playlist_id src = pid"
    and "epg_url src = gurl"
    and "epg_programs d1 = epg_programs d"
    and "\<exists>pre. trace d1 = trace d @ pre \<and> list_all (\<lambda>ev. \<not> isFetch ev) pre"
proof -
  let ?P = "\<lambda>s. playlist_id s = pid"
  show "sourceOf d1 pid = Some src"
  proof (cases "find ?P (epg_sources d)")
    case None
    then show ?thesis using assms
      by (auto simp: getOrCreateEPGSource_def sourceOf_def Let_def find_snoc)
  next
    case (Some ex)
    have inv: "\<And>x. ?P (if id_s x = id_s ex then rebind gurl now x else x) = ?P x"
      by (simp add: rebind_def)
    show ?thesis using assms Some find_map_inv [of ?P "\<lambda>s. if id_s s = id_s ex then rebind gurl now s else s", OF inv]
      by (auto simp: getOrCreateEPGSource_def sourceOf_def split: if_splits)
  qed
  show "playlist_id src = pid" using assms
    by (auto simp: getOrCreateEPGSource_def Let_def rebind_def split: option.splits if_splits
             dest: find_Some_P)
  show "epg_url src = gurl" using assms
    by (auto simp: getOrCreateEPGSource_def Let_def rebind_def split: option.splits if_splits)
  show "epg_programs d1 = epg_programs d" using assms
    by (auto simp: getOrCreateEPGSource_def Let_def split: option.splits if_splits)
  have "trace d1 = trace d @ [] \<or> (\<exists>ev. trace d1 = trace d @ [ev] \<and> \<not> isFetch ev)"
    using assms
    by (auto simp: getOrCreateEPGSource_def Let_def isFetch_def split: option.splits if_splits)
  then show "\<exists>pre. trace d1 = trace d @ pre \<and> list_all (\<lambda>ev. \<not> isFetch ev) pre"
  proof
    assume "trace d1 = trace d @ []"
    then have "trace d1 = trace d @ [] \<and> list_all (\<lambda>ev. \<not> isFetch ev) []" by simp
    then show ?thesis by blast
  next
    assume "\<exists>ev. trace d1 = trace d @ [ev] \<and> \<not> isFetch ev"
    then obtain ev where "trace d1 = trace d @ [ev] \<and> list_all (\<lambda>ev. \<not> isFetch ev) [ev]" by auto
    then show ?thesis by blast
  qed
qed

lemma sourceOf_update:
  "sourceOf (updateEPGSourceFetch now d sid lm et fe) pid =
     map_option (\<lambda>s. if id_s s = sid then stamp now lm et fe s else s) (sourceOf d pid)"
proof -
  have inv: "\<And>x. (playlist_id (if id_s x = sid then stamp now lm et fe x else x) = pid) = (playlist_id x = pid)"
    by (simp add: stamp_def)
  show ?thesis
    using find_map_inv [of "\<lambda>s. playlist_id s = pid" "\<lambda>s. if id_s s = sid then stamp now lm et fe s else s", OF inv]
    by (simp add: sourceOf_def updateEPGSourceFetch_def)
qed

lemma update_simps [simp]:
  "epg_programs (updateEPGSourceFetch now d sid lm et fe) = epg_programs d"
  "trace (updateEPGSourceFetch now d sid lm et fe) = trace d @ [UpdateSourceFetch sid now lm et fe]"
  by (simp_all add: updateEPGSourceFetch_def)

lemma sourceOf_cong:
  "epg_sources d = epg_sources d' \<Longrightarrow> sourceOf d pid = sourceOf d' pid"
  by (simp add: sourceOf_def)

lemma newRows_source: "filter (\<lambda>p. epg_source_id p = sid) (newRows now uuid sid ps) = newRows now uuid sid ps"
  by (simp add: newRows_def toRow_def)




lemma refresh_success:
  assumes g: "getOrCreateEPGSource (t_source e) (source_uuid e) d pid gurl = (src, d1)"
      and stale: "shouldRefreshEPG (t_check e) src"
      and ok: "\<not> (programs (feed e gurl) = [] \<and> errors_x (feed e gurl) \<noteq> [])"
      and ins: "insertEPGPrograms (t_insert e) (program_uuid e)
                 (clearEPGPrograms (cleanupOldPrograms (t_prune e) (emit (FetchXMLTV gurl) d1) (id_s src))
                    (id_s src))
                 (id_s src) (programs (feed e gurl)) = (Inr u, d5)"
  shows "refreshEPGIfNeeded e d pid gurl =
           (\<lparr>r_source = Some (src\<lparr>last_fetched := Some (t_return e)\<rparr>), r_refreshed = True,
              r_error = None\<rparr>,
            updateEPGSourceFetch (t_stamp e) d5 (id_s src) None None None)"
  using stale ok by (simp add: refreshEPGIfNeeded_def g ins Let_def)

lemma refresh_thrown:
  assumes g: "getOrCreateEPGSource (t_source e) (source_uuid e) d pid gurl = (src, d1)"
      and stale: "shouldRefreshEPG (t_check e) src"
      and ok: "\<not> (programs (feed e gurl) = [] \<and> errors_x (feed e gurl) \<noteq> [])"
      and ins: "insertEPGPrograms (t_insert e) (program_uuid e)
                 (clearEPGPrograms (cleanupOldPrograms (t_prune e) (emit (FetchXMLTV gurl) d1) (id_s src))
                    (id_s src))
                 (id_s src) (programs (feed e gurl)) = (Inl err, d5)"
  shows "refreshEPGIfNeeded e d pid gurl =
           (\<lparr>r_source = None, r_refreshed = False, r_error = Some (thrown_text e err)\<rparr>, d5)"
  using stale ok by (simp add: refreshEPGIfNeeded_def g ins Let_def)

lemma refresh_failure:
  assumes g: "getOrCreateEPGSource (t_source e) (source_uuid e) d pid gurl = (src, d1)"
      and stale: "shouldRefreshEPG (t_check e) src"
      and bad: "programs (feed e gurl) = []" "errors_x (feed e gurl) \<noteq> []"
  shows "refreshEPGIfNeeded e d pid gurl =
           (\<lparr>r_source = Some src, r_refreshed = False,
              r_error = Some (join ''; '' (errors_x (feed e gurl)))\<rparr>,
            updateEPGSourceFetch (t_stamp e) (emit (FetchXMLTV gurl) d1) (id_s src) None None
              (Some (join ''; '' (errors_x (feed e gurl)))))"
  using stale bad by (simp add: refreshEPGIfNeeded_def g Let_def)

lemma refresh_fresh:
  assumes g: "getOrCreateEPGSource (t_source e) (source_uuid e) d pid gurl = (src, d1)"
      and fresh: "\<not> shouldRefreshEPG (t_check e) src"
  shows "refreshEPGIfNeeded e d pid gurl =
           (\<lparr>r_source = Some src, r_refreshed = False, r_error = None\<rparr>, d1)"
  using fresh by (simp add: refreshEPGIfNeeded_def g Let_def)

lemma sourceOf_emit [simp]: "sourceOf (emit ev d) pid = sourceOf d pid"
  by (simp add: sourceOf_def)

lemma stale_after_stamp:
  assumes "t \<noteq> 0" "now' \<le> t + 60 * 60 * 1000"
  shows "\<not> shouldRefreshEPG now' (stamp t lm et fe s)"
  using assms by (simp add: shouldRefreshEPG_def stamp_def falsy_num_def)

lemma getOrCreate_existing:
  assumes "sourceOf d pid = Some s" "epg_url s = gurl"
  shows "getOrCreateEPGSource now uuid d pid gurl = (s, d)"
  using assms by (simp add: getOrCreateEPGSource_def sourceOf_def)

lemma db0_source:
  "getOrCreateEPGSource ts uu db0 ''p1'' url0 = (source0, db0)"
  by (simp add: getOrCreateEPGSource_def db0_def source0_def url0_def)


lemma source0_stale: "shouldRefreshEPG 1704072600001 source0"
  by (simp add: shouldRefreshEPG_def source0_def falsy_num_def)

lemma prune_effect:
  "epg_programs (cleanupOldPrograms t dbx s) =
     filter (\<lambda>p. epg_source_id p \<noteq> s \<or> t - 60 * 60 * 1000 \<le> end_time p) (epg_programs dbx)"
  "epg_sources (cleanupOldPrograms t dbx s) = epg_sources dbx"
  "trace (cleanupOldPrograms t dbx s) = trace dbx @ [DeleteOldPrograms s (t - 60 * 60 * 1000)]"
proof -
  have e: "epg_programs (cleanupOldPrograms t dbx s) =
        filter (\<lambda>p. \<not> (epg_source_id p = s \<and> end_time p < t - 60 * 60 * 1000)) (epg_programs dbx)"
    by (simp add: cleanupOldPrograms_def Let_def)
  show "epg_programs (cleanupOldPrograms t dbx s) =
     filter (\<lambda>p. epg_source_id p \<noteq> s \<or> t - 60 * 60 * 1000 \<le> end_time p) (epg_programs dbx)"
    unfolding e by (rule filter_cong [OF refl]) auto
  show "epg_sources (cleanupOldPrograms t dbx s) = epg_sources dbx"
    by (simp add: cleanupOldPrograms_def Let_def)
  show "trace (cleanupOldPrograms t dbx s) = trace dbx @ [DeleteOldPrograms s (t - 60 * 60 * 1000)]"
    by (simp add: cleanupOldPrograms_def Let_def)
qed

lemma clear_effect:
  "epg_programs (clearEPGPrograms dbx s) = filter (\<lambda>p. epg_source_id p \<noteq> s) (epg_programs dbx)"
  "epg_sources (clearEPGPrograms dbx s) = epg_sources dbx"
  "trace (clearEPGPrograms dbx s) = trace dbx @ [DeletePrograms s]"
  by (simp_all add: clearEPGPrograms_def)

lemma clear_after_prune:
  "epg_programs (clearEPGPrograms (cleanupOldPrograms t dbx s) s) =
     filter (\<lambda>p. epg_source_id p \<noteq> s) (epg_programs dbx)"
proof -
  have "filter (\<lambda>p. epg_source_id p \<noteq> s)
          (filter (\<lambda>p. epg_source_id p \<noteq> s \<or> t - 60 * 60 * 1000 \<le> end_time p) (epg_programs dbx)) =
        filter (\<lambda>p. epg_source_id p \<noteq> s) (epg_programs dbx)"
    unfolding filter_filter by (rule filter_cong [OF refl]) blast
  then show ?thesis by (simp only: clear_effect prune_effect)
qed





text \<open>
  C2. When the source is stale and the parse yields no programme and at least one error,
  \<open>refreshEPGIfNeeded\<close> returns the failure (\<open>refreshed = false\<close> and the joined errors),
  the source's row carries the joined errors in \<open>fetch_error\<close>, and the table of programmes
  is unchanged. A repeated call for the same playlist and URL whose clock reads at most
  one hour more than the time stamped does nothing at all: the database, its trace
  included, is as the first call left it, so no fetch is made. (The stamped time is the
  reading of the clock, which is not 0.)
\<close>

theorem refresh_failure_recorded:
  assumes g: "getOrCreateEPGSource (t_source e) (source_uuid e) d pid gurl = (src, d1)"
      and stale: "shouldRefreshEPG (t_check e) src"
      and bad: "programs (feed e gurl) = []" "errors_x (feed e gurl) \<noteq> []"
      and r: "refreshEPGIfNeeded e d pid gurl = (res, d')"
  shows "res = \<lparr>r_source = Some src, r_refreshed = False,
                 r_error = Some (join ''; '' (errors_x (feed e gurl)))\<rparr>
       \<and> sourceOf d' pid =
           Some (stamp (t_stamp e) None None (Some (join ''; '' (errors_x (feed e gurl)))) src)
       \<and> fetch_error (the (sourceOf d' pid)) = Some (join ''; '' (errors_x (feed e gurl)))
       \<and> epg_programs d' = epg_programs d
       \<and> (t_stamp e \<noteq> 0 \<and> t_check e2 \<le> t_stamp e + 60 * 60 * 1000 \<longrightarrow>
            refreshEPGIfNeeded e2 d' pid gurl =
              (\<lparr>r_source = sourceOf d' pid, r_refreshed = False, r_error = None\<rparr>, d'))"
proof -
  let ?reason = "join ''; '' (errors_x (feed e gurl))"
  let ?row = "stamp (t_stamp e) None None (Some ?reason) src"
  have rd: "res = \<lparr>r_source = Some src, r_refreshed = False, r_error = Some ?reason\<rparr>"
    and d': "d' = updateEPGSourceFetch (t_stamp e) (emit (FetchXMLTV gurl) d1) (id_s src) None None
                    (Some ?reason)"
    using r refresh_failure [OF g stale bad] by simp_all
  have s': "sourceOf d' pid = Some ?row"
    unfolding d' using getOrCreate_facts(1) [OF g] by (simp add: sourceOf_update)
  have fe: "fetch_error (the (sourceOf d' pid)) = Some ?reason"
    by (simp add: s' stamp_def)
  have p': "epg_programs d' = epg_programs d"
    unfolding d' using getOrCreate_facts(4) [OF g] by simp
  have again: "refreshEPGIfNeeded e2 d' pid gurl =
                 (\<lparr>r_source = sourceOf d' pid, r_refreshed = False, r_error = None\<rparr>, d')"
    if "t_stamp e \<noteq> 0 \<and> t_check e2 \<le> t_stamp e + 60 * 60 * 1000"
  proof -
    have "epg_url ?row = gurl" using getOrCreate_facts(3) [OF g] by (simp add: stamp_def)
    then have g2: "getOrCreateEPGSource (t_source e2) (source_uuid e2) d' pid gurl = (?row, d')"
      using s' by (rule getOrCreate_existing [rotated])
    have "\<not> shouldRefreshEPG (t_check e2) ?row"
      using that by (intro stale_after_stamp) auto
    then show ?thesis using refresh_fresh [OF g2] s' by simp
  qed
  show ?thesis using rd s' fe p' again by blast
qed


theorem refresh_failure_recorded_witness:
  "r_error (fst (refreshEPGIfNeeded env_bad db0 ''p1'' url0)) =
     Some ''Failed to fetch XMLTV: 503 Service Unavailable''
   \<and> map fetch_error (epg_sources (snd (refreshEPGIfNeeded env_bad db0 ''p1'' url0))) =
       [Some ''Failed to fetch XMLTV: 503 Service Unavailable'']
   \<and> epg_programs (snd (refreshEPGIfNeeded env_bad db0 ''p1'' url0)) = [progA, progOther]
   \<and> trace (snd (refreshEPGIfNeeded env_bad db0 ''p1'' url0)) =
       [FetchXMLTV url0,
        UpdateSourceFetch ''s1'' 1704072601000 None None
          (Some ''Failed to fetch XMLTV: 503 Service Unavailable'')]
   \<and> snd (refreshEPGIfNeeded env_again (snd (refreshEPGIfNeeded env_bad db0 ''p1'' url0)) ''p1'' url0) =
       snd (refreshEPGIfNeeded env_bad db0 ''p1'' url0)"
proof -
  let ?call = "refreshEPGIfNeeded env_bad db0 ''p1'' url0"
  have g: "getOrCreateEPGSource (t_source env_bad) (source_uuid env_bad) db0 ''p1'' url0 =
             (source0, db0)"
    by (rule db0_source)
  have st: "shouldRefreshEPG (t_check env_bad) source0"
    using source0_stale by (simp add: env_bad_def)
  have bad: "programs (feed env_bad url0) = []" "errors_x (feed env_bad url0) \<noteq> []"
    by (simp_all add: env_bad_def)
  have j: "join ''; '' (errors_x (feed env_bad url0)) =
             ''Failed to fetch XMLTV: 503 Service Unavailable''"
    by (simp add: env_bad_def)
  note t = refresh_failure_recorded [OF g st bad prod.collapse [symmetric], of env_again]
  have window: "t_stamp env_bad \<noteq> 0 \<and> t_check env_again \<le> t_stamp env_bad + 60 * 60 * 1000"
    by (simp add: env_bad_def env_again_def)
  have 1: "r_error (fst ?call) = Some ''Failed to fetch XMLTV: 503 Service Unavailable''"
    using t j by simp
  have d': "snd ?call = updateEPGSourceFetch (t_stamp env_bad) (emit (FetchXMLTV url0) db0)
              (id_s source0) None None (Some ''Failed to fetch XMLTV: 503 Service Unavailable'')"
    using refresh_failure [OF g st bad] j by simp
  have 2: "map fetch_error (epg_sources (snd ?call)) =
             [Some ''Failed to fetch XMLTV: 503 Service Unavailable'']"
    unfolding d' by (simp add: updateEPGSourceFetch_def db0_def stamp_def)
  have 3: "epg_programs (snd ?call) = [progA, progOther]"
    using t by (simp add: db0_def)
  have 4: "trace (snd ?call) = [FetchXMLTV url0,
        UpdateSourceFetch ''s1'' 1704072601000 None None
          (Some ''Failed to fetch XMLTV: 503 Service Unavailable'')]"
    unfolding d' by (simp add: db0_def source0_def env_bad_def)
  have 5: "snd (refreshEPGIfNeeded env_again (snd ?call) ''p1'' url0) = snd ?call"
    using t window by simp
  show ?thesis using 1 2 3 4 5 by simp
qed
lemma feed_nan:
  "feed env_nan u =
     \<lparr>programs = [\<lparr>channel_id = ''bbc1'', title = ''News'', description = None,
                    start_time = None, end_time = None, category = None, icon_url = None\<rparr>],
        errors_x = []\<rparr>"
proof -
  have s: "parseXMLTVDateTime ''tomorrow'' = None"
    by (simp add: stamp_defs date_defs)
  have t: "parseXMLTVDateTime ''20240101xx0000 +0000'' = None"
    by (simp add: stamp_defs date_defs)
  show ?thesis
    by (simp add: env_nan_def parseXMLTV_def parseProgramme_def prog_bad_def s t num_lt_def
          num_gt_def truthy_str_def extractTitle_def extractDesc_def extractCategory_def Let_def)
qed

lemma insert_nan:
  assumes "ps = [p]" and "start_time p = None"
  shows "insertEPGPrograms now uuid d sid ps =
           (Inl (NotNullFailed ''epg_programs.start_time''),
            emit (RejectedBatch (NotNullFailed ''epg_programs.start_time'')) d)"
proof -
  have "bound now uuid sid ps 0 = [toRow now (uuid 0) sid p]"
    using assms by (simp add: bound_def upt_rec [of 0])
  then have "acceptAll (bound now uuid sid ps 0) = Inl (NotNullFailed ''epg_programs.start_time'')"
    using assms by (simp add: accept_def toRow_def)
  then show ?thesis
    using assms insertChunks_step [of 0 ps now uuid sid d] by (simp add: insertEPGPrograms_def)
qed

text \<open>
  C10, as the code has it. A refresh attempt on a stale source that the \<open>catch\<close> does not
  answer (the result names the source), failed or successful, ends with the same
  statement, the \<open>UPDATE\<close> of \<open>updateEPGSourceFetch\<close> on the source's row, which then holds
  the reading of the clock in \<open>last_fetched\<close> and \<open>updated_at\<close> and the reported error (none
  after a success) in \<open>fetch_error\<close>; so for the following hour the source is not stale,
  after a failure as after a success. An attempt that the \<open>catch\<close> answers (the result
  names no source) had a programme with a time that is not a number; it reports an error,
  has run both \<open>DELETE\<close>s, ends with the rejected batch and leaves every source row as it
  was, so nothing is recorded. The statement itself, on any database: it leaves the
  programmes alone and the number and order of the source rows, changes no row with
  another id, keeps \<open>id\<close>, \<open>playlist_id\<close>, \<open>epg_url\<close> and \<open>created_at\<close> of the rows it writes
  and sets their \<open>last_fetched\<close> and \<open>updated_at\<close> to the reading of the clock whatever they
  held. (The reading of the clock is not 0.)
\<close>

theorem refresh_attempt_recorded:
  assumes g: "getOrCreateEPGSource (t_source e) (source_uuid e) d pid gurl = (src, d1)"
      and stale: "shouldRefreshEPG (t_check e) src"
      and r: "refreshEPGIfNeeded e d pid gurl = (res, d')"
  shows "(r_source res \<noteq> None \<longrightarrow>
            last (trace d') = UpdateSourceFetch (id_s src) (t_stamp e) None None (r_error res)
          \<and> sourceOf d' pid = Some (stamp (t_stamp e) None None (r_error res) src)
          \<and> (r_refreshed res \<longleftrightarrow> r_error res = None)
          \<and> (t_stamp e \<noteq> 0 \<and> now' \<le> t_stamp e + 60 * 60 * 1000 \<longrightarrow>
                \<not> shouldRefreshEPG now' (the (sourceOf d' pid))))
       \<and> (r_source res = None \<longrightarrow>
            \<not> r_refreshed res \<and> r_error res \<noteq> None
          \<and> (\<exists>p\<in>set (programs (feed e gurl)). start_time p = None \<or> end_time p = None)
          \<and> (\<exists>ins err. list_all isInsert ins \<and>
                trace d' = trace d1 @ [FetchXMLTV gurl,
                                       DeleteOldPrograms (id_s src) (t_prune e - 60 * 60 * 1000),
                                       DeletePrograms (id_s src)]
                             @ ins @ [RejectedBatch err])
          \<and> epg_sources d' = epg_sources d1
          \<and> sourceOf d' pid = Some src)
       \<and> length (epg_sources (updateEPGSourceFetch now dbx sid lm et fe)) = length (epg_sources dbx)
       \<and> epg_programs (updateEPGSourceFetch now dbx sid lm et fe) = epg_programs dbx
       \<and> (\<forall>i < length (epg_sources dbx).
            (let s = epg_sources dbx ! i; s' = epg_sources (updateEPGSourceFetch now dbx sid lm et fe) ! i
             in id_s s' = id_s s \<and> playlist_id s' = playlist_id s \<and> epg_url s' = epg_url s
                \<and> created_at s' = created_at s
                \<and> (id_s s \<noteq> sid \<longrightarrow> s' = s)
                \<and> (id_s s = sid \<longrightarrow> last_fetched s' = Some now \<and> updated_at s' = now
                      \<and> last_modified s' = lm \<and> etag s' = et \<and> fetch_error s' = fe)))"
proof -
  let ?progs = "programs (feed e gurl)"
  let ?d4 = "clearEPGPrograms (cleanupOldPrograms (t_prune e) (emit (FetchXMLTV gurl) d1) (id_s src))
               (id_s src)"
  obtain ires d5 where i: "insertEPGPrograms (t_insert e) (program_uuid e) ?d4 (id_s src) ?progs =
      (ires, d5)"
    by (cases "insertEPGPrograms (t_insert e) (program_uuid e) ?d4 (id_s src) ?progs")
  note ir = insertEPGPrograms_result [OF i]
  have s5: "sourceOf d5 pid = Some src"
  proof -
    have "epg_sources d5 = epg_sources d1"
      using ir by (simp add: clear_effect prune_effect)
    then show ?thesis using getOrCreate_facts(1) [OF g] sourceOf_cong by metis
  qed
  have t4: "trace ?d4 = trace d1 @ [FetchXMLTV gurl,
              DeleteOldPrograms (id_s src) (t_prune e - 60 * 60 * 1000), DeletePrograms (id_s src)]"
    by (simp add: clear_effect prune_effect)
  have recorded: "last (trace d') = UpdateSourceFetch (id_s src) (t_stamp e) None None (r_error res)
          \<and> sourceOf d' pid = Some (stamp (t_stamp e) None None (r_error res) src)
          \<and> (r_refreshed res \<longleftrightarrow> r_error res = None)"
    if named: "r_source res \<noteq> None"
  proof (cases "?progs = [] \<and> errors_x (feed e gurl) \<noteq> []")
    case True
    then show ?thesis
      using r refresh_failure [OF g stale] getOrCreate_facts(1) [OF g]
      by (auto simp: sourceOf_update)
  next
    case False
    show ?thesis
    proof (cases ires)
      case (Inl err)
      then have "r_source res = None"
        using r refresh_thrown [OF g stale False, of err d5] i by auto
      then show ?thesis using named by simp
    next
      case (Inr u)
      then show ?thesis
        using r refresh_success [OF g stale False, of u d5] i s5
        by (auto simp: sourceOf_update)
    qed
  qed
  then have fresh: "\<not> shouldRefreshEPG now' (the (sourceOf d' pid))"
    if "r_source res \<noteq> None" "t_stamp e \<noteq> 0 \<and> now' \<le> t_stamp e + 60 * 60 * 1000"
    using that stale_after_stamp [of "t_stamp e" now'] by simp
  have thrown: "\<not> r_refreshed res \<and> r_error res \<noteq> None
          \<and> (\<exists>p\<in>set ?progs. start_time p = None \<or> end_time p = None)
          \<and> (\<exists>ins err. list_all isInsert ins \<and>
                trace d' = trace d1 @ [FetchXMLTV gurl,
                                       DeleteOldPrograms (id_s src) (t_prune e - 60 * 60 * 1000),
                                       DeletePrograms (id_s src)]
                             @ ins @ [RejectedBatch err])
          \<and> epg_sources d' = epg_sources d1
          \<and> sourceOf d' pid = Some src"
    if anon: "r_source res = None"
  proof -
    have ok: "\<not> (?progs = [] \<and> errors_x (feed e gurl) \<noteq> [])"
    proof
      assume "?progs = [] \<and> errors_x (feed e gurl) \<noteq> []"
      then have "r_source (fst (refreshEPGIfNeeded e d pid gurl)) = Some src"
        using refresh_failure [OF g stale] by simp
      then show False using anon r by simp
    qed
    obtain err where err: "ires = Inl err"
      using anon r refresh_success [OF g stale ok, of _ d5] i by (cases ires) auto
    have res: "res = \<lparr>r_source = None, r_refreshed = False, r_error = Some (thrown_text e err)\<rparr>"
      and d': "d' = d5"
      using r refresh_thrown [OF g stale ok, of err d5] i err by simp_all
    from ir err obtain ins where
      ins: "list_all isInsert ins" "trace d5 = trace ?d4 @ ins @ [RejectedBatch err]"
      and nan: "\<exists>k<length ?progs. start_time (?progs ! k) = None \<or> end_time (?progs ! k) = None"
      and src: "epg_sources d5 = epg_sources ?d4"
      by auto
    have 1: "\<exists>p\<in>set ?progs. start_time p = None \<or> end_time p = None"
      using nan nth_mem by blast
    have 2: "\<exists>ins err. list_all isInsert ins \<and>
                trace d' = trace d1 @ [FetchXMLTV gurl,
                                       DeleteOldPrograms (id_s src) (t_prune e - 60 * 60 * 1000),
                                       DeletePrograms (id_s src)]
                             @ ins @ [RejectedBatch err]"
      using ins t4 d' by auto
    have 3: "epg_sources d' = epg_sources d1"
      using src d' by (simp add: clear_effect prune_effect)
    show ?thesis using res 1 2 3 s5 d' by simp
  qed
  have frame: "length (epg_sources (updateEPGSourceFetch now dbx sid lm et fe)) = length (epg_sources dbx)
       \<and> epg_programs (updateEPGSourceFetch now dbx sid lm et fe) = epg_programs dbx
       \<and> (\<forall>i < length (epg_sources dbx).
            (let s = epg_sources dbx ! i; s' = epg_sources (updateEPGSourceFetch now dbx sid lm et fe) ! i
             in id_s s' = id_s s \<and> playlist_id s' = playlist_id s \<and> epg_url s' = epg_url s
                \<and> created_at s' = created_at s
                \<and> (id_s s \<noteq> sid \<longrightarrow> s' = s)
                \<and> (id_s s = sid \<longrightarrow> last_fetched s' = Some now \<and> updated_at s' = now
                      \<and> last_modified s' = lm \<and> etag s' = et \<and> fetch_error s' = fe)))"
    by (simp add: updateEPGSourceFetch_def stamp_def Let_def)
  show ?thesis
  proof (intro conjI impI)
    assume n: "r_source res \<noteq> None"
    show "last (trace d') = UpdateSourceFetch (id_s src) (t_stamp e) None None (r_error res)"
      and "sourceOf d' pid = Some (stamp (t_stamp e) None None (r_error res) src)"
      and "r_refreshed res \<longleftrightarrow> r_error res = None"
      using recorded [OF n] by simp_all
    assume "t_stamp e \<noteq> 0 \<and> now' \<le> t_stamp e + 60 * 60 * 1000"
    then show "\<not> shouldRefreshEPG now' (the (sourceOf d' pid))" using fresh [OF n] by simp
  next
    assume a: "r_source res = None"
    show "\<not> r_refreshed res" "r_error res \<noteq> None"
      "\<exists>p\<in>set ?progs. start_time p = None \<or> end_time p = None"
      "\<exists>ins err. list_all isInsert ins \<and>
                trace d' = trace d1 @ [FetchXMLTV gurl,
                                       DeleteOldPrograms (id_s src) (t_prune e - 60 * 60 * 1000),
                                       DeletePrograms (id_s src)]
                             @ ins @ [RejectedBatch err]"
      "epg_sources d' = epg_sources d1" "sourceOf d' pid = Some src"
      using thrown [OF a] by simp_all
  next
    show "length (epg_sources (updateEPGSourceFetch now dbx sid lm et fe)) = length (epg_sources dbx)"
      "epg_programs (updateEPGSourceFetch now dbx sid lm et fe) = epg_programs dbx"
      "\<forall>i < length (epg_sources dbx).
            (let s = epg_sources dbx ! i; s' = epg_sources (updateEPGSourceFetch now dbx sid lm et fe) ! i
             in id_s s' = id_s s \<and> playlist_id s' = playlist_id s \<and> epg_url s' = epg_url s
                \<and> created_at s' = created_at s
                \<and> (id_s s \<noteq> sid \<longrightarrow> s' = s)
                \<and> (id_s s = sid \<longrightarrow> last_fetched s' = Some now \<and> updated_at s' = now
                      \<and> last_modified s' = lm \<and> etag s' = et \<and> fetch_error s' = fe))"
      using frame by simp_all
  qed
qed


lemma refresh_nan:
  "refreshEPGIfNeeded env_nan db0 ''p1'' url0 =
     (\<lparr>r_source = None, r_refreshed = False,
        r_error = Some ''NOT NULL constraint failed: epg_programs.start_time''\<rparr>,
      emit (RejectedBatch (NotNullFailed ''epg_programs.start_time''))
        (clearEPGPrograms (cleanupOldPrograms (t_prune env_nan) (emit (FetchXMLTV url0) db0) ''s1'')
           ''s1''))"
proof -
  have g: "getOrCreateEPGSource (t_source env_nan) (source_uuid env_nan) db0 ''p1'' url0 =
             (source0, db0)"
    by (rule db0_source)
  have st: "shouldRefreshEPG (t_check env_nan) source0"
    using source0_stale by (simp add: env_nan_def)
  have ok: "\<not> (programs (feed env_nan url0) = [] \<and> errors_x (feed env_nan url0) \<noteq> [])"
    by (simp add: feed_nan)
  have sid: "id_s source0 = ''s1''" by (simp add: source0_def)
  have tt: "thrown_text env_nan (NotNullFailed ''epg_programs.start_time'') =
              ''NOT NULL constraint failed: epg_programs.start_time''"
    by (simp add: env_nan_def d1_text_def)
  note i = insert_nan [of "programs (feed env_nan url0)" _ "t_insert env_nan" "program_uuid env_nan"
      "clearEPGPrograms (cleanupOldPrograms (t_prune env_nan) (emit (FetchXMLTV url0) db0) (id_s source0))
         (id_s source0)" "id_s source0", OF feed_nan [THEN arg_cong, of programs, simplified]]
  show ?thesis
    using refresh_thrown [OF g st ok i] by (simp add: sid tt)
qed

theorem refresh_attempt_recorded_witness:
  "\<not> r_refreshed (fst (refreshEPGIfNeeded env_bad db0 ''p1'' url0))
   \<and> r_refreshed (fst (refreshEPGIfNeeded env_ok db0 ''p1'' url0))
   \<and> last (trace (snd (refreshEPGIfNeeded env_bad db0 ''p1'' url0))) =
       UpdateSourceFetch ''s1'' 1704072601000 None None
         (Some ''Failed to fetch XMLTV: 503 Service Unavailable'')
   \<and> last (trace (snd (refreshEPGIfNeeded env_ok db0 ''p1'' url0))) =
       UpdateSourceFetch ''s1'' 1704072601000 None None None
   \<and> \<not> shouldRefreshEPG 1704074400001
         (the (sourceOf (snd (refreshEPGIfNeeded env_bad db0 ''p1'' url0)) ''p1''))
   \<and> \<not> shouldRefreshEPG 1704074400001
         (the (sourceOf (snd (refreshEPGIfNeeded env_ok db0 ''p1'' url0)) ''p1''))
   \<and> shouldRefreshEPG 1704074400001 source0
   \<and> r_source (fst (refreshEPGIfNeeded env_nan db0 ''p1'' url0)) = None
   \<and> sourceOf (snd (refreshEPGIfNeeded env_nan db0 ''p1'' url0)) ''p1'' = Some source0"
proof -
  have g: "getOrCreateEPGSource (t_source env_bad) (source_uuid env_bad) db0 ''p1'' url0 =
             (source0, db0)"
          "getOrCreateEPGSource (t_source env_ok) (source_uuid env_ok) db0 ''p1'' url0 =
             (source0, db0)"
          "getOrCreateEPGSource (t_source env_nan) (source_uuid env_nan) db0 ''p1'' url0 =
             (source0, db0)"
    by (rule db0_source)+
  have st: "shouldRefreshEPG (t_check env_bad) source0" "shouldRefreshEPG (t_check env_ok) source0"
    "shouldRefreshEPG (t_check env_nan) source0"
    using source0_stale by (simp_all add: env_bad_def env_ok_def env_nan_def)
  note b = refresh_attempt_recorded [OF g(1) st(1) prod.collapse [symmetric], of 1704074400001]
  note k = refresh_attempt_recorded [OF g(2) st(2) prod.collapse [symmetric], of 1704074400001]
  note n = refresh_attempt_recorded [OF g(3) st(3) prod.collapse [symmetric]]
  have ok: "\<not> (programs (feed env_ok url0) = [] \<and> errors_x (feed env_ok url0) \<noteq> [])"
    by (simp add: env_ok_def)
  have "\<forall>p\<in>set (programs (feed env_ok url0)). start_time p \<noteq> None \<and> end_time p \<noteq> None"
    by (simp add: env_ok_def parsedX_def parsedY_def)
  from insertEPGPrograms_total [OF this] obtain d5 where
    i: "insertEPGPrograms (t_insert env_ok) (program_uuid env_ok)
          (clearEPGPrograms (cleanupOldPrograms (t_prune env_ok) (emit (FetchXMLTV url0) db0) (id_s source0))
             (id_s source0)) (id_s source0)
          (programs (feed env_ok url0)) = (Inr (), d5)"
    by blast
  have eb: "fst (refreshEPGIfNeeded env_bad db0 ''p1'' url0) =
              \<lparr>r_source = Some source0, r_refreshed = False,
                 r_error = Some ''Failed to fetch XMLTV: 503 Service Unavailable''\<rparr>"
    using refresh_failure [OF g(1) st(1)] by (simp add: env_bad_def)
  have ek: "fst (refreshEPGIfNeeded env_ok db0 ''p1'' url0) =
              \<lparr>r_source = Some (source0\<lparr>last_fetched := Some (t_return env_ok)\<rparr>),
                 r_refreshed = True, r_error = None\<rparr>"
    using refresh_success [OF g(2) st(2) ok i] by simp
  have en: "r_source (fst (refreshEPGIfNeeded env_nan db0 ''p1'' url0)) = None"
    by (simp add: refresh_nan)
  have tm: "t_stamp env_bad = 1704072601000" "t_stamp env_ok = 1704072601000"
           "id_s source0 = ''s1''"
    by (simp_all add: env_bad_def env_ok_def source0_def)
  have old: "shouldRefreshEPG 1704074400001 source0"
    by (simp add: shouldRefreshEPG_def source0_def falsy_num_def)
  have nn: "sourceOf (snd (refreshEPGIfNeeded env_nan db0 ''p1'' url0)) ''p1'' = Some source0"
    using n en by simp
  show ?thesis using b k eb ek en nn tm old by (simp add: stale_after_stamp)
qed

text \<open>
  C10 as it is worded fails on the element of C6: its programme reaches the refresh with
  \<open>NaN\<close> as both times, both \<open>DELETE\<close>s run, the \<open>INSERT\<close> is rejected and the \<open>catch\<close>
  answers. No source update is written: the row of the source is as before the attempt,
  the source is as stale as it was, and its stored programme is gone.
\<close>

theorem refresh_attempt_unrecorded_counterexample:
  "programs (feed env_nan url0) =
     [\<lparr>channel_id = ''bbc1'', title = ''News'', description = None,
        start_time = None, end_time = None, category = None, icon_url = None\<rparr>]
   \<and> errors_x (feed env_nan url0) = []
   \<and> sourceOf db0 ''p1'' = Some source0
   \<and> shouldRefreshEPG (t_check env_nan) source0
   \<and> fst (refreshEPGIfNeeded env_nan db0 ''p1'' url0) =
       \<lparr>r_source = None, r_refreshed = False,
          r_error = Some ''NOT NULL constraint failed: epg_programs.start_time''\<rparr>
   \<and> trace (snd (refreshEPGIfNeeded env_nan db0 ''p1'' url0)) =
       [FetchXMLTV url0, DeleteOldPrograms ''s1'' 1704069000900, DeletePrograms ''s1'',
        RejectedBatch (NotNullFailed ''epg_programs.start_time'')]
   \<and> epg_sources (snd (refreshEPGIfNeeded env_nan db0 ''p1'' url0)) = [source0]
   \<and> shouldRefreshEPG 1704072601002
         (the (sourceOf (snd (refreshEPGIfNeeded env_nan db0 ''p1'' url0)) ''p1''))
   \<and> epg_programs db0 = [progA, progOther]
   \<and> epg_programs (snd (refreshEPGIfNeeded env_nan db0 ''p1'' url0)) = [progOther]"
proof -
  have st: "shouldRefreshEPG (t_check env_nan) source0" "shouldRefreshEPG 1704072601002 source0"
    by (simp_all add: shouldRefreshEPG_def source0_def falsy_num_def env_nan_def)
  have sel: "filter (\<lambda>p. epg_source_id p \<noteq> ''s1'') [progA, progOther] = [progOther]"
    by (simp add: progA_def progOther_def)
  have 1: "trace (snd (refreshEPGIfNeeded env_nan db0 ''p1'' url0)) =
       [FetchXMLTV url0, DeleteOldPrograms ''s1'' 1704069000900, DeletePrograms ''s1'',
        RejectedBatch (NotNullFailed ''epg_programs.start_time'')]"
    unfolding refresh_nan by (simp add: clear_effect prune_effect db0_def env_nan_def)
  have 2: "epg_sources (snd (refreshEPGIfNeeded env_nan db0 ''p1'' url0)) = [source0]"
    unfolding refresh_nan by (simp add: clear_effect prune_effect db0_def)
  have 3: "epg_programs (snd (refreshEPGIfNeeded env_nan db0 ''p1'' url0)) = [progOther]"
    unfolding refresh_nan by (simp add: clear_after_prune db0_def progA_def progOther_def)
  have 4: "sourceOf (snd (refreshEPGIfNeeded env_nan db0 ''p1'' url0)) ''p1'' = Some source0"
    "sourceOf db0 ''p1'' = Some source0"
    unfolding sourceOf_def 2 by (simp_all add: db0_def source0_def)
  have 5: "epg_programs db0 = [progA, progOther]" by (simp add: db0_def)
  show ?thesis using st 1 2 3 4 5 by (simp add: feed_nan refresh_nan)
qed

end
